(* ===== verification/Prelude.thy ===== *)
theory Prelude
  imports Main "HOL-Library.Word"
begin

text \<open>
  Shared vocabulary of the development: the machine integers of the Rust code, the outcome
  of a fallible Rust call, Rust's checked, saturating and plain integer operators, and
  little-endian byte strings. Every other theory builds on these definitions.

  A Rust call has three outcomes: it returns \<open>Ok x\<close>, it returns \<open>Err e\<close>, or it panics
  (an index out of range, a division by zero, an overflow in a build with overflow checks).
  The panic is a value of its own, so that \<open>.ok()\<close>, which turns an error into \<open>None\<close>
  but lets a panic through, is modelled exactly.
\<close>

named_theorems checked_simps \<open>characterisations of the integer operators over \<open>unat\<close>\<close>
named_theorems no_panic \<open>introduction rules: an outcome is not a panic\<close>

section \<open>Machine integers\<close>

type_synonym u8 = "8 word"
type_synonym u16 = "16 word"
type_synonym u32 = "32 word"
type_synonym u64 = "64 word"
type_synonym i64 = "64 word"
type_synonym u128 = "128 word"

text \<open>Signed integers are their bit patterns, read with \<open>sint\<close>; \<open>usize\<close> is \<open>nat\<close>.\<close>

abbreviation u64_max :: u64 where
  "u64_max \<equiv> - 1"

section \<open>Outcomes of Rust calls\<close>

datatype ('e, 'a) outcome = Ok 'a | Err 'e | Panic

primrec and_then :: "('e, 'a) outcome \<Rightarrow> ('a \<Rightarrow> ('e, 'b) outcome) \<Rightarrow> ('e, 'b) outcome" where
  "and_then (Ok x) k = k x"
| "and_then (Err e) k = Err e"
| "and_then Panic k = Panic"

primrec ok_or :: "'a option \<Rightarrow> 'e \<Rightarrow> ('e, 'a) outcome" where
  "ok_or (Some x) e = Ok x"
| "ok_or None e = Err e"

primrec or_panic :: "'a option \<Rightarrow> ('e, 'a) outcome" where
  "or_panic (Some x) = Ok x"
| "or_panic None = Panic"

primrec map_err :: "('e \<Rightarrow> 'f) \<Rightarrow> ('e, 'a) outcome \<Rightarrow> ('f, 'a) outcome" where
  "map_err f (Ok x) = Ok x"
| "map_err f (Err e) = Err (f e)"
| "map_err f Panic = Panic"

text \<open>\<open>r.ok()\<close>: the error is forgotten, the panic is not.\<close>

primrec ok :: "('e, 'a) outcome \<Rightarrow> ('f, 'a option) outcome" where
  "ok (Ok x) = Ok (Some x)"
| "ok (Err e) = Ok None"
| "ok Panic = Panic"

primrec is_ok :: "('e, 'a) outcome \<Rightarrow> bool" where
  "is_ok (Ok x) = True"
| "is_ok (Err e) = False"
| "is_ok Panic = False"

text \<open>A loop with \<open>?\<close> in its body: elements in order, stopping at the first failure.\<close>

fun map_outcome :: "('a \<Rightarrow> ('e, 'b) outcome) \<Rightarrow> 'a list \<Rightarrow> ('e, 'b list) outcome" where
  "map_outcome f [] = Ok []"
| "map_outcome f (x # xs) =
     and_then (f x) (\<lambda>y. and_then (map_outcome f xs) (\<lambda>ys. Ok (y # ys)))"

fun fold_outcome :: "('s \<Rightarrow> 'a \<Rightarrow> ('e, 's) outcome) \<Rightarrow> 's \<Rightarrow> 'a list \<Rightarrow> ('e, 's) outcome" where
  "fold_outcome f s [] = Ok s"
| "fold_outcome f s (x # xs) = and_then (f s x) (\<lambda>s'. fold_outcome f s' xs)"

text \<open>
  A \<open>?\<close> in a method that mutates its receiver: on a failure the method returns with the state as
  it is at that point.
\<close>

primrec or_stop ::
    "('e, 'a) outcome \<Rightarrow> 's \<Rightarrow> ('a \<Rightarrow> 's \<times> ('e, 'b) outcome) \<Rightarrow> 's \<times> ('e, 'b) outcome" where
  "or_stop (Ok x) st k = k x"
| "or_stop (Err e) st k = (st, Err e)"
| "or_stop Panic st k = (st, Panic)"

text \<open>Taking a successful run apart, step by step.\<close>

lemma and_then_assoc: "and_then (and_then m k) l = and_then m (\<lambda>x. and_then (k x) l)"
  by (cases m) simp_all

lemma and_thenE: "and_then m k = Ok y \<Longrightarrow> (\<And>x. m = Ok x \<Longrightarrow> k x = Ok y \<Longrightarrow> P) \<Longrightarrow> P"
  by (cases m) auto

lemma if_ErrE: "(if b then Err e else m) = Ok y \<Longrightarrow> (\<not> b \<Longrightarrow> m = Ok y \<Longrightarrow> P) \<Longrightarrow> P"
  by (cases b) auto

lemma Ok_eqE: "Ok x = Ok y \<Longrightarrow> (x = y \<Longrightarrow> P) \<Longrightarrow> P"
  by simp

lemma ok_orE: "ok_or m e = Ok y \<Longrightarrow> (m = Some y \<Longrightarrow> P) \<Longrightarrow> P"
  by (cases m) auto

lemma or_panicE: "or_panic m = Ok y \<Longrightarrow> (m = Some y \<Longrightarrow> P) \<Longrightarrow> P"
  by (cases m) auto

lemmas ok_elims = and_thenE if_ErrE Ok_eqE ok_orE or_panicE

lemma or_stop_eq_Ok [simp]:
  "or_stop m st k = (st', Ok y) \<longleftrightarrow> (\<exists>x. m = Ok x \<and> k x = (st', Ok y))"
  by (cases m) auto

lemma or_stop_OkE:
  "or_stop m st k = (st', Ok y) \<Longrightarrow> (\<And>x. m = Ok x \<Longrightarrow> k x = (st', Ok y) \<Longrightarrow> P) \<Longrightarrow> P"
  by (cases m) auto

text \<open>A property of state and outcome holds of a run when every stop and the rest keep it.\<close>

lemma or_stop_rule:
  "(\<And>x. m = Ok x \<Longrightarrow> P (k x)) \<Longrightarrow> (\<And>r. (\<And>y. r \<noteq> Ok y) \<Longrightarrow> P (st, r)) \<Longrightarrow> P (or_stop m st k)"
  by (cases m) auto

lemma or_stop_no_panic [no_panic]:
  "m \<noteq> Panic \<Longrightarrow> (\<And>x. m = Ok x \<Longrightarrow> snd (k x) \<noteq> Panic) \<Longrightarrow> snd (or_stop m st k) \<noteq> Panic"
  by (cases m) auto

lemma and_then_eq_Ok [simp]: "and_then m k = Ok y \<longleftrightarrow> (\<exists>x. m = Ok x \<and> k x = Ok y)"
  by (cases m) auto

lemma and_then_eq_Err [simp]:
  "and_then m k = Err e \<longleftrightarrow> m = Err e \<or> (\<exists>x. m = Ok x \<and> k x = Err e)"
  by (cases m) auto

lemma and_then_eq_Panic [simp]:
  "and_then m k = Panic \<longleftrightarrow> m = Panic \<or> (\<exists>x. m = Ok x \<and> k x = Panic)"
  by (cases m) auto

lemma ok_or_eq_Ok [simp]: "ok_or m e = Ok y \<longleftrightarrow> m = Some y"
  by (cases m) auto

lemma ok_or_neq_Panic [simp]: "ok_or m e \<noteq> Panic" "Panic \<noteq> ok_or m e"
  by (cases m; simp)+

lemma ok_or_eq_Err [simp]: "ok_or m e = Err e' \<longleftrightarrow> m = None \<and> e' = e"
  by (cases m) auto

lemma or_panic_eq_Ok [simp]: "or_panic m = Ok y \<longleftrightarrow> m = Some y"
  by (cases m) auto

lemma or_panic_eq_Panic [simp]: "or_panic m = Panic \<longleftrightarrow> m = None"
  by (cases m) auto

lemma or_panic_neq_Err [simp]: "or_panic m \<noteq> Err e"
  by (cases m) auto

lemma map_err_eq_Ok [simp]: "map_err f m = Ok y \<longleftrightarrow> m = Ok y"
  by (cases m) auto

lemma map_err_eq_Panic [simp]: "map_err f m = Panic \<longleftrightarrow> m = Panic"
  by (cases m) auto

lemma ok_eq_Panic [simp]: "ok m = Panic \<longleftrightarrow> m = Panic"
  by (cases m) auto

lemma ok_eq_Ok_Some [simp]: "ok m = Ok (Some x) \<longleftrightarrow> m = Ok x"
  by (cases m) auto

lemma ok_eq_Ok_None: "ok m = Ok None \<longleftrightarrow> (\<exists>e. m = Err e)"
  by (cases m) auto

lemma ok_neq_Err [simp]: "ok m \<noteq> Err e"
  by (cases m) auto

lemma is_ok_iff: "is_ok m \<longleftrightarrow> (\<exists>x. m = Ok x)"
  by (cases m) auto

lemma and_then_no_panic [no_panic]:
  "m \<noteq> Panic \<Longrightarrow> (\<And>x. m = Ok x \<Longrightarrow> k x \<noteq> Panic) \<Longrightarrow> and_then m k \<noteq> Panic"
  by (cases m) auto

text \<open>The same without the intermediate equation, for long chains whose steps never panic.\<close>

lemma and_then_no_panic':
  "m \<noteq> Panic \<Longrightarrow> (\<And>x. k x \<noteq> Panic) \<Longrightarrow> and_then m k \<noteq> Panic"
  by (cases m) auto

lemma if_no_panic [no_panic]:
  "(b \<Longrightarrow> m \<noteq> Panic) \<Longrightarrow> (\<not> b \<Longrightarrow> n \<noteq> Panic) \<Longrightarrow> (if b then m else n) \<noteq> Panic"
  by simp

lemma Ok_no_panic [no_panic]: "Ok x \<noteq> Panic"
  and Err_no_panic [no_panic]: "Err e \<noteq> Panic"
  and ok_or_no_panic [no_panic]: "ok_or m e \<noteq> Panic"
  by simp_all

lemma map_outcome_all:
  "map_outcome f xs = Ok ys \<Longrightarrow> (\<And>x y. f x = Ok y \<Longrightarrow> P y) \<Longrightarrow> list_all P ys"
  by (induction xs arbitrary: ys) auto

lemma map_outcome_no_panic [no_panic]:
  "(\<And>x. x \<in> set xs \<Longrightarrow> f x \<noteq> Panic) \<Longrightarrow> map_outcome f xs \<noteq> Panic"
  by (induction xs) auto

lemma map_outcome_length: "map_outcome f xs = Ok ys \<Longrightarrow> length ys = length xs"
  by (induction xs arbitrary: ys) auto

lemma map_outcome_nth:
  "map_outcome f xs = Ok ys \<Longrightarrow> i < length xs \<Longrightarrow> f (xs ! i) = Ok (ys ! i)"
  by (induction xs arbitrary: ys i) (auto simp: nth_Cons split: nat.splits)

section \<open>Rust integer operators\<close>

text \<open>\<open>checked_*\<close>: \<open>None\<close> where the mathematical result does not fit.\<close>

definition checked_add :: "'a::len word \<Rightarrow> 'a word \<Rightarrow> 'a word option" where
  "checked_add a b = (if unat a + unat b < 2 ^ LENGTH('a) then Some (a + b) else None)"

definition checked_sub :: "'a::len word \<Rightarrow> 'a word \<Rightarrow> 'a word option" where
  "checked_sub a b = (if b \<le> a then Some (a - b) else None)"

definition checked_mul :: "'a::len word \<Rightarrow> 'a word \<Rightarrow> 'a word option" where
  "checked_mul a b = (if unat a * unat b < 2 ^ LENGTH('a) then Some (a * b) else None)"

definition checked_div :: "'a::len word \<Rightarrow> 'a word \<Rightarrow> 'a word option" where
  "checked_div a b = (if b = 0 then None else Some (a div b))"

text \<open>\<open>saturating_*\<close>: the nearest representable value.\<close>

definition saturating_add :: "'a::len word \<Rightarrow> 'a word \<Rightarrow> 'a word" where
  "saturating_add a b = (if unat a + unat b < 2 ^ LENGTH('a) then a + b else - 1)"

definition saturating_sub :: "'a::len word \<Rightarrow> 'a word \<Rightarrow> 'a word" where
  "saturating_sub a b = (if b \<le> a then a - b else 0)"

definition saturating_mul :: "'a::len word \<Rightarrow> 'a word \<Rightarrow> 'a word" where
  "saturating_mul a b = (if unat a * unat b < 2 ^ LENGTH('a) then a * b else - 1)"

text \<open>
  The plain operators: an overflow panics in a build with overflow checks and wraps in a build
  without them (Rust's \<open>overflow-checks\<close> profile setting, the first argument).
\<close>

definition plain_add :: "bool \<Rightarrow> 'a::len word \<Rightarrow> 'a word \<Rightarrow> ('e, 'a word) outcome" where
  "plain_add chk a b =
     (if chk \<and> \<not> unat a + unat b < 2 ^ LENGTH('a) then Panic else Ok (a + b))"

definition plain_sub :: "bool \<Rightarrow> 'a::len word \<Rightarrow> 'a word \<Rightarrow> ('e, 'a word) outcome" where
  "plain_sub chk a b = (if chk \<and> \<not> b \<le> a then Panic else Ok (a - b))"

text \<open>Division panics on a zero divisor in every build.\<close>

definition plain_div :: "'a::len word \<Rightarrow> 'a word \<Rightarrow> ('e, 'a word) outcome" where
  "plain_div a b = (if b = 0 then Panic else Ok (a div b))"

definition plain_div_ceil :: "'a::len word \<Rightarrow> 'a word \<Rightarrow> ('e, 'a word) outcome" where
  "plain_div_ceil a b =
     (if b = 0 then Panic else Ok (if a mod b = 0 then a div b else a div b + 1))"

text \<open>\<open>x as T\<close> between unsigned widths keeps the low bits; \<open>T::try_from\<close> checks the range.\<close>

definition try_u64 :: "'a::len word \<Rightarrow> u64 option" where
  "try_u64 v = (if unat v < 2 ^ 64 then Some (ucast v) else None)"

lemma checked_add_Some [checked_simps]:
  fixes a :: "'a::len word"
  shows "checked_add a b = Some c \<longleftrightarrow> unat c = unat a + unat b"
proof
  assume "checked_add a b = Some c"
  then show "unat c = unat a + unat b"
    by (auto simp: checked_add_def unat_word_ariths split: if_splits)
next
  assume eq: "unat c = unat a + unat b"
  have "unat c < 2 ^ LENGTH('a)" by (rule unsigned_less)
  with eq have lt: "unat a + unat b < 2 ^ LENGTH('a)" by simp
  then have "unat (a + b) = unat c"
    using eq by (simp add: unat_word_ariths)
  then have "a + b = c" by (rule unsigned_word_eqI)
  with lt show "checked_add a b = Some c" by (simp add: checked_add_def)
qed

lemma checked_sub_Some [checked_simps]:
  fixes a :: "'a::len word"
  shows "checked_sub a b = Some c \<longleftrightarrow> unat a = unat b + unat c"
proof
  assume "checked_sub a b = Some c"
  then have "b \<le> a" "c = a - b" by (auto simp: checked_sub_def split: if_splits)
  then show "unat a = unat b + unat c"
    by (simp add: unat_sub word_le_nat_alt)
next
  assume eq: "unat a = unat b + unat c"
  then have le: "b \<le> a" by (simp add: word_le_nat_alt)
  then have "unat (a - b) = unat c" using eq by (simp add: unat_sub)
  then have "a - b = c" by (rule unsigned_word_eqI)
  with le show "checked_sub a b = Some c" by (simp add: checked_sub_def)
qed

lemma checked_mul_Some [checked_simps]:
  fixes a :: "'a::len word"
  shows "checked_mul a b = Some c \<longleftrightarrow> unat c = unat a * unat b"
proof
  assume "checked_mul a b = Some c"
  then show "unat c = unat a * unat b"
    by (auto simp: checked_mul_def unat_word_ariths split: if_splits)
next
  assume eq: "unat c = unat a * unat b"
  have "unat c < 2 ^ LENGTH('a)" by (rule unsigned_less)
  with eq have lt: "unat a * unat b < 2 ^ LENGTH('a)" by simp
  then have "unat (a * b) = unat c"
    using eq by (simp add: unat_word_ariths)
  then have "a * b = c" by (rule unsigned_word_eqI)
  with lt show "checked_mul a b = Some c" by (simp add: checked_mul_def)
qed

lemma unat_eq_0_iff: "unat (a :: 'a::len word) = 0 \<longleftrightarrow> a = 0"
  by (simp add: unat_eq_zero)

lemma checked_div_Some [checked_simps]:
  fixes a :: "'a::len word"
  shows "checked_div a b = Some c \<longleftrightarrow> unat b \<noteq> 0 \<and> unat c = unat a div unat b"
proof (cases "b = 0")
  case False
  have "a div b = c \<longleftrightarrow> unat c = unat a div unat b"
    by (metis unat_div unsigned_word_eqI)
  with False show ?thesis by (simp add: checked_div_def unat_eq_0_iff)
qed (simp add: checked_div_def)

lemma checked_add_None [checked_simps]:
  "checked_add (a :: 'a::len word) b = None \<longleftrightarrow> 2 ^ LENGTH('a) \<le> unat a + unat b"
  by (auto simp: checked_add_def)

lemma checked_sub_None [checked_simps]:
  "checked_sub (a :: 'a::len word) b = None \<longleftrightarrow> unat a < unat b"
  by (auto simp: checked_sub_def word_le_nat_alt)

lemma checked_mul_None [checked_simps]:
  "checked_mul (a :: 'a::len word) b = None \<longleftrightarrow> 2 ^ LENGTH('a) \<le> unat a * unat b"
  by (auto simp: checked_mul_def)

lemma checked_div_None [checked_simps]:
  "checked_div (a :: 'a::len word) b = None \<longleftrightarrow> unat b = 0"
  by (auto simp: checked_div_def unat_eq_0_iff)

lemma unat_minus_one: "unat (- 1 :: 'a::len word) = 2 ^ LENGTH('a) - 1"
  by (simp add: unsigned_minus_1_eq_mask mask_eq_exp_minus_1)

lemma unat_saturating_add [checked_simps]:
  "unat (saturating_add (a :: 'a::len word) b) = min (unat a + unat b) (2 ^ LENGTH('a) - 1)"
  by (auto simp: saturating_add_def unat_word_ariths unat_minus_one)

lemma unat_saturating_sub [checked_simps]:
  "unat (saturating_sub (a :: 'a::len word) b) = unat a - unat b"
  by (auto simp: saturating_sub_def unat_sub word_le_nat_alt)

lemma unat_saturating_mul [checked_simps]:
  "unat (saturating_mul (a :: 'a::len word) b) = min (unat a * unat b) (2 ^ LENGTH('a) - 1)"
  by (auto simp: saturating_mul_def unat_word_ariths unat_minus_one)

lemma saturating_add_ge [simp]: "a \<le> saturating_add a (b :: 'a::len word)"
proof -
  have "unat a < 2 ^ LENGTH('a)" by (rule unsigned_less)
  then have "unat a \<le> 2 ^ LENGTH('a) - 1" by linarith
  then show ?thesis by (simp add: word_le_nat_alt unat_saturating_add)
qed

lemma saturating_sub_le [simp]: "saturating_sub a (b :: 'a::len word) \<le> a"
  by (simp add: word_le_nat_alt unat_saturating_sub)

lemma try_u64_Some [checked_simps]: "try_u64 v = Some r \<longleftrightarrow> unat r = unat v"
proof
  assume "try_u64 v = Some r"
  then show "unat r = unat v"
    by (auto simp: try_u64_def unsigned_ucast_eq take_bit_eq_mod split: if_splits)
next
  assume eq: "unat r = unat v"
  have "unat r < 2 ^ LENGTH(64)" by (rule unsigned_less)
  with eq have lt: "unat v < 2 ^ 64" by simp
  then have "unat (ucast v :: u64) = unat r"
    using eq by (simp add: unsigned_ucast_eq take_bit_eq_mod)
  then have "(ucast v :: u64) = r" by (rule unsigned_word_eqI)
  with lt show "try_u64 v = Some r" by (simp add: try_u64_def)
qed

lemma try_u64_None [checked_simps]: "try_u64 v = None \<longleftrightarrow> 2 ^ 64 \<le> unat v"
  by (auto simp: try_u64_def)

lemma unat_below: "LENGTH('a) \<le> n \<Longrightarrow> unat (x :: 'a::len word) < 2 ^ n"
proof -
  assume "LENGTH('a) \<le> n"
  then have "(2::nat) ^ LENGTH('a) \<le> 2 ^ n" by simp
  with unsigned_less [of x] show ?thesis by (rule order_less_le_trans)
qed

lemma unat_ucast_up:
  assumes "LENGTH('a) \<le> LENGTH('b)"
  shows "unat (ucast (x :: 'a::len word) :: 'b::len word) = unat x"
  using unat_below [OF assms, of x] by (simp add: unsigned_ucast_eq take_bit_nat_eq_self)

lemma unat_ucast_16_64 [simp]: "unat (ucast (x :: u16) :: u64) = unat x"
  and unat_ucast_64_128 [simp]: "unat (ucast (y :: u64) :: u128) = unat y"
  and unat_ucast_32_128 [simp]: "unat (ucast (z :: u32) :: u128) = unat z"
  and unat_ucast_8_128 [simp]: "unat (ucast (w :: u8) :: u128) = unat w"
  and unat_ucast_16_128 [simp]: "unat (ucast (x :: u16) :: u128) = unat x"
  and unat_ucast_16_32 [simp]: "unat (ucast (x :: u16) :: u32) = unat x"
  and unat_ucast_32_64 [simp]: "unat (ucast (z :: u32) :: u64) = unat z"
  and unat_ucast_64_256 [simp]: "unat (ucast (y :: u64) :: 256 word) = unat y"
  and unat_ucast_128_256 [simp]: "unat (ucast (v :: u128) :: 256 word) = unat v"
  by (rule unat_ucast_up, simp)+

lemma word_eq_unatI: "unat a = unat b \<Longrightarrow> a = b"
  by (rule unsigned_word_eqI)

text \<open>Every number below the bound is the value of a word.\<close>

lemma obtain_word: "n < 2 ^ LENGTH('a) \<Longrightarrow> \<exists>w :: 'a::len word. unat w = n"
  by (intro exI [of _ "word_of_nat n"]) (simp add: unsigned_of_nat take_bit_eq_mod)

lemma unat_lt_64 [simp]: "unat (x :: u64) < 18446744073709551616"
  using unsigned_less [of x] by simp

lemma unat_lt_32: "unat (x :: u32) < 2 ^ 32"
  using unsigned_less [of x, where 'a = nat] by simp

lemma u64_le_max: "unat (x :: u64) \<le> 18446744073709551615"
  using unat_lt_64 [of x] by (simp del: unat_lt_64)

lemma unat_lt_128 [simp]: "unat (x :: u128) < 340282366920938463463374607431768211456"
  using unsigned_less [of x] by simp

lemma eq_u64_max_iff: "(x :: u64) = u64_max \<longleftrightarrow> unat x = 18446744073709551615"
proof
  assume "unat x = 18446744073709551615"
  then have "unat x = unat u64_max" by (simp add: unat_minus_one)
  then show "x = u64_max" by (rule unsigned_word_eqI)
qed (simp add: unat_minus_one)

section \<open>Slices and little-endian bytes\<close>

text \<open>\<open>data[i]\<close> and \<open>data[a..b]\<close> panic out of range; \<open>data.get(..)\<close> returns \<open>None\<close>.\<close>

definition index_at :: "'a list \<Rightarrow> nat \<Rightarrow> ('e, 'a) outcome" where
  "index_at xs i = (if i < length xs then Ok (xs ! i) else Panic)"

definition get_slice :: "'a list \<Rightarrow> nat \<Rightarrow> nat \<Rightarrow> 'a list option" where
  "get_slice xs a b =
     (if a \<le> b \<and> b \<le> length xs then Some (take (b - a) (drop a xs)) else None)"

definition slice :: "'a list \<Rightarrow> nat \<Rightarrow> nat \<Rightarrow> ('e, 'a list) outcome" where
  "slice xs a b = or_panic (get_slice xs a b)"

definition get_at :: "'a list \<Rightarrow> nat \<Rightarrow> 'a option" where
  "get_at xs i = (if i < length xs then Some (xs ! i) else None)"

lemma index_at_eq_Panic [simp]: "index_at xs i = Panic \<longleftrightarrow> length xs \<le> i"
  by (simp add: index_at_def not_less)

lemma index_at_eq_Ok: "index_at xs i = Ok x \<longleftrightarrow> i < length xs \<and> x = xs ! i"
  by (auto simp: index_at_def)

lemma slice_eq_Panic [simp]: "slice xs a b = Panic \<longleftrightarrow> \<not> (a \<le> b \<and> b \<le> length xs)"
  by (simp add: slice_def get_slice_def)

lemma slice_eq_Ok [simp]:
  "slice xs a b = Ok ys \<longleftrightarrow> a \<le> b \<and> b \<le> length xs \<and> ys = take (b - a) (drop a xs)"
  by (auto simp: slice_def get_slice_def)

lemma get_slice_append3:
  "length xs = a \<Longrightarrow> b = a + length ys \<Longrightarrow> get_slice (xs @ ys @ zs) a b = Some ys"
  by (simp add: get_slice_def)

fun le_nat :: "u8 list \<Rightarrow> nat" where
  "le_nat [] = 0"
| "le_nat (b # bs) = unat b + 256 * le_nat bs"

definition from_le_bytes :: "u8 list \<Rightarrow> 'a::len word" where
  "from_le_bytes bs = word_of_nat (le_nat bs)"

fun le_bytes :: "nat \<Rightarrow> nat \<Rightarrow> u8 list" where
  "le_bytes 0 n = []"
| "le_bytes (Suc k) n = word_of_nat n # le_bytes k (n div 256)"

definition to_le_bytes :: "nat \<Rightarrow> 'a::len word \<Rightarrow> u8 list" where
  "to_le_bytes k w = le_bytes k (unat w)"

lemma length_le_bytes [simp]: "length (le_bytes k n) = k"
  by (induction k arbitrary: n) auto

lemma length_to_le_bytes [simp]: "length (to_le_bytes k w) = k"
  by (simp add: to_le_bytes_def)

lemma le_nat_le_bytes: "le_nat (le_bytes k n) = n mod 256 ^ k"
proof (induction k arbitrary: n)
  case (Suc k)
  have "le_nat (le_bytes (Suc k) n) = n mod 256 + 256 * (n div 256 mod 256 ^ k)"
    by (simp add: Suc unsigned_of_nat take_bit_eq_mod)
  also have "\<dots> = n mod (256 * 256 ^ k)"
    by (simp add: mod_mult2_eq)
  finally show ?case by simp
qed simp

lemma le_nat_zero [simp]: "le_nat (replicate k 0) = 0"
  by (induction k) simp_all

lemma from_le_bytes_zero [simp]: "from_le_bytes (replicate k 0) = 0"
  by (simp add: from_le_bytes_def)

lemma from_to_le_bytes:
  fixes w :: "'a::len word"
  assumes "LENGTH('a) = 8 * k"
  shows "from_le_bytes (to_le_bytes k w) = w"
proof -
  have "unat w < 2 ^ LENGTH('a)" by (rule unsigned_less)
  then have "unat w < 256 ^ k" by (simp add: assms power_mult)
  then show ?thesis
    by (simp add: from_le_bytes_def to_le_bytes_def le_nat_le_bytes)
qed

lemma le_bytes_inj:
  assumes "le_bytes k m = le_bytes k n" "m < 256 ^ k" "n < 256 ^ k"
  shows "m = n"
  using assms by (metis le_nat_le_bytes mod_less)

end
