(* ===== verification/Crates.thy ===== *)
theory Crates
  imports Prelude
begin

text \<open>
  What the program takes from outside its repository. A value of the record \<open>crates\<close> holds the
  operations of the third-party crates the code calls and the build profile; every definition
  that uses one of them takes the record as its argument \<open>E\<close>. An operator that can panic returns
  \<open>None\<close> for the panic, a checked operation returns \<open>None\<close> for its own \<open>None\<close>.

  The values themselves have the representation their types fix: \<open>uint::U256\<close> is four 64-bit
  limbs, that is a 256-bit word, \<open>fixed::U68F60\<close> is its 128 raw bits (value: bits / 2^60) ordered
  by the bits, \<open>fixed::I80F48\<close> is its 128 raw bits read as a signed integer (value: bits / 2^48),
  and a \<open>Pubkey\<close> is its 32 bytes.

  Three locales state the documented behaviour of the arithmetic that the proofs rely on
  (\<open>uint_laws\<close>, \<open>frac_laws\<close>, \<open>i80_laws\<close>); each is interpreted on \<open>std_crates\<close>, which
  computes exactly that behaviour.
\<close>

type_synonym bytes = "u8 list"
type_synonym pubkey = "bytes"
type_synonym u256 = "256 word"

abbreviation pubkey_default :: pubkey where
  "pubkey_default \<equiv> replicate 32 0"

section \<open>Fixed-point values\<close>

datatype fraction = Fraction (to_bits: u128)
datatype i80f48 = I80F48 (i_bits: u128)

abbreviation i_val :: "i80f48 \<Rightarrow> int" where
  "i_val x \<equiv> sint (i_bits x)"

instantiation fraction :: linorder
begin

definition less_eq_fraction :: "fraction \<Rightarrow> fraction \<Rightarrow> bool" where
  "less_eq_fraction a b \<longleftrightarrow> to_bits a \<le> to_bits b"

definition less_fraction :: "fraction \<Rightarrow> fraction \<Rightarrow> bool" where
  "less_fraction a b \<longleftrightarrow> to_bits a < to_bits b"

instance
  by standard (auto simp: less_eq_fraction_def less_fraction_def fraction.expand)

end

lemma i_val_inject [simp]: "i_val a = i_val b \<longleftrightarrow> a = b"
  by (cases a; cases b) (auto dest: signed_word_eqI)

instantiation i80f48 :: linorder
begin

definition less_eq_i80f48 :: "i80f48 \<Rightarrow> i80f48 \<Rightarrow> bool" where
  "less_eq_i80f48 a b \<longleftrightarrow> i_val a \<le> i_val b"

definition less_i80f48 :: "i80f48 \<Rightarrow> i80f48 \<Rightarrow> bool" where
  "less_i80f48 a b \<longleftrightarrow> i_val a < i_val b"

instance
  by standard (auto simp: less_eq_i80f48_def less_i80f48_def)

end

abbreviation frac_zero :: fraction where "frac_zero \<equiv> Fraction 0"
abbreviation frac_one :: fraction where "frac_one \<equiv> Fraction (2 ^ 60)"
abbreviation i80_zero :: i80f48 where "i80_zero \<equiv> I80F48 0"
abbreviation i80_one :: i80f48 where "i80_one \<equiv> I80F48 (2 ^ 48)"

lemma le_fraction_unat: "a \<le> b \<longleftrightarrow> unat (to_bits a) \<le> unat (to_bits b)"
  and less_fraction_unat: "a < b \<longleftrightarrow> unat (to_bits a) < unat (to_bits b)"
  by (simp_all add: less_eq_fraction_def less_fraction_def word_le_nat_alt word_less_nat_alt)

text \<open>
  Conversions that the representation fixes: \<open>u128::try_from(x)\<close> of a \<open>U256\<close> keeps the value where it
  fits, \<open>x.low_u64()\<close> keeps the low 64 bits.
\<close>

definition u256_try_u128 :: "u256 \<Rightarrow> u128 option" where
  "u256_try_u128 v = (if unat v < 2 ^ 128 then Some (ucast v) else None)"

definition u256_low_u64 :: "u256 \<Rightarrow> u64" where
  "u256_low_u64 v = ucast v"

lemma u256_try_u128_Some [checked_simps]: "u256_try_u128 v = Some r \<longleftrightarrow> unat r = unat v"
proof
  assume "u256_try_u128 v = Some r"
  then show "unat r = unat v"
    by (auto simp: u256_try_u128_def unsigned_ucast_eq take_bit_eq_mod split: if_splits)
next
  assume eq: "unat r = unat v"
  have "unat r < 2 ^ LENGTH(128)" by (rule unsigned_less)
  with eq have lt: "unat v < 2 ^ 128" by simp
  then have "unat (ucast v :: u128) = unat r"
    using eq by (simp add: unsigned_ucast_eq take_bit_eq_mod)
  then have "(ucast v :: u128) = r" by (rule unsigned_word_eqI)
  with lt show "u256_try_u128 v = Some r" by (simp add: u256_try_u128_def)
qed

lemma u256_try_u128_None [checked_simps]: "u256_try_u128 v = None \<longleftrightarrow> 2 ^ 128 \<le> unat v"
  by (auto simp: u256_try_u128_def)

section \<open>The operations taken from other crates\<close>

text \<open>What \<open>TokenInfo::new\<close> reads of an unpacked mint: decimals and, per epoch, the fee.\<close>

record mint_view =
  mint_decimals :: u8
  mint_fee_config :: "(u64 \<Rightarrow> u16 \<times> u64) option"

record crates =
  overflow_checks :: bool
  u256_add :: "u256 \<Rightarrow> u256 \<Rightarrow> u256 option"
  u256_sub :: "u256 \<Rightarrow> u256 \<Rightarrow> u256 option"
  u256_mul :: "u256 \<Rightarrow> u256 \<Rightarrow> u256 option"
  u256_div :: "u256 \<Rightarrow> u256 \<Rightarrow> u256 option"
  u256_checked_add :: "u256 \<Rightarrow> u256 \<Rightarrow> u256 option"
  u256_checked_mul :: "u256 \<Rightarrow> u256 \<Rightarrow> u256 option"
  u256_checked_div :: "u256 \<Rightarrow> u256 \<Rightarrow> u256 option"
  u256_shl :: "u256 \<Rightarrow> nat \<Rightarrow> u256"
  u256_shr :: "u256 \<Rightarrow> nat \<Rightarrow> u256"
  fr_from_num :: "u128 \<Rightarrow> fraction option"
  fr_add :: "fraction \<Rightarrow> fraction \<Rightarrow> fraction option"
  fr_sub :: "fraction \<Rightarrow> fraction \<Rightarrow> fraction option"
  fr_mul :: "fraction \<Rightarrow> fraction \<Rightarrow> fraction option"
  fr_div :: "fraction \<Rightarrow> fraction \<Rightarrow> fraction option"
  fr_mul_int :: "fraction \<Rightarrow> u128 \<Rightarrow> fraction option"
  fr_div_int :: "fraction \<Rightarrow> u128 \<Rightarrow> fraction option"
  fr_floor :: "fraction \<Rightarrow> fraction option"
  fr_ceil :: "fraction \<Rightarrow> fraction option"
  fr_round :: "fraction \<Rightarrow> fraction option"
  fr_frac :: "fraction \<Rightarrow> fraction"
  fr_to_u128 :: "fraction \<Rightarrow> u128"
  fr_to_u64 :: "fraction \<Rightarrow> u64 option"
  fr_to_u32 :: "fraction \<Rightarrow> u32 option"
  ix_from_num :: "int \<Rightarrow> i80f48 option"
  ix_add :: "i80f48 \<Rightarrow> i80f48 \<Rightarrow> i80f48 option"
  ix_sub :: "i80f48 \<Rightarrow> i80f48 \<Rightarrow> i80f48 option"
  ix_mul :: "i80f48 \<Rightarrow> i80f48 \<Rightarrow> i80f48 option"
  ix_div :: "i80f48 \<Rightarrow> i80f48 \<Rightarrow> i80f48 option"
  ix_checked_add :: "i80f48 \<Rightarrow> i80f48 \<Rightarrow> i80f48 option"
  ix_checked_sub :: "i80f48 \<Rightarrow> i80f48 \<Rightarrow> i80f48 option"
  ix_checked_mul :: "i80f48 \<Rightarrow> i80f48 \<Rightarrow> i80f48 option"
  ix_checked_div :: "i80f48 \<Rightarrow> i80f48 \<Rightarrow> i80f48 option"
  ix_floor :: "i80f48 \<Rightarrow> i80f48 option"
  ix_checked_to_u64 :: "i80f48 \<Rightarrow> u64 option"
  find_program_address :: "bytes list \<Rightarrow> pubkey \<Rightarrow> pubkey option"
  from_str_const :: "string \<Rightarrow> pubkey"
  spl_token_id :: pubkey
  spl_token_2022_id :: pubkey
  unpack_mint :: "bytes \<Rightarrow> mint_view option"
  get_associated_token_address_with_program_id :: "pubkey \<Rightarrow> pubkey \<Rightarrow> pubkey \<Rightarrow> pubkey"

section \<open>Documented behaviour\<close>

text \<open>\<open>uint\<close>: the operators panic exactly where the checked operations return \<open>None\<close>.\<close>

locale uint_laws =
  fixes E :: crates
  assumes add: "u256_add E a b = checked_add a b"
    and sub: "u256_sub E a b = checked_sub a b"
    and mul: "u256_mul E a b = checked_mul a b"
    and div: "u256_div E a b = checked_div a b"
    and chk_add: "u256_checked_add E a b = checked_add a b"
    and chk_mul: "u256_checked_mul E a b = checked_mul a b"
    and chk_div: "u256_checked_div E a b = checked_div a b"
    and shl: "u256_shl E a n = push_bit n a"
    and shr: "u256_shr E a n = drop_bit n a"
begin

lemmas u256_laws = add sub mul div chk_add chk_mul chk_div shl shr

end

text \<open>
  \<open>fixed::U68F60\<close>: each operation is exact up to the documented rounding where its result fits;
  what it does on an overflow (panic or wrap, by build profile) is left open.
\<close>

locale frac_laws =
  fixes E :: crates
  assumes from_num: "unat b = unat n * 2 ^ 60 \<Longrightarrow> fr_from_num E n = Some (Fraction b)"
    and add: "unat c = unat a + unat b \<Longrightarrow> fr_add E (Fraction a) (Fraction b) = Some (Fraction c)"
    and sub: "unat a = unat b + unat c \<Longrightarrow> fr_sub E (Fraction a) (Fraction b) = Some (Fraction c)"
    and mul: "unat c = unat a * unat b div 2 ^ 60 \<Longrightarrow>
      fr_mul E (Fraction a) (Fraction b) = Some (Fraction c)"
    and div: "b \<noteq> 0 \<Longrightarrow> unat c = unat a * 2 ^ 60 div unat b \<Longrightarrow>
      fr_div E (Fraction a) (Fraction b) = Some (Fraction c)"
    and mul_int: "unat c = unat a * unat n \<Longrightarrow> fr_mul_int E (Fraction a) n = Some (Fraction c)"
    and div_int: "n \<noteq> 0 \<Longrightarrow> fr_div_int E (Fraction a) n = Some (Fraction (a div n))"
    and floor: "unat c = unat a div 2 ^ 60 * 2 ^ 60 \<Longrightarrow> fr_floor E (Fraction a) = Some (Fraction c)"
    and ceil: "unat c = (unat a + 2 ^ 60 - 1) div 2 ^ 60 * 2 ^ 60 \<Longrightarrow>
      fr_ceil E (Fraction a) = Some (Fraction c)"
    and round: "unat c = (unat a + 2 ^ 59) div 2 ^ 60 * 2 ^ 60 \<Longrightarrow>
      fr_round E (Fraction a) = Some (Fraction c)"
    and frac: "fr_frac E (Fraction a) = Fraction (a mod 2 ^ 60)"
    and to_u128: "fr_to_u128 E (Fraction a) = a div 2 ^ 60"
    and to_u64: "unat r = unat a div 2 ^ 60 \<Longrightarrow> fr_to_u64 E (Fraction a) = Some r"
    and to_u32: "unat q = unat a div 2 ^ 60 \<Longrightarrow> fr_to_u32 E (Fraction a) = Some q"
begin

lemma floor_total: "\<exists>c. fr_floor E (Fraction a) = Some (Fraction c) \<and>
    unat c = unat a div 2 ^ 60 * 2 ^ 60"
proof -
  have "unat a div 2 ^ 60 * 2 ^ 60 \<le> unat a" by simp
  then have "unat (word_of_nat (unat a div 2 ^ 60 * 2 ^ 60) :: u128) = unat a div 2 ^ 60 * 2 ^ 60"
    by (rule le_unat_uoi)
  then show ?thesis using floor by blast
qed

lemma unat_floor_to_u128:
  "fr_floor E f = Some g \<Longrightarrow> unat (fr_to_u128 E g) = unat (to_bits f) div 2 ^ 60"
  using floor_total [of "to_bits f"] by (auto simp: to_u128 unat_div)

end

text \<open>
  \<open>fixed::I80F48\<close>: the checked operations return \<open>None\<close> exactly when the result does not fit.
  Products and quotients are specified for operands that are not negative, where the crate's
  rounding (dropping the extra fraction bits) is a floor.
\<close>

locale i80_laws =
  fixes E :: crates
  assumes from_num: "i_val c = n * 2 ^ 48 \<Longrightarrow> ix_from_num E n = Some c"
    and op_add: "i_val c = i_val a + i_val b \<Longrightarrow> ix_add E a b = Some c"
    and op_sub: "i_val c = i_val a - i_val b \<Longrightarrow> ix_sub E a b = Some c"
    and op_mul: "0 \<le> i_val a \<Longrightarrow> 0 \<le> i_val b \<Longrightarrow> i_val c = i_val a * i_val b div 2 ^ 48 \<Longrightarrow>
      ix_mul E a b = Some c"
    and op_div: "0 \<le> i_val a \<Longrightarrow> 0 < i_val b \<Longrightarrow> i_val c = i_val a * 2 ^ 48 div i_val b \<Longrightarrow>
      ix_div E a b = Some c"
    and chk_add: "ix_checked_add E a b = Some c \<longleftrightarrow> i_val c = i_val a + i_val b"
    and chk_sub: "ix_checked_sub E a b = Some c \<longleftrightarrow> i_val c = i_val a - i_val b"
    and chk_mul: "0 \<le> i_val a \<Longrightarrow> 0 \<le> i_val b \<Longrightarrow>
      ix_checked_mul E a b = Some c \<longleftrightarrow> i_val c = i_val a * i_val b div 2 ^ 48"
    and chk_div: "0 \<le> i_val a \<Longrightarrow> 0 < i_val b \<Longrightarrow>
      ix_checked_div E a b = Some c \<longleftrightarrow> i_val c = i_val a * 2 ^ 48 div i_val b"
    and chk_div_zero: "i_val b = 0 \<Longrightarrow> ix_checked_div E a b = None"
    and floor: "ix_floor E a = Some c \<Longrightarrow> 0 \<le> i_val a \<Longrightarrow> i_val c = i_val a div 2 ^ 48 * 2 ^ 48"
    and floor_total: "0 \<le> i_val a \<Longrightarrow> ix_floor E a \<noteq> None"
    and to_u64: "0 \<le> i_val a \<Longrightarrow> ix_checked_to_u64 E a = Some r \<longleftrightarrow> int (unat r) = i_val a div 2 ^ 48"

section \<open>A concrete instance\<close>

definition fits :: "int \<Rightarrow> bool" where
  "fits n \<longleftrightarrow> - (2 ^ 127) \<le> n \<and> n < 2 ^ 127"

definition i80_of :: "int \<Rightarrow> i80f48 option" where
  "i80_of n = (if fits n then Some (I80F48 (word_of_int n)) else None)"

definition frac_of :: "nat \<Rightarrow> fraction option" where
  "frac_of n = (if n < 2 ^ 128 then Some (Fraction (word_of_nat n)) else None)"

definition std_crates :: crates where
  "std_crates = \<lparr> overflow_checks = True,
     u256_add = checked_add, u256_sub = checked_sub, u256_mul = checked_mul,
     u256_div = checked_div, u256_checked_add = checked_add, u256_checked_mul = checked_mul,
     u256_checked_div = checked_div,
     u256_shl = (\<lambda>a n. push_bit n a), u256_shr = (\<lambda>a n. drop_bit n a),
     fr_from_num = (\<lambda>n. frac_of (unat n * 2 ^ 60)),
     fr_add = (\<lambda>a b. frac_of (unat (to_bits a) + unat (to_bits b))),
     fr_sub = (\<lambda>a b. if to_bits b \<le> to_bits a then Some (Fraction (to_bits a - to_bits b)) else None),
     fr_mul = (\<lambda>a b. frac_of (unat (to_bits a) * unat (to_bits b) div 2 ^ 60)),
     fr_div = (\<lambda>a b. if to_bits b = 0 then None
                      else frac_of (unat (to_bits a) * 2 ^ 60 div unat (to_bits b))),
     fr_mul_int = (\<lambda>a n. frac_of (unat (to_bits a) * unat n)),
     fr_div_int = (\<lambda>a n. if n = 0 then None else Some (Fraction (to_bits a div n))),
     fr_floor = (\<lambda>a. frac_of (unat (to_bits a) div 2 ^ 60 * 2 ^ 60)),
     fr_ceil = (\<lambda>a. frac_of ((unat (to_bits a) + 2 ^ 60 - 1) div 2 ^ 60 * 2 ^ 60)),
     fr_round = (\<lambda>a. frac_of ((unat (to_bits a) + 2 ^ 59) div 2 ^ 60 * 2 ^ 60)),
     fr_frac = (\<lambda>a. Fraction (to_bits a mod 2 ^ 60)),
     fr_to_u128 = (\<lambda>a. to_bits a div 2 ^ 60),
     fr_to_u64 = (\<lambda>a. try_u64 (to_bits a div 2 ^ 60)),
     fr_to_u32 = (\<lambda>a. if unat (to_bits a) div 2 ^ 60 < 2 ^ 32
                      then Some (word_of_nat (unat (to_bits a) div 2 ^ 60)) else None),
     ix_from_num = (\<lambda>n. i80_of (n * 2 ^ 48)),
     ix_add = (\<lambda>a b. i80_of (i_val a + i_val b)),
     ix_sub = (\<lambda>a b. i80_of (i_val a - i_val b)),
     ix_mul = (\<lambda>a b. i80_of (i_val a * i_val b div 2 ^ 48)),
     ix_div = (\<lambda>a b. if i_val b = 0 then None else i80_of (i_val a * 2 ^ 48 div i_val b)),
     ix_checked_add = (\<lambda>a b. i80_of (i_val a + i_val b)),
     ix_checked_sub = (\<lambda>a b. i80_of (i_val a - i_val b)),
     ix_checked_mul = (\<lambda>a b. i80_of (i_val a * i_val b div 2 ^ 48)),
     ix_checked_div = (\<lambda>a b. if i_val b = 0 then None else i80_of (i_val a * 2 ^ 48 div i_val b)),
     ix_floor = (\<lambda>a. i80_of (i_val a div 2 ^ 48 * 2 ^ 48)),
     ix_checked_to_u64 = (\<lambda>a. if 0 \<le> i_val a \<and> i_val a div 2 ^ 48 < 2 ^ 64
                              then Some (word_of_int (i_val a div 2 ^ 48)) else None),
     find_program_address = (\<lambda>seeds p. Some (take 32 (concat seeds @ p))),
     from_str_const = (\<lambda>s. take 32 (map (\<lambda>c. of_char c) s @ replicate 32 0)),
     spl_token_id = replicate 31 0 @ [1], spl_token_2022_id = replicate 31 0 @ [2],
     unpack_mint = (\<lambda>d. if length d < 82 then None
                        else Some \<lparr> mint_decimals = d ! 44, mint_fee_config = None \<rparr>),
     get_associated_token_address_with_program_id = (\<lambda>w m p. w) \<rparr>"

text \<open>The operations of the instance, one equation each, for evaluation.\<close>

lemma std_ops:
  shows "overflow_checks std_crates = True"
  and "u256_add std_crates = checked_add"
  and "u256_sub std_crates = checked_sub"
  and "u256_mul std_crates = checked_mul"
  and "u256_div std_crates = checked_div"
  and "u256_checked_add std_crates = checked_add"
  and "u256_checked_mul std_crates = checked_mul"
  and "u256_checked_div std_crates = checked_div"
  and "u256_shl std_crates = (\<lambda>a n. push_bit n a)"
  and "u256_shr std_crates = (\<lambda>a n. drop_bit n a)"
  and "fr_from_num std_crates = (\<lambda>n. frac_of (unat n * 2 ^ 60))"
  and "fr_add std_crates = (\<lambda>a b. frac_of (unat (to_bits a) + unat (to_bits b)))"
  and "fr_sub std_crates = (\<lambda>a b. if to_bits b \<le> to_bits a then Some (Fraction (to_bits a - to_bits b)) else None)"
  and "fr_mul std_crates = (\<lambda>a b. frac_of (unat (to_bits a) * unat (to_bits b) div 2 ^ 60))"
  and "fr_div std_crates = (\<lambda>a b. if to_bits b = 0 then None else frac_of (unat (to_bits a) * 2 ^ 60 div unat (to_bits b)))"
  and "fr_mul_int std_crates = (\<lambda>a n. frac_of (unat (to_bits a) * unat n))"
  and "fr_div_int std_crates = (\<lambda>a n. if n = 0 then None else Some (Fraction (to_bits a div n)))"
  and "fr_floor std_crates = (\<lambda>a. frac_of (unat (to_bits a) div 2 ^ 60 * 2 ^ 60))"
  and "fr_ceil std_crates = (\<lambda>a. frac_of ((unat (to_bits a) + 2 ^ 60 - 1) div 2 ^ 60 * 2 ^ 60))"
  and "fr_round std_crates = (\<lambda>a. frac_of ((unat (to_bits a) + 2 ^ 59) div 2 ^ 60 * 2 ^ 60))"
  and "fr_frac std_crates = (\<lambda>a. Fraction (to_bits a mod 2 ^ 60))"
  and "fr_to_u128 std_crates = (\<lambda>a. to_bits a div 2 ^ 60)"
  and "fr_to_u64 std_crates = (\<lambda>a. try_u64 (to_bits a div 2 ^ 60))"
  and "fr_to_u32 std_crates = (\<lambda>a. if unat (to_bits a) div 2 ^ 60 < 2 ^ 32 then Some (word_of_nat (unat (to_bits a) div 2 ^ 60)) else None)"
  and "ix_from_num std_crates = (\<lambda>n. i80_of (n * 2 ^ 48))"
  and "ix_add std_crates = (\<lambda>a b. i80_of (i_val a + i_val b))"
  and "ix_sub std_crates = (\<lambda>a b. i80_of (i_val a - i_val b))"
  and "ix_mul std_crates = (\<lambda>a b. i80_of (i_val a * i_val b div 2 ^ 48))"
  and "ix_div std_crates = (\<lambda>a b. if i_val b = 0 then None else i80_of (i_val a * 2 ^ 48 div i_val b))"
  and "ix_checked_add std_crates = (\<lambda>a b. i80_of (i_val a + i_val b))"
  and "ix_checked_sub std_crates = (\<lambda>a b. i80_of (i_val a - i_val b))"
  and "ix_checked_mul std_crates = (\<lambda>a b. i80_of (i_val a * i_val b div 2 ^ 48))"
  and "ix_checked_div std_crates = (\<lambda>a b. if i_val b = 0 then None else i80_of (i_val a * 2 ^ 48 div i_val b))"
  and "ix_floor std_crates = (\<lambda>a. i80_of (i_val a div 2 ^ 48 * 2 ^ 48))"
  and "ix_checked_to_u64 std_crates = (\<lambda>a. if 0 \<le> i_val a \<and> i_val a div 2 ^ 48 < 2 ^ 64 then Some (word_of_int (i_val a div 2 ^ 48)) else None)"
  and "find_program_address std_crates = (\<lambda>seeds p. Some (take 32 (concat seeds @ p)))"
  and "from_str_const std_crates = (\<lambda>s. take 32 (map (\<lambda>c. of_char c) s @ replicate 32 0))"
  and "spl_token_id std_crates = replicate 31 0 @ [1]"
  and "spl_token_2022_id std_crates = replicate 31 0 @ [2]"
  and "unpack_mint std_crates = (\<lambda>d. if length d < 82 then None
        else Some \<lparr> mint_decimals = d ! 44, mint_fee_config = None \<rparr>)"
  and "get_associated_token_address_with_program_id std_crates = (\<lambda>w m p. w)"
  by (simp_all add: std_crates_def)

lemma frac_of_Some: "unat c = n \<Longrightarrow> frac_of n = Some (Fraction c)"
  using unsigned_less [of c] by (auto simp: frac_of_def)

lemma sint_fits: "fits (sint (b :: u128))"
  using sint_ge [of b] sint_lt [of b] by (simp add: fits_def)

lemma sint_word_of_int_fits: "fits n \<Longrightarrow> sint (word_of_int n :: u128) = n"
  by (simp add: fits_def signed_of_int signed_take_bit_int_eq_self)

lemma i80_of_Some: "i80_of n = Some c \<longleftrightarrow> i_val c = n"
proof
  assume "i80_of n = Some c"
  then show "i_val c = n"
    by (auto simp: i80_of_def sint_word_of_int_fits split: if_splits)
next
  assume eq: "i_val c = n"
  then have "fits n" using sint_fits by blast
  moreover have "I80F48 (word_of_int n) = c" using eq by (cases c) auto
  ultimately show "i80_of n = Some c" by (simp add: i80_of_def)
qed

interpretation std_uint: uint_laws std_crates
  by unfold_locales (simp_all add: std_crates_def)

interpretation std_frac: frac_laws std_crates
proof unfold_locales
  fix a b c n :: u128 and r :: u64 and q :: u32
  show "fr_from_num std_crates n = Some (Fraction b)" if "unat b = unat n * 2 ^ 60"
    using that by (simp add: std_crates_def frac_of_Some)
  show "fr_add std_crates (Fraction a) (Fraction b) = Some (Fraction c)"
    if "unat c = unat a + unat b"
    using that by (simp add: std_crates_def frac_of_Some)
  show "fr_sub std_crates (Fraction a) (Fraction b) = Some (Fraction c)"
    if "unat a = unat b + unat c"
    using that checked_sub_Some [of a b c] by (auto simp: std_crates_def checked_sub_def split: if_splits)
  show "fr_mul std_crates (Fraction a) (Fraction b) = Some (Fraction c)"
    if "unat c = unat a * unat b div 2 ^ 60"
    using that by (simp add: std_crates_def frac_of_Some)
  show "fr_div std_crates (Fraction a) (Fraction b) = Some (Fraction c)"
    if "b \<noteq> 0" "unat c = unat a * 2 ^ 60 div unat b"
    using that by (simp add: std_crates_def frac_of_Some)
  show "fr_mul_int std_crates (Fraction a) n = Some (Fraction c)" if "unat c = unat a * unat n"
    using that by (simp add: std_crates_def frac_of_Some)
  show "fr_div_int std_crates (Fraction a) n = Some (Fraction (a div n))" if "n \<noteq> 0"
    using that by (simp add: std_crates_def)
  show "fr_floor std_crates (Fraction a) = Some (Fraction c)"
    if "unat c = unat a div 2 ^ 60 * 2 ^ 60"
    using that by (simp add: std_crates_def frac_of_Some)
  show "fr_ceil std_crates (Fraction a) = Some (Fraction c)"
    if "unat c = (unat a + 2 ^ 60 - 1) div 2 ^ 60 * 2 ^ 60"
    using that by (simp add: std_crates_def frac_of_Some)
  show "fr_round std_crates (Fraction a) = Some (Fraction c)"
    if "unat c = (unat a + 2 ^ 59) div 2 ^ 60 * 2 ^ 60"
    using that by (simp add: std_crates_def frac_of_Some)
  show "fr_frac std_crates (Fraction a) = Fraction (a mod 2 ^ 60)"
    by (simp add: std_crates_def)
  show "fr_to_u128 std_crates (Fraction a) = a div 2 ^ 60"
    by (simp add: std_crates_def)
  show "fr_to_u64 std_crates (Fraction a) = Some r" if "unat r = unat a div 2 ^ 60"
    using that by (simp add: std_crates_def try_u64_Some unat_div)
  show "fr_to_u32 std_crates (Fraction a) = Some q" if "unat q = unat a div 2 ^ 60"
  proof -
    have "unat a div 1152921504606846976 = unat q" using that by simp
    moreover have "unat q < 2 ^ 32" using unsigned_less [of q, where 'a = nat] by simp
    ultimately show ?thesis by (simp add: std_crates_def)
  qed
qed

lemma int_unat_to_u64:
  "0 \<le> n \<Longrightarrow>
    (if 0 \<le> n \<and> n < 2 ^ 64 then Some (word_of_int n :: u64) else None) = Some r \<longleftrightarrow> int (unat r) = n"
  using unsigned_less [of r]
  by (auto simp: unsigned_of_int take_bit_int_eq_self)

interpretation std_i80: i80_laws std_crates
proof unfold_locales
  fix a b c :: i80f48 and n :: int and r :: u64
  show "ix_from_num std_crates n = Some c" if "i_val c = n * 2 ^ 48"
    using that by (simp add: std_crates_def i80_of_Some)
  show "ix_add std_crates a b = Some c" if "i_val c = i_val a + i_val b"
    using that by (simp add: std_crates_def i80_of_Some)
  show "ix_sub std_crates a b = Some c" if "i_val c = i_val a - i_val b"
    using that by (simp add: std_crates_def i80_of_Some)
  show "ix_mul std_crates a b = Some c" if "i_val c = i_val a * i_val b div 2 ^ 48"
    using that by (simp add: std_crates_def i80_of_Some)
  show "ix_div std_crates a b = Some c"
    if "0 < i_val b" "i_val c = i_val a * 2 ^ 48 div i_val b"
    using that by (simp add: std_crates_def i80_of_Some)
  show "ix_checked_add std_crates a b = Some c \<longleftrightarrow> i_val c = i_val a + i_val b"
    by (simp add: std_crates_def i80_of_Some)
  show "ix_checked_sub std_crates a b = Some c \<longleftrightarrow> i_val c = i_val a - i_val b"
    by (simp add: std_crates_def i80_of_Some)
  show "ix_checked_mul std_crates a b = Some c \<longleftrightarrow> i_val c = i_val a * i_val b div 2 ^ 48"
    if "0 \<le> i_val a" "0 \<le> i_val b"
    by (simp add: std_crates_def i80_of_Some)
  show "ix_checked_div std_crates a b = Some c \<longleftrightarrow> i_val c = i_val a * 2 ^ 48 div i_val b"
    if "0 \<le> i_val a" "0 < i_val b"
    using that by (simp add: std_crates_def i80_of_Some)
  show "ix_checked_div std_crates a b = None" if "i_val b = 0"
    using that by (simp add: std_crates_def)
  show "i_val c = i_val a div 2 ^ 48 * 2 ^ 48"
    if "ix_floor std_crates a = Some c" "0 \<le> i_val a"
    using that by (simp add: std_crates_def i80_of_Some)
  show "ix_floor std_crates a \<noteq> None" if "0 \<le> i_val a"
  proof -
    have "i_val a div 2 ^ 48 * 2 ^ 48 \<le> i_val a" by simp
    with that sint_fits [of "i_bits a"] show ?thesis
      by (auto simp: std_crates_def i80_of_def fits_def)
  qed
  show "ix_checked_to_u64 std_crates a = Some r \<longleftrightarrow> int (unat r) = i_val a div 2 ^ 48"
    if "0 \<le> i_val a"
    using that int_unat_to_u64 [of "i_val a div 2 ^ 48" r]
    by (simp add: std_crates_def pos_imp_zdiv_nonneg_iff)
qed

text \<open>A backend that uses both wide integers and fractions relies on both contracts.\<close>

locale num_laws = uint_laws E + fr: frac_laws E for E

interpretation std_num: num_laws std_crates
  by (rule num_laws.intro) unfold_locales

end
