(* ===== verification/Float64.thy ===== *)
theory Float64
  imports Prelude Complex_Main
begin

text \<open>
  The \<open>f64\<close> values of the price code: products and quotients of a few unsigned 64-bit integers and
  differences of such numbers from 1, so that a finite value met is zero or a normal number far from
  the ends of the range of exponents. A finite \<open>f64\<close> is the rational number it denotes, and an
  operation is the exact result rounded to 53 significant bits, ties to even (IEEE 754 double
  precision, Rust's rule for \<open>as f64\<close> and the arithmetic operators).
\<close>

type_synonym f64 = rat

fun lg :: "nat \<Rightarrow> nat" where
  "lg n = (if n < 2 then 0 else Suc (lg (n div 2)))"

declare lg.simps [simp del]

text \<open>The binary exponent of a positive rational: \<open>2 ^ e \<le> q < 2 ^ (e + 1)\<close>.\<close>

definition f64_exponent :: "rat \<Rightarrow> int" where
  "f64_exponent q =
     (let (n, d) = quotient_of q; e = int (lg (nat n)) - int (lg (nat d))
      in if q < 2 powi e then e - 1 else e)"

definition round_half_even :: "rat \<Rightarrow> int" where
  "round_half_even q =
     (let f = \<lfloor>q\<rfloor>; r = q - of_int f
      in if r < 1 / 2 then f else if 1 / 2 < r then f + 1 else if even f then f else f + 1)"

definition f64_round :: "rat \<Rightarrow> f64" where
  "f64_round q =
     (if q \<le> 0 then 0
      else let e = f64_exponent q - 52 in of_int (round_half_even (q / 2 powi e)) * 2 powi e)"

definition f64_of_u64 :: "u64 \<Rightarrow> f64" where
  "f64_of_u64 x = f64_round (of_nat (unat x))"

definition f64_div :: "f64 \<Rightarrow> f64 \<Rightarrow> f64" where
  "f64_div a b = f64_round (a / b)"

section \<open>The exponent\<close>

lemma lg_bounds: "0 < n \<Longrightarrow> 2 ^ lg n \<le> n \<and> n < 2 ^ Suc (lg n)"
proof (induction n rule: lg.induct)
  case (1 n)
  show ?case
  proof (cases "n < 2")
    case True
    with "1.prems" show ?thesis by (simp add: lg.simps [of n])
  next
    case False
    then have "2 ^ lg (n div 2) \<le> n div 2 \<and> n div 2 < 2 ^ Suc (lg (n div 2))"
      using "1.IH" by simp
    with False show ?thesis by (simp add: lg.simps [of n]) linarith
  qed
qed

lemma powi_diff_nat: "(2 :: rat) powi (int a - int b) = 2 ^ a / 2 ^ b"
  by (simp add: power_int_diff)

lemma f64_exponent_bounds:
  assumes "0 < q"
  shows "2 powi f64_exponent q \<le> q \<and> q < 2 powi (f64_exponent q + 1)"
proof -
  obtain n d where nd: "quotient_of q = (n, d)" by force
  have d: "0 < d" using quotient_of_denom_pos [OF nd] .
  have q: "q = of_int n / of_int d" using quotient_of_div [OF nd] .
  have n: "0 < n" using assms d q by (simp add: zero_less_divide_iff)
  define a where "a = lg (nat n)"
  define b where "b = lg (nat d)"
  define N where "N = (of_nat (nat n) :: rat)"
  define D where "D = (of_nat (nat d) :: rat)"
  have qND: "q = N / D" using q n d by (simp add: N_def D_def)
  have "2 ^ a \<le> nat n" "nat n < 2 ^ Suc a" "2 ^ b \<le> nat d" "nat d < 2 ^ Suc b"
    using lg_bounds [of "nat n"] lg_bounds [of "nat d"] n d by (auto simp: a_def b_def)
  then have N: "2 ^ a \<le> N" "N < 2 ^ Suc a" and D: "2 ^ b \<le> D" "D < 2 ^ Suc b"
    unfolding N_def D_def by (metis of_nat_le_iff of_nat_less_iff of_nat_numeral of_nat_power)+
  have pos: "(0 :: rat) < 2 ^ a" "(0 :: rat) < 2 ^ b" by simp_all
  have Dpos: "0 < D" using D pos by linarith
  have upper: "q < 2 powi (int a - int b + 1)"
  proof -
    have "N / D < 2 ^ Suc a / 2 ^ b"
      using N D Dpos pos by (intro frac_less) auto
    then show ?thesis by (simp add: qND power_int_add powi_diff_nat mult.commute)
  qed
  have lower: "2 powi (int a - int b - 1) \<le> q"
  proof -
    have "2 ^ a / 2 ^ Suc b \<le> N / D"
      using N D Dpos pos by (intro frac_le) auto
    then show ?thesis by (simp add: qND power_int_diff)
  qed
  show ?thesis
    using upper lower
    by (auto simp: f64_exponent_def nd Let_def a_def [symmetric] b_def [symmetric])
qed

section \<open>Rounding\<close>

lemma round_half_even_floor: "\<lfloor>q\<rfloor> \<le> round_half_even q \<and> round_half_even q \<le> \<lfloor>q\<rfloor> + 1"
  by (simp add: round_half_even_def Let_def)

lemma round_half_even_int [simp]: "round_half_even (of_int k) = k"
  by (simp add: round_half_even_def)

lemma round_half_even_mono:
  assumes "p \<le> q"
  shows "round_half_even p \<le> round_half_even q"
proof (cases "\<lfloor>p\<rfloor> = \<lfloor>q\<rfloor>")
  case True
  with assms show ?thesis by (auto simp: round_half_even_def Let_def)
next
  case False
  then have "\<lfloor>p\<rfloor> + 1 \<le> \<lfloor>q\<rfloor>" using floor_mono [OF assms] by linarith
  then show ?thesis
    using round_half_even_floor [of p] round_half_even_floor [of q] by linarith
qed

text \<open>A rounded value stays in the binade \<open>[2 ^ e, 2 ^ (e + 1)]\<close> of the exact one.\<close>

lemma f64_round_binade:
  assumes "0 < q"
  shows "2 powi f64_exponent q \<le> f64_round q \<and> f64_round q \<le> 2 powi (f64_exponent q + 1)"
proof -
  define e where "e = f64_exponent q"
  define u where "u = (2 :: rat) powi (e - 52)"
  have u: "0 < u" by (simp add: u_def)
  have lo: "(2 :: rat) powi e = 2 ^ 52 * u" and hi: "(2 :: rat) powi (e + 1) = 2 ^ 53 * u"
    by (simp_all add: u_def power_int_diff power_int_add)
  have b: "2 ^ 52 * u \<le> q" "q < 2 ^ 53 * u"
    using f64_exponent_bounds [OF assms] by (simp_all add: lo hi flip: e_def)
  then have "of_int (2 ^ 52) \<le> q / u" "q / u \<le> of_int (2 ^ 53)"
    using u by (simp_all add: pos_le_divide_eq pos_divide_le_eq)
  then have "2 ^ 52 \<le> round_half_even (q / u)" "round_half_even (q / u) \<le> 2 ^ 53"
    using round_half_even_mono round_half_even_int by metis+
  then have "(of_int (2 ^ 52) :: rat) \<le> of_int (round_half_even (q / u))"
    "of_int (round_half_even (q / u)) \<le> (of_int (2 ^ 53) :: rat)"
    by (simp_all only: of_int_le_iff)
  then have "2 ^ 52 * u \<le> of_int (round_half_even (q / u)) * u"
    "of_int (round_half_even (q / u)) * u \<le> 2 ^ 53 * u"
    using u by simp_all
  then show ?thesis
    using assms by (simp add: f64_round_def Let_def lo hi flip: e_def u_def)
qed

lemma f64_round_pos: "0 < q \<Longrightarrow> 0 < f64_round q"
  using f64_round_binade [of q] zero_less_power_int [of "2 :: rat" "f64_exponent q"] by linarith

lemma f64_round_mono:
  assumes "p \<le> q"
  shows "f64_round p \<le> f64_round q"
proof (cases "0 < p")
  case False
  then show ?thesis using f64_round_pos [of q] by (force simp: f64_round_def)
next
  case p: True
  with assms have q: "0 < q" by simp
  note ep = f64_exponent_bounds [OF p] and eq = f64_exponent_bounds [OF q]
  show ?thesis
  proof (cases "f64_exponent p = f64_exponent q")
    case True
    have "p / 2 powi (f64_exponent q - 52) \<le> q / 2 powi (f64_exponent q - 52)"
      using assms by (intro divide_right_mono) auto
    then have "round_half_even (p / 2 powi (f64_exponent q - 52))
        \<le> round_half_even (q / 2 powi (f64_exponent q - 52))"
      by (rule round_half_even_mono)
    with True p q show ?thesis by (simp add: f64_round_def Let_def)
  next
    case False
    have "\<not> f64_exponent q < f64_exponent p"
    proof
      assume "f64_exponent q < f64_exponent p"
      then have "(2 :: rat) powi (f64_exponent q + 1) \<le> 2 powi f64_exponent p"
        by (intro power_int_increasing) auto
      with ep eq assms show False by linarith
    qed
    with False have "(2 :: rat) powi (f64_exponent p + 1) \<le> 2 powi f64_exponent q"
      by (intro power_int_increasing) auto
    with f64_round_binade [OF p] f64_round_binade [OF q] show ?thesis by linarith
  qed
qed

lemma f64_of_u64_pos: "x \<noteq> 0 \<Longrightarrow> 0 < f64_of_u64 x"
  unfolding f64_of_u64_def by (rule f64_round_pos) (simp only: of_nat_0_less_iff unat_gt_0 not_False_eq_True)

lemma f64_of_u64_mono: "x \<le> y \<Longrightarrow> f64_of_u64 x \<le> f64_of_u64 y"
  unfolding f64_of_u64_def
  by (rule f64_round_mono) (simp only: of_nat_le_iff word_le_nat_alt)

lemma f64_div_pos: "0 < a \<Longrightarrow> 0 < b \<Longrightarrow> 0 < f64_div a b"
  by (simp add: f64_div_def f64_round_pos)

section \<open>Signed and special values\<close>

text \<open>
  The constant-product price subtracts, so its intermediate values can be negative, and it divides
  by a square that can be 0. Rounding is symmetric in the sign. All operands are products and
  quotients of a few 64-bit integers, far from the ends of the range of exponents, so only the
  final division can leave the finite values; its divisor is never a negative zero.
\<close>

datatype f64_value = F64 rat | F64_Infinity bool | F64_NaN

definition f64_sround :: "rat \<Rightarrow> f64" where
  "f64_sround q = (if q < 0 then - f64_round (- q) else f64_round q)"

definition f64_mul :: "f64 \<Rightarrow> f64 \<Rightarrow> f64" where
  "f64_mul a b = f64_sround (a * b)"

definition f64_add :: "f64 \<Rightarrow> f64 \<Rightarrow> f64" where
  "f64_add a b = f64_sround (a + b)"

definition f64_sub :: "f64 \<Rightarrow> f64 \<Rightarrow> f64" where
  "f64_sub a b = f64_sround (a - b)"

text \<open>The sign of an infinite quotient is that of the dividend (\<open>True\<close>: positive).\<close>

definition f64_quotient :: "f64 \<Rightarrow> f64 \<Rightarrow> f64_value" where
  "f64_quotient a b =
     (if b = 0 then if a = 0 then F64_NaN else F64_Infinity (0 < a) else F64 (f64_sround (a / b)))"

lemma f64_round_zero [simp]: "f64_round 0 = 0"
  by (simp add: f64_round_def)

lemma f64_round_nonneg: "0 \<le> f64_round q"
  using f64_round_pos [of q] by (cases "0 < q") (auto simp: f64_round_def)

lemma f64_round_one [simp]: "f64_round 1 = 1"
proof -
  have "f64_exponent 1 = 0" by (simp add: f64_exponent_def lg.simps)
  then show ?thesis using round_half_even_int [of "2 ^ 52"] by (simp add: f64_round_def power_int_minus)
qed

lemma f64_sround_mono: "p \<le> q \<Longrightarrow> f64_sround p \<le> f64_sround q"
  using f64_round_mono [of p q] f64_round_mono [of "- q" "- p"] f64_round_nonneg [of q]
    f64_round_nonneg [of "- p"]
  by (auto simp: f64_sround_def)

lemma f64_sround_nonneg: "0 \<le> q \<Longrightarrow> 0 \<le> f64_sround q"
  by (simp add: f64_sround_def f64_round_nonneg)

lemma f64_sround_pos: "0 < q \<Longrightarrow> 0 < f64_sround q"
  by (simp add: f64_sround_def f64_round_pos)

end
