(* ===== verification/Venue_Core.thy ===== *)
theory Venue_Core
  imports Crates Float64
begin

text \<open>
  The data every venue shares, from \<open>src/src/trading_venue/\<close>: the error types (\<open>error.rs\<close>, and
  \<open>AccountCacheError\<close> of \<open>account_caching/mod.rs\<close>), the protocol enumeration (\<open>protocol.rs\<close>), token
  metadata (\<open>token_info.rs\<close>), the pool-creation records (\<open>venue_creation.rs\<close>), and the request
  and result of a quote with the default methods of the trait \<open>TradingVenue\<close> (\<open>mod.rs\<close>).
\<close>

section \<open>Errors\<close>

datatype error_info = EPubkey pubkey | EString string | EStaticStr string

text \<open>\<open>Display\<close>: a key is shown by the formatter of its crate.\<close>

fun error_info_fmt :: "(pubkey \<Rightarrow> string) \<Rightarrow> error_info \<Rightarrow> string" where
  "error_info_fmt pubkey_to_string (EPubkey pubkey) = pubkey_to_string pubkey"
| "error_info_fmt pubkey_to_string (EString string) = string"
| "error_info_fmt pubkey_to_string (EStaticStr string) = string"

datatype account_cache_error =
    FailedToFetchAccount string
  | FailedToAcquireWriteLock
  | FailedToAcquireReadLock

datatype pool_protocol = Overpass | RaydiumAMM

fun pool_protocol_name :: "pool_protocol \<Rightarrow> string" where
  "pool_protocol_name Overpass = ''Overpass''"
| "pool_protocol_name RaydiumAMM = ''RaydiumAMM''"

datatype tv_error =
    NoAccountFound error_info
  | FromAccountError error_info
  | FailedToFetchMultipleAccountData
  | FailedToFetchAccountData error_info
  | DeserializationFailed error_info
  | CacheUnlockFailed
  | NotInitialized error_info
  | MissingState error_info
  | InvalidMint error_info
  | CheckedMathError error_info
  | AmmMethodError error_info
  | ExactOutNotSupported
  | DataConversionError error_info
  | BoundarySearchFailed error_info
  | NoQuotableValue error_info
  | SomethingWentWrong string
  | UnsupportedVenue error_info
  | TokenInfoIndexError nat
  | MathError error_info
  | DeserializationError error_info
  | InactivePoolError pubkey pool_protocol
  | AccountCacheError account_cache_error

type_synonym 'a vres = "(tv_error, 'a) outcome"

abbreviation math_err :: "string \<Rightarrow> tv_error" where
  "math_err s \<equiv> MathError (EStaticStr s)"

abbreviation deser_err :: "string \<Rightarrow> tv_error" where
  "deser_err s \<equiv> DeserializationError (EStaticStr s)"

section \<open>Accounts and instructions\<close>

text \<open>
  The fields of \<open>solana_account::Account\<close> the code reads, and the structs of
  \<open>solana_instruction\<close> it builds; \<open>AccountMeta::new\<close> is the writable meta,
  \<open>AccountMeta::new_readonly\<close> the read-only one.
\<close>

record account =
  acc_data :: bytes
  acc_owner :: pubkey

record account_meta =
  am_pubkey :: pubkey
  am_is_signer :: bool
  am_is_writable :: bool

abbreviation meta_new :: "pubkey \<Rightarrow> bool \<Rightarrow> account_meta" where
  "meta_new k s \<equiv> \<lparr> am_pubkey = k, am_is_signer = s, am_is_writable = True \<rparr>"

abbreviation meta_new_readonly :: "pubkey \<Rightarrow> bool \<Rightarrow> account_meta" where
  "meta_new_readonly k s \<equiv> \<lparr> am_pubkey = k, am_is_signer = s, am_is_writable = False \<rparr>"

record instruction =
  ix_program_id :: pubkey
  ix_accounts :: "account_meta list"
  ix_data :: bytes

section \<open>Token metadata\<close>

record token_info =
  ti_pubkey :: pubkey
  ti_decimals :: int
  ti_is_token_2022 :: bool
  ti_transfer_fee :: "u16 option"
  ti_maximum_fee :: "u64 option"

definition token_info_default :: token_info where
  "token_info_default = \<lparr> ti_pubkey = pubkey_default, ti_decimals = 0, ti_is_token_2022 = False,
     ti_transfer_fee = None, ti_maximum_fee = None \<rparr>"

definition token_info_new :: "crates \<Rightarrow> pubkey \<Rightarrow> account \<Rightarrow> u64 \<Rightarrow> token_info vres" where
  "token_info_new E pk acc epoch =
     (case unpack_mint E (acc_data acc) of
        None \<Rightarrow> Err (DeserializationFailed (EPubkey pk))
      | Some mint \<Rightarrow>
          let (transfer_fee, maximum_fee) =
            (case mint_fee_config mint of
               Some get_epoch_fee \<Rightarrow>
                 let (bps, max_fee) = get_epoch_fee epoch in (Some bps, Some max_fee)
             | None \<Rightarrow> (None, None))
          in Ok \<lparr> ti_pubkey = pk, ti_decimals = uint (mint_decimals mint),
                  ti_is_token_2022 = (acc_owner acc = spl_token_2022_id E),
                  ti_transfer_fee = transfer_fee, ti_maximum_fee = maximum_fee \<rparr>)"

definition get_token_program :: "crates \<Rightarrow> token_info \<Rightarrow> pubkey" where
  "get_token_program E ti = (if ti_is_token_2022 ti then spl_token_2022_id E else spl_token_id E)"

definition get_associated_token_address :: "crates \<Rightarrow> token_info \<Rightarrow> pubkey \<Rightarrow> pubkey" where
  "get_associated_token_address E ti wallet =
     get_associated_token_address_with_program_id E wallet (ti_pubkey ti) (get_token_program E ti)"

section \<open>Pool creation\<close>

record parsed_instruction =
  pi_program_id :: pubkey
  pi_accounts :: "pubkey list"
  pi_data :: bytes

record pool_creation =
  pc_protocol :: pool_protocol
  pc_pool :: pubkey
  pc_mints :: "pubkey list"

section \<open>Quotes\<close>

datatype swap_type = ExactIn | ExactOut

record quote_request =
  rq_input_mint :: pubkey
  rq_output_mint :: pubkey
  rq_amount :: u64
  rq_swap_type :: swap_type

text \<open>
  The price of a result is an \<open>f64\<close>. The type of its values is a parameter: the rational numbers
  where only finite prices occur (\<open>Prices\<close>), \<open>f64_value\<close> where a price can be infinite or no number
  (\<open>Raydium\<close>).
\<close>

record 'p quote_result =
  qr_input_mint :: pubkey
  qr_output_mint :: pubkey
  qr_amount :: u64
  qr_expected_output :: u64
  qr_not_enough_liquidity :: bool
  qr_price :: 'p

section \<open>Default methods of \<open>TradingVenue\<close>\<close>

definition tradable_mints :: "token_info list \<Rightarrow> pubkey list vres" where
  "tradable_mints tis = Ok (map ti_pubkey tis)"

definition venue_decimals :: "token_info list \<Rightarrow> int list vres" where
  "venue_decimals tis = Ok (map ti_decimals tis)"

definition default_directions_num :: "token_info list \<Rightarrow> (u8 \<times> u8) list" where
  "default_directions_num tis =
     (let indices = map word_of_nat (filter (\<lambda>i. i < 256) [0..<length tis])
      in concat (map (\<lambda>i. map (\<lambda>j. (i, j)) (filter (\<lambda>j. j \<noteq> i) indices)) indices))"

definition venue_label :: "pool_protocol \<Rightarrow> string" where
  "venue_label protocol = pool_protocol_name protocol"

definition get_token :: "token_info list \<Rightarrow> nat \<Rightarrow> token_info vres" where
  "get_token tis i = ok_or (get_at tis i) (TokenInfoIndexError i)"

lemma get_token_no_panic [no_panic]: "get_token tis i \<noteq> Panic"
  by (simp add: get_token_def)

lemma token_info_new_no_panic [no_panic]: "token_info_new E pk acc ep \<noteq> Panic"
  by (auto simp: token_info_new_def Let_def split: option.splits prod.splits)

text \<open>The default direction list: every ordered pair of distinct token indices, each once.\<close>

lemma u8_index_mem:
  "(x :: u8) \<in> set (map word_of_nat (filter (\<lambda>i. i < 256) [0..<n])) \<longleftrightarrow> unat x < n"
proof
  assume "x \<in> set (map word_of_nat (filter (\<lambda>i. i < 256) [0..<n]))"
  then show "unat x < n" by (auto simp: unsigned_of_nat take_bit_eq_mod)
next
  assume "unat x < n"
  moreover have "unat x < 256" using unsigned_less [of x, where 'a = nat] by simp
  ultimately show "x \<in> set (map word_of_nat (filter (\<lambda>i. i < 256) [0..<n]))"
    by (auto intro!: image_eqI [of _ _ "unat x"])
qed

lemma distinct_u8_indices:
  "distinct (map (word_of_nat :: nat \<Rightarrow> u8) (filter (\<lambda>i. i < 256) [0..<n]))"
proof -
  have "inj_on (word_of_nat :: nat \<Rightarrow> u8) {i. i < 256}"
  proof (rule inj_onI)
    fix x y :: nat
    assume "x \<in> {i. i < 256}" "y \<in> {i. i < 256}" and eq: "(word_of_nat x :: u8) = word_of_nat y"
    then have "x < 256" "y < 256" by simp_all
    moreover have "unat (word_of_nat x :: u8) = unat (word_of_nat y :: u8)" using eq by simp
    ultimately show "x = y" by (simp add: unsigned_of_nat take_bit_eq_mod)
  qed
  then show ?thesis
    by (simp add: distinct_map inj_on_subset [of _ "{i. i < 256}"] subset_iff)
qed

lemma default_directions_num_mem:
  "(i, j) \<in> set (default_directions_num tis) \<longleftrightarrow>
     unat i < length tis \<and> unat j < length tis \<and> i \<noteq> j"
proof -
  define ind where "ind = map (word_of_nat :: nat \<Rightarrow> u8) (filter (\<lambda>i. i < 256) [0..<length tis])"
  have "(i, j) \<in> set (default_directions_num tis) \<longleftrightarrow> i \<in> set ind \<and> j \<in> set ind \<and> i \<noteq> j"
    unfolding default_directions_num_def Let_def ind_def [symmetric] by auto
  then show ?thesis by (simp add: ind_def u8_index_mem del: set_map set_filter)
qed

lemma distinct_pairs:
  "distinct xs \<Longrightarrow> distinct ys \<Longrightarrow>
   distinct (concat (map (\<lambda>i. map (\<lambda>j. (i, j)) (filter (\<lambda>j. j \<noteq> i) ys)) xs))"
  by (induction xs) (auto simp: distinct_map inj_on_def)

lemma distinct_default_directions_num: "distinct (default_directions_num tis)"
  unfolding default_directions_num_def Let_def
  by (rule distinct_pairs) (rule distinct_u8_indices)+

text \<open>
  The default \<open>directions_num\<close> lists every ordered pair of distinct token indices below the
  number of tokens, and lists none of them twice.
\<close>

theorem default_directions_complete:
  "distinct (default_directions_num tis) \<and>
   set (default_directions_num tis) =
     {(i, j). unat i < length tis \<and> unat j < length tis \<and> i \<noteq> j}"
  using default_directions_num_mem [of _ _ tis] distinct_default_directions_num [of tis] by auto

end
