(* ===== verification/Common.thy ===== *)
theory Common
  imports Venue_Core
begin

text \<open>
  What the protocol backends share, from \<open>src/src/your_venue/common/\<close> (byte readers, checked
  arithmetic, swap direction, program ids) and \<open>src/src/your_venue/state.rs\<close> (the wrapper vault and
  the global configuration and their decoders), and the account fetch of
  \<open>account_caching/mod.rs\<close>, of which a backend only knows that it takes keys and returns accounts.
\<close>

section \<open>Byte readers (\<open>common/bytes.rs\<close>)\<close>

text \<open>\<open>usize\<close> has 64 bits: \<open>offset.checked_add(n)\<close> fails past \<open>2^64\<close>.\<close>

definition usize_checked_add :: "nat \<Rightarrow> nat \<Rightarrow> nat option" where
  "usize_checked_add a b = (if a + b < 2 ^ 64 then Some (a + b) else None)"

text \<open>\<open>bs.try_into()\<close> into an array of \<open>n\<close> bytes, and \<open>Pubkey::try_from\<close> (\<open>n = 32\<close>).\<close>

definition try_array :: "nat \<Rightarrow> bytes \<Rightarrow> bytes option" where
  "try_array n bs = (if length bs = n then Some bs else None)"

text \<open>The steps all the readers have: end of the field, length check, slice, conversion.\<close>

definition read_field :: "nat \<Rightarrow> bytes \<Rightarrow> nat \<Rightarrow> string \<Rightarrow> bytes vres" where
  "read_field n data offset label =
     and_then (ok_or (usize_checked_add offset n) (deser_err label)) (\<lambda>field_end.
     if length data < field_end then Err (deser_err label)
     else and_then (slice data offset field_end) (\<lambda>bs.
       ok_or (try_array n bs) (deser_err label)))"

definition read_pubkey :: "bytes \<Rightarrow> nat \<Rightarrow> string \<Rightarrow> pubkey vres" where
  "read_pubkey data offset label = read_field 32 data offset label"

definition read_u8 :: "bytes \<Rightarrow> nat \<Rightarrow> string \<Rightarrow> u8 vres" where
  "read_u8 data offset label = ok_or (get_at data offset) (deser_err label)"

definition read_u16 :: "bytes \<Rightarrow> nat \<Rightarrow> string \<Rightarrow> u16 vres" where
  "read_u16 data offset label =
     and_then (read_field 2 data offset label) (\<lambda>bs. Ok (from_le_bytes bs))"

definition read_u32 :: "bytes \<Rightarrow> nat \<Rightarrow> string \<Rightarrow> u32 vres" where
  "read_u32 data offset label =
     and_then (read_field 4 data offset label) (\<lambda>bs. Ok (from_le_bytes bs))"

definition read_u64 :: "bytes \<Rightarrow> nat \<Rightarrow> string \<Rightarrow> u64 vres" where
  "read_u64 data offset label =
     and_then (read_field 8 data offset label) (\<lambda>bs. Ok (from_le_bytes bs))"

definition read_u128 :: "bytes \<Rightarrow> nat \<Rightarrow> string \<Rightarrow> u128 vres" where
  "read_u128 data offset label =
     and_then (read_field 16 data offset label) (\<lambda>bs. Ok (from_le_bytes bs))"

text \<open>The field of \<open>n\<close> bytes at an offset.\<close>

abbreviation field :: "bytes \<Rightarrow> nat \<Rightarrow> nat \<Rightarrow> bytes" where
  "field data offset n \<equiv> take n (drop offset data)"

lemma read_field_no_panic [no_panic]: "read_field n data offset label \<noteq> Panic"
  by (auto simp: read_field_def usize_checked_add_def)

lemma read_no_panic [no_panic]:
  "read_pubkey data offset label \<noteq> Panic" "read_u8 data offset label \<noteq> Panic"
  "read_u16 data offset label \<noteq> Panic" "read_u32 data offset label \<noteq> Panic"
  "read_u64 data offset label \<noteq> Panic" "read_u128 data offset label \<noteq> Panic"
  by (auto simp: read_pubkey_def read_u8_def read_u16_def read_u32_def read_u64_def
      read_u128_def read_field_no_panic)

lemma read_field_eq:
  "offset + n \<le> length data \<Longrightarrow> offset + n < 2 ^ 64 \<Longrightarrow>
    read_field n data offset label = Ok (field data offset n)"
  by (simp add: read_field_def usize_checked_add_def slice_def get_slice_def try_array_def)

text \<open>Inside the data, a reader returns the little-endian value of its field.\<close>

lemma read_pubkey_eq:
  "offset + 32 \<le> length data \<Longrightarrow> offset + 32 < 2 ^ 64 \<Longrightarrow>
    read_pubkey data offset label = Ok (field data offset 32)"
  by (simp add: read_pubkey_def read_field_eq)

lemma read_u8_eq: "offset < length data \<Longrightarrow> read_u8 data offset label = Ok (data ! offset)"
  by (simp add: read_u8_def get_at_def)

lemma read_u16_eq:
  "offset + 2 \<le> length data \<Longrightarrow> offset + 2 < 2 ^ 64 \<Longrightarrow>
    read_u16 data offset label = Ok (from_le_bytes (field data offset 2))"
  by (simp add: read_u16_def read_field_eq)

lemma read_u64_eq:
  "offset + 8 \<le> length data \<Longrightarrow> offset + 8 < 2 ^ 64 \<Longrightarrow>
    read_u64 data offset label = Ok (from_le_bytes (field data offset 8))"
  by (simp add: read_u64_def read_field_eq)

lemma read_u128_eq:
  "offset + 16 \<le> length data \<Longrightarrow> offset + 16 < 2 ^ 64 \<Longrightarrow>
    read_u128 data offset label = Ok (from_le_bytes (field data offset 16))"
  by (simp add: read_u128_def read_field_eq)

lemmas read_eqs = read_pubkey_eq read_u8_eq read_u16_eq read_u64_eq read_u128_eq

section \<open>Checked arithmetic (\<open>common/checked.rs\<close>)\<close>

definition full_bps :: u32 where
  "full_bps = 10000"

text \<open>\<open>U256::from(x)\<close> for a narrower \<open>x\<close>.\<close>

abbreviation u256_of :: "'a::len word \<Rightarrow> u256" where
  "u256_of x \<equiv> ucast x"

lemma u256_of_eq_0 [simp]: "u256_of (b :: u128) = 0 \<longleftrightarrow> b = 0"
  by (metis unat_eq_zero unat_ucast_128_256)

definition require_no_value_per_share_loss ::
    "crates \<Rightarrow> u128 \<Rightarrow> u64 \<Rightarrow> u128 \<Rightarrow> u64 \<Rightarrow> unit vres" where
  "require_no_value_per_share_loss E old_value old_supply new_value new_supply =
     (if old_supply = 0 \<or> new_supply = 0 then Ok ()
      else
        and_then (or_panic (u256_mul E (u256_of new_value) (u256_of old_supply))) (\<lambda>lhs.
        and_then (or_panic (u256_mul E (u256_of old_value) (u256_of new_supply))) (\<lambda>rhs.
        if lhs < rhs then Err (math_err ''value per share decreased'') else Ok ())))"

definition mul_div_u64 :: "u64 \<Rightarrow> u64 \<Rightarrow> u64 \<Rightarrow> u64 vres" where
  "mul_div_u64 a b denom =
     and_then (ok_or (checked_mul (ucast a :: u128) (ucast b)) (math_err ''mul_div_u64 mul'')) (\<lambda>prod.
     and_then (ok_or (checked_div prod (ucast denom)) (math_err ''mul_div_u64 div'')) (\<lambda>quot.
     ok_or (try_u64 quot) (math_err ''mul_div_u64 fit'')))"

definition u128_to_u64 :: "u128 \<Rightarrow> u64 vres" where
  "u128_to_u64 v = ok_or (try_u64 v) (math_err ''u128_to_u64 fit'')"

definition mul_bps :: "u64 \<Rightarrow> u16 \<Rightarrow> u64 vres" where
  "mul_bps amount bps = mul_div_u64 amount (ucast bps) (ucast full_bps)"

lemma checked_no_panic [no_panic]:
  "mul_div_u64 a b d \<noteq> Panic" "u128_to_u64 v \<noteq> Panic" "mul_bps a bps \<noteq> Panic"
  by (simp_all add: mul_div_u64_def u128_to_u64_def mul_bps_def)

lemma u64_mul_fits_u128: "unat (a :: u64) * unat (b :: u64) < 2 ^ 128"
proof -
  have "unat a * unat b < 2 ^ 64 * 2 ^ 64"
    using unat_lt_64 [of a] unat_lt_64 [of b] by (intro mult_strict_mono) auto
  then show ?thesis by simp
qed

lemma mul_div_u64_Ok [checked_simps]:
  "mul_div_u64 a b d = Ok r \<longleftrightarrow> unat d \<noteq> 0 \<and> unat r = unat a * unat b div unat d"
proof -
  obtain p where p: "checked_mul (ucast a :: u128) (ucast b) = Some p" "unat p = unat a * unat b"
    using u64_mul_fits_u128 [of a b] by (auto simp: checked_mul_def unat_word_ariths)
  show ?thesis
    by (auto simp: mul_div_u64_def p checked_simps)
      (metis p(2) checked_div_def checked_div_Some unat_ucast_64_128 unat_eq_zero)
qed

lemma u128_to_u64_Ok [checked_simps]: "u128_to_u64 v = Ok r \<longleftrightarrow> unat r = unat v"
  by (simp add: u128_to_u64_def try_u64_Some)

lemma u128_to_u64_Err [checked_simps]:
  "u128_to_u64 v = Err e \<longleftrightarrow> 2 ^ 64 \<le> unat v \<and> e = math_err ''u128_to_u64 fit''"
  by (auto simp: u128_to_u64_def try_u64_None)

lemma mul_bps_Ok [checked_simps]:
  "mul_bps amount bps = Ok r \<longleftrightarrow> unat r = unat amount * unat bps div 10000"
  by (simp add: mul_bps_def mul_div_u64_Ok full_bps_def)

text \<open>The products of the share test fit 192 bits, so its native multiplications never panic.\<close>

lemma u128_u64_mul_fits: "unat (a :: u128) * unat (b :: u64) < 2 ^ 192"
proof -
  have "unat a * unat b < 2 ^ 128 * 2 ^ 64"
    using unat_lt_128 [of a] unat_lt_64 [of b] by (intro mult_strict_mono) auto
  then show ?thesis by simp
qed

context uint_laws
begin

lemma mul_fits:
  "unat a * unat b < 2 ^ 256 \<Longrightarrow> u256_mul E a b = Some (a * b)"
  by (simp add: mul checked_mul_def)

lemma mul_u128_u64:
  "u256_mul E (u256_of (a :: u128)) (u256_of (b :: u64)) = Some (u256_of a * u256_of b) \<and>
   unat (u256_of a * u256_of b :: u256) = unat a * unat b"
proof -
  have "unat a * unat b < 2 ^ 192" by (rule u128_u64_mul_fits)
  also have "(2 :: nat) ^ 192 < 2 ^ 256" by simp
  finally have lt: "unat a * unat b < 2 ^ 256" .
  then show ?thesis by (simp add: mul_fits unat_word_ariths)
qed

lemma no_loss_iff:
  "require_no_value_per_share_loss E ov os nv ns =
     (if os = 0 \<or> ns = 0 \<or> unat ov * unat ns \<le> unat nv * unat os then Ok ()
      else Err (math_err ''value per share decreased''))"
  by (simp add: require_no_value_per_share_loss_def mul_u128_u64 word_less_nat_alt)

lemma no_loss_no_panic [no_panic]:
  "require_no_value_per_share_loss E ov os nv ns \<noteq> Panic"
  by (simp add: no_loss_iff)

end

text \<open>
  \<open>mul_bps\<close> returns exactly the floor of \<open>amount * bps / 10000\<close>, and fails exactly when that
  does not fit 64 bits (which needs a rate above 100 percent).
\<close>

theorem mul_bps_exact:
  "(mul_bps amount bps = Ok r \<longleftrightarrow> unat r = unat amount * unat bps div 10000) \<and>
   (is_ok (mul_bps amount bps) \<longleftrightarrow> unat amount * unat bps div 10000 < 2 ^ 64)"
proof -
  have "\<exists>r :: u64. unat r = n" if "n < 2 ^ 64" for n
    using that by (intro exI [of _ "word_of_nat n"]) (simp add: unsigned_of_nat take_bit_eq_mod)
  moreover have "n < 2 ^ 64" if "unat (r :: u64) = n" for r n
    using unat_lt_64 [of r] that by simp
  ultimately show ?thesis unfolding mul_bps_Ok is_ok_iff by blast
qed

text \<open>
  The share test lets an operation through exactly when the value per share does not fall:
  the old value times the new supply is at most the new value times the old supply, as integers
  (or one of the supplies is 0). It never panics.
\<close>

theorem value_per_share_test:
  assumes "uint_laws E"
  shows "require_no_value_per_share_loss E ov os nv ns \<noteq> Panic \<and>
    (require_no_value_per_share_loss E ov os nv ns = Ok () \<longleftrightarrow>
       os = 0 \<or> ns = 0 \<or> unat ov * unat ns \<le> unat nv * unat os)"
  by (simp add: uint_laws.no_loss_iff [OF assms])

lemma value_per_share_test_witness:
  "require_no_value_per_share_loss std_crates 10 5 12 6 = Ok () \<and>
   require_no_value_per_share_loss std_crates 10 5 11 6 \<noteq> Ok ()"
  using value_per_share_test [OF std_uint.uint_laws_axioms, of 10 5 12 6]
    value_per_share_test [OF std_uint.uint_laws_axioms, of 10 5 11 6]
  by simp

text \<open>
  A reader returns the value that was stored little-endian at its offset.
\<close>

theorem read_back:
  assumes "length pre + 16 < 2 ^ 64"
  shows "read_u16 (pre @ to_le_bytes 2 a @ post) (length pre) l = Ok a \<and>
    read_u32 (pre @ to_le_bytes 4 b @ post) (length pre) l = Ok b \<and>
    read_u64 (pre @ to_le_bytes 8 c @ post) (length pre) l = Ok c \<and>
    read_u128 (pre @ to_le_bytes 16 d @ post) (length pre) l = Ok d"
  using assms
  by (simp add: read_u16_def read_u32_def read_u64_def read_u128_def read_field_eq
      from_to_le_bytes)

lemma read_back_witness:
  "read_u64 ([7, 7] @ to_le_bytes 8 (12345 :: u64) @ [1]) (length [7 :: u8, 7]) ''x'' = Ok 12345"
  using read_back [of "[7, 7]" 0 "[1]" "''x''" 0 12345 0] by simp

end
