(* ===== verification/Amm_Crates.thy ===== *)
theory Amm_Crates
  imports Common
begin

text \<open>
  What the Raydium example venue (\<open>src/src/example\<close>) takes from outside the repository beside the
  record \<open>crates\<close>: the 128-bit integers of the \<open>uint\<close> crate, the casts of \<open>bytemuck\<close> and
  \<open>safe_transmute\<close>, and functions of the Solana crates. As there, \<open>None\<close> is the panic of an
  operation that panics and the error or \<open>None\<close> of one that does not.

  \<open>uint::U128\<close> is two 64-bit limbs, that is a 128-bit word; its comparison is that of the numbers.
  A \<open>HashSet\<close> is the list of its elements, each once, in the order of their insertion; the order an
  iteration takes is \<open>hash_set_iter\<close>.
\<close>

record amm_crates =
  u128_checked_add :: "u128 \<Rightarrow> u128 \<Rightarrow> u128 option"
  u128_checked_sub :: "u128 \<Rightarrow> u128 \<Rightarrow> u128 option"
  u128_checked_mul :: "u128 \<Rightarrow> u128 \<Rightarrow> u128 option"
  u128_checked_div :: "u128 \<Rightarrow> u128 \<Rightarrow> u128 option"
  u128_checked_rem :: "u128 \<Rightarrow> u128 \<Rightarrow> u128 option"
  u128_as_u64 :: "u128 \<Rightarrow> u64 option"
  from_bytes_of_size :: "nat \<Rightarrow> bytes \<Rightarrow> bytes option"
  transmute_one_of_size :: "nat \<Rightarrow> bytes \<Rightarrow> bytes option"
  unpack_token_account :: "bytes \<Rightarrow> u64 option"
  create_program_address :: "bytes list \<Rightarrow> pubkey \<Rightarrow> pubkey option"
  ata_address :: "pubkey \<Rightarrow> pubkey \<Rightarrow> pubkey"
  hash_set_iter :: "pubkey list \<Rightarrow> pubkey list"

definition checked_rem :: "'a::len word \<Rightarrow> 'a word \<Rightarrow> 'a word option" where
  "checked_rem a b = (if b = 0 then None else Some (a mod b))"

lemma checked_rem_Some [checked_simps]:
  fixes a :: "'a::len word"
  shows "checked_rem a b = Some c \<longleftrightarrow> unat b \<noteq> 0 \<and> unat c = unat a mod unat b"
proof (cases "b = 0")
  case False
  have "a mod b = c \<longleftrightarrow> unat c = unat a mod unat b"
    by (metis unat_mod unsigned_word_eqI)
  with False show ?thesis by (simp add: checked_rem_def unat_eq_0_iff)
qed (simp add: checked_rem_def)

text \<open>
  Documented behaviour. The checked operations of \<open>U128\<close> are those of a 128-bit integer and
  \<open>as_u64\<close> panics on a value that does not fit. The casts of plain data return it exactly when the
  input has the size of the type. A token account has 165 bytes, its amount at 64. An iteration over
  a set meets every element once.
\<close>

locale amm_laws =
  fixes R :: amm_crates
  assumes chk_add: "u128_checked_add R a b = checked_add a b"
    and chk_sub: "u128_checked_sub R a b = checked_sub a b"
    and chk_mul: "u128_checked_mul R a b = checked_mul a b"
    and chk_div: "u128_checked_div R a b = checked_div a b"
    and chk_rem: "u128_checked_rem R a b = checked_rem a b"
    and as_u64: "u128_as_u64 R a = try_u64 a"
    and from_bytes: "from_bytes_of_size R n bs = try_array n bs"
    and transmute: "transmute_one_of_size R n bs = try_array n bs"
    and token_account: "unpack_token_account R bs = Some amount \<Longrightarrow>
      length bs = 165 \<and> amount = from_le_bytes (field bs 64 8)"
    and iter: "distinct ks \<Longrightarrow> distinct (hash_set_iter R ks) \<and> set (hash_set_iter R ks) = set ks"
begin

lemmas u128_laws = chk_add chk_sub chk_mul chk_div chk_rem as_u64

end

text \<open>A concrete instance. The state byte of a token account is at 108 (0: not initialized).\<close>

definition std_amm :: amm_crates where
  "std_amm = \<lparr> u128_checked_add = checked_add, u128_checked_sub = checked_sub,
     u128_checked_mul = checked_mul, u128_checked_div = checked_div,
     u128_checked_rem = checked_rem, u128_as_u64 = try_u64,
     from_bytes_of_size = try_array, transmute_one_of_size = try_array,
     unpack_token_account = (\<lambda>bs. if length bs = 165 \<and> bs ! 108 \<noteq> 0
                                 then Some (from_le_bytes (field bs 64 8)) else None),
     create_program_address = (\<lambda>seeds p. Some (take 32 (concat seeds @ p))),
     ata_address = (\<lambda>w m. m), hash_set_iter = (\<lambda>ks. ks) \<rparr>"

lemma std_amm_ops:
  shows "u128_checked_add std_amm = checked_add" "u128_checked_sub std_amm = checked_sub"
    "u128_checked_mul std_amm = checked_mul" "u128_checked_div std_amm = checked_div"
    "u128_checked_rem std_amm = checked_rem" "u128_as_u64 std_amm = try_u64"
    "from_bytes_of_size std_amm = try_array" "transmute_one_of_size std_amm = try_array"
    "unpack_token_account std_amm = (\<lambda>bs. if length bs = 165 \<and> bs ! 108 \<noteq> 0
       then Some (from_le_bytes (field bs 64 8)) else None)"
    "create_program_address std_amm = (\<lambda>seeds p. Some (take 32 (concat seeds @ p)))"
    "ata_address std_amm = (\<lambda>w m. m)" "hash_set_iter std_amm = (\<lambda>ks. ks)"
  by (simp_all add: std_amm_def)

interpretation std_amm: amm_laws std_amm
  by unfold_locales (auto simp: std_amm_ops split: if_splits)

end
