(* ===== verification/Raydium_Error.thy ===== *)
theory Raydium_Error
  imports Amm_Crates
begin

text \<open>
  The errors of the Raydium program (\<open>src/src/example/raydium/error.rs\<close>) and their conversion to the
  custom error codes of the Solana runtime: a code is the position of the variant.
\<close>

datatype amm_error =
    AlreadyInUse | InvalidProgramAddress | ExpectedMint | ExpectedAccount
  | InvalidCoinVault | InvalidPCVault | InvalidTokenLP | InvalidDestTokenCoin
  | InvalidDestTokenPC | InvalidPoolMint | InvalidOpenOrders | InvalidMarket
  | InvalidMarketProgram | InvalidTargetOrders | AccountNeedWriteable | AccountNeedReadOnly
  | InvalidCoinMint | InvalidPCMint | InvalidOwner | InvalidSupply | InvalidDelegate
  | InvalidSignAccount | InvalidStatus | InvalidInstruction | WrongAccountsNumber
  | InvalidTargetAccountOwner | InvalidTargetOwner | InvalidAmmAccountOwner | InvalidParamsSet
  | InvalidInput | ExceededSlippage | CalculationExRateFailure | CheckedSubOverflow
  | CheckedAddOverflow | CheckedMulOverflow | CheckedDivOverflow | CheckedEmptyFunds
  | CalcPnlError | InvalidSplTokenProgram | TakePnlError | InsufficientFunds | ConversionFailure
  | InvalidUserToken | InvalidSrmMint | InvalidSrmToken | TooManyOpenOrders
  | OrderAtSlotIsPlaced | InvalidSysProgramAddress | InvalidFee | RepeatCreateAmm
  | NotAllowZeroLP | InvalidCloseAuthority | InvalidFreezeAuthority | InvalidReferPCMint
  | InvalidConfigAccount | RepeatCreateConfigAccount | MarketLotSizeIsTooLarge
  | InitLpAmountTooLess | UnknownAmmError

text \<open>\<open>ProgramError::Custom(e as u32)\<close>.\<close>

primrec amm_error_code :: "amm_error \<Rightarrow> u32" where
  "amm_error_code AlreadyInUse = 0"
| "amm_error_code InvalidProgramAddress = 1"
| "amm_error_code ExpectedMint = 2"
| "amm_error_code ExpectedAccount = 3"
| "amm_error_code InvalidCoinVault = 4"
| "amm_error_code InvalidPCVault = 5"
| "amm_error_code InvalidTokenLP = 6"
| "amm_error_code InvalidDestTokenCoin = 7"
| "amm_error_code InvalidDestTokenPC = 8"
| "amm_error_code InvalidPoolMint = 9"
| "amm_error_code InvalidOpenOrders = 10"
| "amm_error_code InvalidMarket = 11"
| "amm_error_code InvalidMarketProgram = 12"
| "amm_error_code InvalidTargetOrders = 13"
| "amm_error_code AccountNeedWriteable = 14"
| "amm_error_code AccountNeedReadOnly = 15"
| "amm_error_code InvalidCoinMint = 16"
| "amm_error_code InvalidPCMint = 17"
| "amm_error_code InvalidOwner = 18"
| "amm_error_code InvalidSupply = 19"
| "amm_error_code InvalidDelegate = 20"
| "amm_error_code InvalidSignAccount = 21"
| "amm_error_code InvalidStatus = 22"
| "amm_error_code InvalidInstruction = 23"
| "amm_error_code WrongAccountsNumber = 24"
| "amm_error_code InvalidTargetAccountOwner = 25"
| "amm_error_code InvalidTargetOwner = 26"
| "amm_error_code InvalidAmmAccountOwner = 27"
| "amm_error_code InvalidParamsSet = 28"
| "amm_error_code InvalidInput = 29"
| "amm_error_code ExceededSlippage = 30"
| "amm_error_code CalculationExRateFailure = 31"
| "amm_error_code CheckedSubOverflow = 32"
| "amm_error_code CheckedAddOverflow = 33"
| "amm_error_code CheckedMulOverflow = 34"
| "amm_error_code CheckedDivOverflow = 35"
| "amm_error_code CheckedEmptyFunds = 36"
| "amm_error_code CalcPnlError = 37"
| "amm_error_code InvalidSplTokenProgram = 38"
| "amm_error_code TakePnlError = 39"
| "amm_error_code InsufficientFunds = 40"
| "amm_error_code ConversionFailure = 41"
| "amm_error_code InvalidUserToken = 42"
| "amm_error_code InvalidSrmMint = 43"
| "amm_error_code InvalidSrmToken = 44"
| "amm_error_code TooManyOpenOrders = 45"
| "amm_error_code OrderAtSlotIsPlaced = 46"
| "amm_error_code InvalidSysProgramAddress = 47"
| "amm_error_code InvalidFee = 48"
| "amm_error_code RepeatCreateAmm = 49"
| "amm_error_code NotAllowZeroLP = 50"
| "amm_error_code InvalidCloseAuthority = 51"
| "amm_error_code InvalidFreezeAuthority = 52"
| "amm_error_code InvalidReferPCMint = 53"
| "amm_error_code InvalidConfigAccount = 54"
| "amm_error_code RepeatCreateConfigAccount = 55"
| "amm_error_code MarketLotSizeIsTooLarge = 56"
| "amm_error_code InitLpAmountTooLess = 57"
| "amm_error_code UnknownAmmError = 58"

text \<open>The errors in the order of their codes.\<close>

definition amm_errors :: "amm_error list" where
  "amm_errors =
     [AlreadyInUse, InvalidProgramAddress, ExpectedMint, ExpectedAccount
      , InvalidCoinVault, InvalidPCVault, InvalidTokenLP, InvalidDestTokenCoin, InvalidDestTokenPC
      , InvalidPoolMint, InvalidOpenOrders, InvalidMarket, InvalidMarketProgram
      , InvalidTargetOrders, AccountNeedWriteable, AccountNeedReadOnly, InvalidCoinMint
      , InvalidPCMint, InvalidOwner, InvalidSupply, InvalidDelegate, InvalidSignAccount
      , InvalidStatus, InvalidInstruction, WrongAccountsNumber, InvalidTargetAccountOwner
      , InvalidTargetOwner, InvalidAmmAccountOwner, InvalidParamsSet, InvalidInput
      , ExceededSlippage, CalculationExRateFailure, CheckedSubOverflow, CheckedAddOverflow
      , CheckedMulOverflow, CheckedDivOverflow, CheckedEmptyFunds, CalcPnlError
      , InvalidSplTokenProgram, TakePnlError, InsufficientFunds, ConversionFailure
      , InvalidUserToken, InvalidSrmMint, InvalidSrmToken, TooManyOpenOrders, OrderAtSlotIsPlaced
      , InvalidSysProgramAddress, InvalidFee, RepeatCreateAmm, NotAllowZeroLP
      , InvalidCloseAuthority, InvalidFreezeAuthority, InvalidReferPCMint, InvalidConfigAccount
      , RepeatCreateConfigAccount, MarketLotSizeIsTooLarge, InitLpAmountTooLess, UnknownAmmError]"

lemma amm_errors_nth_code: "amm_errors ! unat (amm_error_code e) = e"
  by (cases e) (simp_all add: amm_errors_def)

text \<open>A code determines the error.\<close>

lemma amm_error_code_inject: "amm_error_code e = amm_error_code e' \<longleftrightarrow> e = e'"
  by (metis amm_errors_nth_code)

lemma amm_error_code_less: "amm_error_code e < 59"
  by (cases e) simp_all

end
