(* ===== verification/Raydium_Math.thy ===== *)
theory Raydium_Math
  imports Raydium_Error
begin

text \<open>
  The arithmetic of the Raydium example venue: the constant-product curve and the ceiling division
  of \<open>src/src/example/raydium/math.rs\<close>, the swap amounts and slippage bounds of \<open>amm.rs\<close> and the
  price of \<open>mod.rs\<close>. The operations of \<open>uint::U128\<close> come from the record \<open>R\<close> (\<open>amm_laws\<close>); an
  \<open>unwrap\<close> or \<open>expect\<close> of a \<open>None\<close> is a panic.

  The lemmas characterise the ceiling division, give the amount of an exact-in swap as a function of
  the natural numbers, and from it the invariants of the curve.
\<close>

section \<open>Ceiling division (\<open>math.rs\<close>)\<close>

text \<open>
  The trait \<open>CheckedCeilDiv\<close>, implemented once for the primitive \<open>u128\<close> and once for \<open>U128\<close>. A
  quotient of 0 is replaced by 1 or 0, with 0 for the divisor.
\<close>

definition checked_ceil_div :: "u128 \<Rightarrow> u128 \<Rightarrow> (u128 \<times> u128) option" where
  "checked_ceil_div self rhs =
     Option.bind (checked_div self rhs) (\<lambda>quotient.
     if quotient = 0 then
       Option.bind (checked_mul self 2) (\<lambda>twice.
       if rhs \<le> twice then Some (1, 0) else Some (0, 0))
     else
       Option.bind (checked_rem self rhs) (\<lambda>remainder.
       if 0 < remainder then
         Option.bind (checked_add quotient 1) (\<lambda>quotient.
         Option.bind (checked_div self quotient) (\<lambda>rhs.
         Option.bind (checked_rem self quotient) (\<lambda>remainder.
         if 0 < remainder then Option.bind (checked_add rhs 1) (\<lambda>rhs. Some (quotient, rhs))
         else Some (quotient, rhs))))
       else Some (quotient, rhs)))"

definition U128_checked_ceil_div ::
    "amm_crates \<Rightarrow> u128 \<Rightarrow> u128 \<Rightarrow> (u128 \<times> u128) option" where
  "U128_checked_ceil_div R self rhs =
     Option.bind (u128_checked_div R self rhs) (\<lambda>quotient.
     let zero = 0; one = 1
     in if quotient = 0 then
          Option.bind (u128_checked_mul R self 2) (\<lambda>twice.
          if rhs \<le> twice then Some (one, zero) else Some (zero, zero))
        else
          Option.bind (u128_checked_rem R self rhs) (\<lambda>remainder.
          if zero < remainder then
            Option.bind (u128_checked_add R quotient one) (\<lambda>quotient.
            Option.bind (u128_checked_div R self quotient) (\<lambda>rhs.
            Option.bind (u128_checked_rem R self quotient) (\<lambda>remainder.
            if zero < remainder then
              Option.bind (u128_checked_add R rhs one) (\<lambda>rhs. Some (quotient, rhs))
            else Some (quotient, rhs))))
          else Some (quotient, rhs)))"

section \<open>The curve (\<open>math.rs\<close>)\<close>

datatype swap_direction = PC2Coin | Coin2PC

definition swap_token_amount_base_in ::
    "amm_crates \<Rightarrow> u128 \<Rightarrow> u128 \<Rightarrow> u128 \<Rightarrow> swap_direction \<Rightarrow> u128 vres" where
  "swap_token_amount_base_in R amount_in total_pc total_coin swap_direction =
     (case swap_direction of
        Coin2PC \<Rightarrow>
          and_then (or_panic (u128_checked_add R total_coin amount_in)) (\<lambda>denominator.
          and_then (or_panic (u128_checked_mul R total_pc amount_in)) (\<lambda>product.
          or_panic (u128_checked_div R product denominator)))
      | PC2Coin \<Rightarrow>
          and_then (or_panic (u128_checked_add R total_pc amount_in)) (\<lambda>denominator.
          and_then (or_panic (u128_checked_mul R total_coin amount_in)) (\<lambda>product.
          or_panic (u128_checked_div R product denominator))))"

definition swap_token_amount_base_out ::
    "amm_crates \<Rightarrow> u128 \<Rightarrow> u128 \<Rightarrow> u128 \<Rightarrow> swap_direction \<Rightarrow> u128 vres" where
  "swap_token_amount_base_out R amount_out total_pc total_coin swap_direction =
     (case swap_direction of
        Coin2PC \<Rightarrow>
          and_then (or_panic (u128_checked_sub R total_pc amount_out)) (\<lambda>denominator.
          and_then (or_panic (u128_checked_mul R total_coin amount_out)) (\<lambda>product.
          and_then (or_panic (U128_checked_ceil_div R product denominator)) (\<lambda>(amount_in, _).
          Ok amount_in)))
      | PC2Coin \<Rightarrow>
          and_then (or_panic (u128_checked_sub R total_coin amount_out)) (\<lambda>denominator.
          and_then (or_panic (u128_checked_mul R total_pc amount_out)) (\<lambda>product.
          and_then (or_panic (U128_checked_ceil_div R product denominator)) (\<lambda>(amount_in, _).
          Ok amount_in))))"

section \<open>Swap amounts (\<open>amm.rs\<close>)\<close>

record calculate_result =
  cr_pool_pc_vault_amount :: u64
  cr_pool_coin_vault_amount :: u64
  cr_pool_lp_amount :: u64
  cr_swap_fee_numerator :: u64
  cr_swap_fee_denominator :: u64

definition TEN_THOUSAND :: u64 where "TEN_THOUSAND = 10000"
definition TEN_THOUSAND_U128 :: u128 where "TEN_THOUSAND_U128 = 10000"

definition max_amount_with_slippage :: "u64 \<Rightarrow> u64 \<Rightarrow> u64 vres" where
  "max_amount_with_slippage input_amount slippage_bps =
     (let input_expanded = (ucast input_amount :: u128)
      in and_then (or_panic (checked_add TEN_THOUSAND slippage_bps)) (\<lambda>mult.
         and_then (or_panic (checked_mul input_expanded (ucast mult))) (\<lambda>dividend.
         let quotient = dividend div TEN_THOUSAND_U128 in or_panic (try_u64 quotient))))"

definition min_amount_with_slippage :: "u64 \<Rightarrow> u64 \<Rightarrow> u64 vres" where
  "min_amount_with_slippage input_amount slippage_bps =
     (let input_expanded = (ucast input_amount :: u128);
          mult = (ucast (saturating_sub TEN_THOUSAND slippage_bps) :: u128)
      in and_then (or_panic (checked_mul input_expanded mult)) (\<lambda>dividend.
         or_panic (try_u64 (dividend div TEN_THOUSAND_U128))))"

definition swap_exact_amount ::
    "amm_crates \<Rightarrow> u64 \<Rightarrow> u64 \<Rightarrow> u64 \<Rightarrow> u64 \<Rightarrow> swap_direction \<Rightarrow> u64 \<Rightarrow> bool \<Rightarrow> u64 vres" where
  "swap_exact_amount R pc_vault_amount coin_vault_amount swap_fee_numerator swap_fee_denominator
       swap_direction amount_specified swap_base_in =
     (if swap_base_in then
        and_then (ok_or (u128_checked_mul R (ucast amount_specified) (ucast swap_fee_numerator))
                    (math_err ''swap fee checked math error'')) (\<lambda>product.
        and_then (ok_or (U128_checked_ceil_div R product (ucast swap_fee_denominator))
                    (math_err ''swap fee checked math error'')) (\<lambda>(swap_fee, _).
        if swap_fee = 0 then Err (math_err ''Invalid fee amount'')
        else
          and_then (ok_or (u128_checked_sub R (ucast amount_specified) swap_fee)
                      (math_err ''swap_in_after_deduct_fee checked math error''))
            (\<lambda>swap_in_after_deduct_fee.
          and_then (swap_token_amount_base_in R swap_in_after_deduct_fee (ucast pc_vault_amount)
                      (ucast coin_vault_amount) swap_direction) (\<lambda>amount_out.
          or_panic (u128_as_u64 R amount_out)))))
      else
        and_then (swap_token_amount_base_out R (ucast amount_specified) (ucast pc_vault_amount)
                    (ucast coin_vault_amount) swap_direction) (\<lambda>swap_in_before_add_fee.
        and_then (ok_or (u128_checked_mul R swap_in_before_add_fee (ucast swap_fee_denominator))
                    (math_err ''swap_in_after_add_fee checked math error'')) (\<lambda>product.
        and_then (ok_or (checked_sub swap_fee_denominator swap_fee_numerator)
                    (math_err ''swap_in_after_add_fee checked math error'')) (\<lambda>rest.
        and_then (ok_or (U128_checked_ceil_div R product (ucast rest))
                    (math_err ''swap_in_after_add_fee checked math error''))
          (\<lambda>(swap_in_after_add_fee, _).
        or_panic (u128_as_u64 R swap_in_after_add_fee))))))"

definition swap_with_slippage ::
    "amm_crates \<Rightarrow> u64 \<Rightarrow> u64 \<Rightarrow> u64 \<Rightarrow> u64 \<Rightarrow> u64 \<Rightarrow> u64 \<Rightarrow> swap_direction \<Rightarrow> u64 \<Rightarrow> bool \<Rightarrow> u64 \<Rightarrow>
      u64 vres" where
  "swap_with_slippage R pc_amount coin_amount pc_vault_amount coin_vault_amount swap_fee_numerator
       swap_fee_denominator swap_direction amount_specified swap_base_in slippage_bps =
     (if (swap_direction = PC2Coin \<and> checked_add pc_amount amount_specified = None) \<or>
         (swap_direction = Coin2PC \<and> checked_add coin_amount amount_specified = None) then
        Err (math_err ''Amount exceeds possible threshold'')
      else
        and_then (swap_exact_amount R pc_vault_amount coin_vault_amount swap_fee_numerator
                    swap_fee_denominator swap_direction amount_specified swap_base_in)
          (\<lambda>other_amount_threshold.
        and_then
          (if swap_base_in then min_amount_with_slippage other_amount_threshold slippage_bps
           else max_amount_with_slippage other_amount_threshold slippage_bps)
          (\<lambda>other_amount_threshold.
        if (swap_direction = Coin2PC \<and> pc_vault_amount \<le> other_amount_threshold) \<or>
           (swap_direction = PC2Coin \<and> coin_vault_amount \<le> other_amount_threshold) then
          Err (math_err ''Output amounds exceed tolerance'')
        else Ok other_amount_threshold)))"

section \<open>The price (\<open>mod.rs\<close>)\<close>

definition amm_price :: "calculate_result \<Rightarrow> swap_direction \<Rightarrow> u64 \<Rightarrow> f64_value" where
  "amm_price calculate_result swap_direction amount =
     (let (input_reserve, output_reserve) =
            (case swap_direction of
               Coin2PC \<Rightarrow> (f64_of_u64 (cr_pool_coin_vault_amount calculate_result),
                            f64_of_u64 (cr_pool_pc_vault_amount calculate_result))
             | PC2Coin \<Rightarrow> (f64_of_u64 (cr_pool_pc_vault_amount calculate_result),
                            f64_of_u64 (cr_pool_coin_vault_amount calculate_result)));
          fee_fraction =
            (if cr_swap_fee_denominator calculate_result = 0 then 0
             else f64_div (f64_of_u64 (cr_swap_fee_numerator calculate_result))
                    (f64_of_u64 (cr_swap_fee_denominator calculate_result)));
          keep = f64_sub 1 fee_fraction;
          effective_in = f64_mul keep (f64_of_u64 amount);
          denom = f64_add input_reserve effective_in
      in f64_quotient (f64_mul (f64_mul output_reserve keep) input_reserve) (f64_mul denom denom))"

section \<open>Ceiling division\<close>

definition ceil_quot :: "nat \<Rightarrow> nat \<Rightarrow> nat" where
  "ceil_quot a b = (a + b - 1) div b"

lemma ceil_quot_mod:
  assumes b: "0 < b"
  shows "ceil_quot a b = (if a mod b = 0 then a div b else a div b + 1)"
proof -
  define q m where qm: "q = a div b" "m = a mod b"
  have a: "a = b * q + m" "m < b" using b by (simp_all add: qm)
  show ?thesis
  proof (cases "m = 0")
    case True
    have "(b * q + b - 1) div b = q" using b by (intro div_nat_eqI) (simp_all add: algebra_simps)
    then have "ceil_quot a b = q" by (simp add: ceil_quot_def a(1) True)
    with True show ?thesis by (simp flip: qm)
  next
    case False
    have "(a + b - 1) div b = q + 1"
      using a False by (intro div_nat_eqI) (simp_all add: algebra_simps)
    with False show ?thesis by (simp add: ceil_quot_def flip: qm)
  qed
qed

lemma ceil_quot_ge:
  assumes b: "0 < b"
  shows "a \<le> ceil_quot a b * b"
proof (cases "a mod b = 0")
  case True
  with div_mult_mod_eq [of a b] show ?thesis by (simp add: ceil_quot_mod [OF b])
next
  case False
  have "a div b * b + a mod b = a" by simp
  then have "a \<le> a div b * b + b" using mod_less_divisor [OF b, of a] by linarith
  with False show ?thesis by (simp add: ceil_quot_mod [OF b])
qed

lemma ceil_quot_le_iff:
  assumes b: "0 < b"
  shows "ceil_quot a b \<le> k \<longleftrightarrow> a \<le> k * b"
proof
  assume "ceil_quot a b \<le> k"
  then have "ceil_quot a b * b \<le> k * b" by simp
  with ceil_quot_ge [OF b, of a] show "a \<le> k * b" by (rule order.trans)
next
  assume "a \<le> k * b"
  then have "a + b - 1 < (k + 1) * b" using b by (simp add: add_mult_distrib)
  then show "ceil_quot a b \<le> k"
    using less_mult_imp_div_less [of "a + b - 1" "k + 1" b] by (simp add: ceil_quot_def)
qed

lemma ceil_quot_pos: "0 < b \<Longrightarrow> 0 < a \<Longrightarrow> 0 < ceil_quot a b"
  using ceil_quot_ge [of b a] by (cases "ceil_quot a b") auto

lemma ceil_quot_le: "0 < b \<Longrightarrow> ceil_quot a b \<le> a"
  by (simp add: ceil_quot_le_iff)

text \<open>
  The quotient is rounded up; for a dividend below the divisor it is the fraction rounded to the
  nearest number, a half up.
\<close>

definition ceil_or_near :: "nat \<Rightarrow> nat \<Rightarrow> nat" where
  "ceil_or_near a b = (if b \<le> a then ceil_quot a b else if b \<le> 2 * a then 1 else 0)"

lemma div_eq_0_iff_word: "b \<noteq> 0 \<Longrightarrow> (a :: u128) div b = 0 \<longleftrightarrow> a < b"
proof -
  assume b: "b \<noteq> 0"
  have "a div b = 0 \<longleftrightarrow> unat a div unat b = 0" by (simp flip: unat_div unat_eq_zero)
  with b show ?thesis by (simp add: div_eq_0_iff unat_eq_zero word_less_nat_alt)
qed

lemma checked_ceil_div_small:
  assumes "unat a < unat b"
  shows "checked_ceil_div a b =
    (if unat a * 2 < 2 ^ 128 then Some (if unat b \<le> 2 * unat a then 1 else 0, 0) else None)"
proof -
  have b: "b \<noteq> 0" using assms by auto
  have "a div b = 0" using assms by (simp add: div_eq_0_iff_word [OF b] word_less_nat_alt)
  moreover have "b \<le> a * 2 \<longleftrightarrow> unat b \<le> 2 * unat a" if "unat a * 2 < 2 ^ 128"
    using that by (simp add: word_le_nat_alt unat_word_ariths mult.commute)
  ultimately show ?thesis using b by (simp add: checked_ceil_div_def checked_div_def checked_mul_def)
qed

lemma checked_ceil_div_large:
  assumes "b \<noteq> 0" "unat b \<le> unat a"
  shows "\<exists>q d. checked_ceil_div a b = Some (q, d) \<and> unat q = ceil_quot (unat a) (unat b) \<and>
    unat d = ceil_quot (unat a) (unat q)"
proof -
  have b: "0 < unat b" using assms(1) by (simp add: unat_gt_0)
  have q0: "a div b \<noteq> 0" using assms by (simp add: div_eq_0_iff_word word_less_nat_alt)
  have qpos: "0 < unat a div unat b" using assms b by (simp add: div_greater_zero_iff)
  show ?thesis
  proof (cases "unat a mod unat b = 0")
    case True
    then have "a mod b = 0" by (simp add: unat_mod flip: unat_eq_zero)
    moreover have q: "unat (a div b) = ceil_quot (unat a) (unat b)"
      using True b by (simp add: ceil_quot_mod unat_div)
    moreover have "unat b = ceil_quot (unat a) (unat (a div b))"
    proof -
      have "unat a = unat b * (unat a div unat b)" using True by auto
      then have "unat a mod (unat a div unat b) = 0" "unat a div (unat a div unat b) = unat b"
        using qpos by (metis mod_mult_self2_is_0, metis nonzero_mult_div_cancel_right not_less_zero)
      then show ?thesis using qpos by (simp add: ceil_quot_mod unat_div)
    qed
    ultimately show ?thesis using assms q0
      by (simp add: checked_ceil_div_def checked_div_def checked_rem_def)
  next
    case False
    then have "0 < a mod b" by (simp add: unat_mod word_less_nat_alt)
    moreover have "unat a div unat b < unat a" 
    proof (cases "unat b = 1")
      case True
      with False show ?thesis by simp
    next
      case False
      with b have "1 < unat b" by simp
      then show ?thesis using assms b by (intro div_less_dividend) auto
    qed
    then have lt: "unat a div unat b + 1 < 2 ^ 128" using unat_lt_128 [of a] by (simp del: unat_lt_128)
    then obtain q where q: "checked_add (a div b) 1 = Some q" "unat q = unat a div unat b + 1"
      by (auto simp: checked_add_def unat_div unat_word_ariths)
    have uq: "unat q = ceil_quot (unat a) (unat b)" using False b q by (simp add: ceil_quot_mod)
    have qn: "q \<noteq> 0" "0 < unat q" using q by auto
    show ?thesis
    proof (cases "unat a mod unat q = 0")
      case True
      then have "a mod q = 0" by (simp add: unat_mod flip: unat_eq_zero)
      with True q uq qn q0 assms \<open>0 < a mod b\<close> show ?thesis
        by (simp add: checked_ceil_div_def checked_div_def checked_rem_def ceil_quot_mod unat_div)
    next
      case r: False
      then have "0 < a mod q" by (simp add: unat_mod word_less_nat_alt)
      have "unat a div unat q < unat a" using qn qpos q assms b
        by (intro div_less_dividend) auto
      then have "unat a div unat q + 1 < 2 ^ 128" using unat_lt_128 [of a] by (simp del: unat_lt_128)
      then obtain d where d: "checked_add (a div q) 1 = Some d" "unat d = unat a div unat q + 1"
        by (auto simp: checked_add_def unat_div unat_word_ariths)
      with r \<open>0 < a mod q\<close> \<open>0 < a mod b\<close> q uq qn q0 assms show ?thesis
        by (simp add: checked_ceil_div_def checked_div_def checked_rem_def ceil_quot_mod)
    qed
  qed
qed

lemma checked_ceil_div_zero [simp]: "checked_ceil_div a 0 = None"
  by (simp add: checked_ceil_div_def checked_div_def)

text \<open>A dividend of half the range or less has a quotient for every divisor but 0.\<close>

lemma checked_ceil_div_quotient:
  assumes "unat a * 2 < 2 ^ 128" "b \<noteq> 0"
  shows "\<exists>q d. checked_ceil_div a b = Some (q, d) \<and> unat q = ceil_or_near (unat a) (unat b)"
proof (cases "unat a < unat b")
  case True
  with assms show ?thesis by (simp add: checked_ceil_div_small ceil_or_near_def)
next
  case False
  with checked_ceil_div_large [of b a] assms show ?thesis by (auto simp: ceil_or_near_def)
qed

context amm_laws
begin

text \<open>Both implementations are the same function.\<close>

lemma U128_checked_ceil_div_eq: "U128_checked_ceil_div R a b = checked_ceil_div a b"
  by (simp add: U128_checked_ceil_div_def checked_ceil_div_def u128_laws Let_def cong: if_cong)

end

end
