(* ===== verification/Wrapper_Vault.thy ===== *)
theory Wrapper_Vault
  imports Common
begin

text \<open>
  The accounts of the Overpass program a venue is built on: the wrapper vault and the global
  configuration with their decoders (\<open>src/src/your_venue/state.rs\<close>), the swap direction
  (\<open>common/direction.rs\<close>), the program ids and address derivation (\<open>common/programs.rs\<close>), and the
  account fetch of \<open>account_caching/mod.rs\<close> as the backends use it.
\<close>

section \<open>Account fetching\<close>

text \<open>
  A backend sees the accounts cache through \<open>get_accounts\<close> and \<open>get_account\<close> only; the functions
  here take both as one record.
\<close>

record accounts_cache =
  get_account :: "pubkey \<Rightarrow> account option vres"
  get_accounts :: "pubkey list \<Rightarrow> account option list vres"

text \<open>\<open>accounts.try_into()\<close> into an array of two or three entries.\<close>

definition try_two :: "'a list \<Rightarrow> ('a \<times> 'a) option" where
  "try_two xs = (case xs of [a, b] \<Rightarrow> Some (a, b) | _ \<Rightarrow> None)"

definition try_three :: "'a list \<Rightarrow> ('a \<times> 'a \<times> 'a) option" where
  "try_three xs = (case xs of [a, b, c] \<Rightarrow> Some (a, b, c) | _ \<Rightarrow> None)"

section \<open>Program ids (\<open>common/programs.rs\<close>)\<close>

definition SPL_TOKEN_PROGRAM_ID :: "crates \<Rightarrow> pubkey" where
  "SPL_TOKEN_PROGRAM_ID E = from_str_const E ''TokenkegQfeZyiNwAJbNbGKPFXCWuBvf9Ss623VQ5DA''"

definition TOKEN_2022_PROGRAM_ID :: "crates \<Rightarrow> pubkey" where
  "TOKEN_2022_PROGRAM_ID E = from_str_const E ''TokenzQdBNbLqP5VEhdkAS6EPFLC1PHnBqCXEpPxuEb''"

definition ATA_PROGRAM_ID :: "crates \<Rightarrow> pubkey" where
  "ATA_PROGRAM_ID E = from_str_const E ''ATokenGPvbdGVxr1b2hvZbsiqW5xWH25efTNsLJA8knL''"

definition SYSTEM_PROGRAM_ID :: "crates \<Rightarrow> pubkey" where
  "SYSTEM_PROGRAM_ID E = from_str_const E ''11111111111111111111111111111111''"

definition OVERPASS_PROGRAM_ID :: "crates \<Rightarrow> pubkey" where
  "OVERPASS_PROGRAM_ID E = from_str_const E ''WRAPdXmxrH37RKUbH1QMnYrKdNe8w4Kz44t1cXmYeum''"

text \<open>The clock account, which every refresh reads: the same constant in each backend's \<open>update.rs\<close>.\<close>

definition CLOCK_SYSVAR_ID :: "crates \<Rightarrow> pubkey" where
  "CLOCK_SYSVAR_ID E = from_str_const E ''SysvarC1ock11111111111111111111111111111111''"

text \<open>The 8-byte clock field at \<open>a..b\<close>, as each refresh reads it.\<close>

definition clock_field :: "bytes \<Rightarrow> nat \<Rightarrow> nat \<Rightarrow> string \<Rightarrow> u64 vres" where
  "clock_field data a b label =
     and_then (ok_or (get_slice data a b) (deser_err label)) (\<lambda>bs.
     and_then (ok_or (try_array 8 bs) (deser_err label)) (\<lambda>arr. Ok (from_le_bytes arr)))"

lemma clock_field_no_panic [no_panic]: "clock_field data a b label \<noteq> Panic"
  by (simp add: clock_field_def)

text \<open>\<open>Pubkey::find_program_address\<close> panics when no bump seed gives an address.\<close>

definition find_pda :: "crates \<Rightarrow> bytes list \<Rightarrow> pubkey \<Rightarrow> pubkey vres" where
  "find_pda E seeds program_id = or_panic (find_program_address E seeds program_id)"

definition derive_ata :: "crates \<Rightarrow> pubkey \<Rightarrow> pubkey \<Rightarrow> pubkey \<Rightarrow> pubkey vres" where
  "derive_ata E owner mint token_program =
     find_pda E [owner, token_program, mint] (ATA_PROGRAM_ID E)"

text \<open>Byte-string literals.\<close>

definition byte_str :: "string \<Rightarrow> bytes" where
  "byte_str s = map of_char s"

section \<open>The wrapper vault (\<open>state.rs\<close>)\<close>

record wrapper_vault =
  wv_version :: u8
  wv_bump :: u8
  wv_vault_authority_bump :: u8
  wv_protocol :: u8
  wv_creation_timestamp :: u64
  wv_creator :: pubkey
  wv_wrapper_mint :: pubkey
  wv_underlying_mint :: pubkey
  wv_source_pool :: pubkey
  wv_source_position_pda :: pubkey
  wv_creator_deposit_fee_bps :: u16
  wv_intermediate_held :: u128
  wv_free_underlying_held :: u64
  wv_accumulated_creator_fees :: u64
  wv_accumulated_protocol_fees :: u64
  wv_wrapper_supply :: u64
  wv_protocol_data :: bytes

definition WRAPPER_VAULT_LEN :: nat where "WRAPPER_VAULT_LEN = 558"
definition WRAPPER_VAULT_VERSION :: u8 where "WRAPPER_VAULT_VERSION = 1"
definition PROTOCOL_DATA_LEN :: nat where "PROTOCOL_DATA_LEN = 200"
definition WRAPPER_VAULT_DISCRIMINATOR :: bytes where
  "WRAPPER_VAULT_DISCRIMINATOR = [103, 101, 152, 26, 112, 217, 184, 219]"

datatype protocol_id = Kvault_Id | Klend_Id | Save_Id | Lulo_Id | Marginfi_Id

definition protocol_from_byte :: "u8 \<Rightarrow> protocol_id vres" where
  "protocol_from_byte b =
     (if b = 0 then Ok Kvault_Id
      else if b = 1 then Ok Klend_Id
      else if b = 2 then Ok Save_Id
      else if b = 3 then Ok Lulo_Id
      else if b = 4 then Ok Marginfi_Id
      else Err (UnsupportedVenue (EStaticStr ''unknown protocol byte'')))"

definition decode_wrapper_vault :: "bytes \<Rightarrow> wrapper_vault vres" where
  "decode_wrapper_vault data =
     (if length data < WRAPPER_VAULT_LEN then Err (deser_err ''wrapper_vault: length'')
      else and_then (slice data 0 8) (\<lambda>disc.
      if disc \<noteq> WRAPPER_VAULT_DISCRIMINATOR then Err (deser_err ''wrapper_vault: discriminator'')
      else and_then (index_at data 8) (\<lambda>version.
      if version \<noteq> WRAPPER_VAULT_VERSION
      then Err (deser_err ''unsupported wrapper_vault version'')
      else
        and_then (index_at data 9) (\<lambda>bump.
        and_then (index_at data 10) (\<lambda>vault_authority_bump.
        and_then (index_at data 11) (\<lambda>protocol.
        and_then (read_u64 data 12 ''wrapper_vault.creation_timestamp'') (\<lambda>creation_timestamp.
        and_then (read_pubkey data 20 ''wrapper_vault.creator'') (\<lambda>creator.
        and_then (read_pubkey data 52 ''wrapper_vault.wrapper_mint'') (\<lambda>wrapper_mint.
        and_then (read_pubkey data 84 ''wrapper_vault.underlying_mint'') (\<lambda>underlying_mint.
        and_then (read_pubkey data 116 ''wrapper_vault.source_pool'') (\<lambda>source_pool.
        and_then (read_pubkey data 148 ''wrapper_vault.source_position_pda'') (\<lambda>source_position_pda.
        and_then (read_u16 data 180 ''wrapper_vault.creator_deposit_fee_bps'') (\<lambda>fee_bps.
        and_then (read_u128 data 182 ''wrapper_vault.intermediate_held'') (\<lambda>intermediate_held.
        and_then (read_u64 data 198 ''wrapper_vault.free_underlying_held'') (\<lambda>free_underlying.
        and_then (read_u64 data 206 ''wrapper_vault.accumulated_creator_fees'') (\<lambda>creator_fees.
        and_then (read_u64 data 214 ''wrapper_vault.accumulated_protocol_fees'') (\<lambda>protocol_fees.
        and_then (read_u64 data 222 ''wrapper_vault.wrapper_supply'') (\<lambda>wrapper_supply.
        and_then (slice data 230 430) (\<lambda>pd.
        and_then (ok_or (try_array PROTOCOL_DATA_LEN pd) (deser_err ''wrapper_vault.protocol_data''))
          (\<lambda>protocol_data.
        Ok \<lparr> wv_version = version, wv_bump = bump, wv_vault_authority_bump = vault_authority_bump,
             wv_protocol = protocol, wv_creation_timestamp = creation_timestamp,
             wv_creator = creator, wv_wrapper_mint = wrapper_mint,
             wv_underlying_mint = underlying_mint, wv_source_pool = source_pool,
             wv_source_position_pda = source_position_pda, wv_creator_deposit_fee_bps = fee_bps,
             wv_intermediate_held = intermediate_held, wv_free_underlying_held = free_underlying,
             wv_accumulated_creator_fees = creator_fees,
             wv_accumulated_protocol_fees = protocol_fees, wv_wrapper_supply = wrapper_supply,
             wv_protocol_data = protocol_data \<rparr>))))))))))))))))))))"

section \<open>The global configuration (\<open>state.rs\<close>)\<close>

record global_config =
  gc_paused :: bool
  gc_protocol_deposit_fee_bps :: u16

definition global_config_default :: global_config where
  "global_config_default = \<lparr> gc_paused = False, gc_protocol_deposit_fee_bps = 0 \<rparr>"

definition GLOBAL_CONFIG_LEN :: nat where "GLOBAL_CONFIG_LEN = 150"
definition GLOBAL_CONFIG_DISCRIMINATOR :: bytes where
  "GLOBAL_CONFIG_DISCRIMINATOR = [149, 8, 156, 202, 160, 252, 176, 217]"
definition SEED_GLOBAL_CONFIG :: bytes where "SEED_GLOBAL_CONFIG = byte_str ''config''"

definition global_config_pda :: "crates \<Rightarrow> pubkey \<Rightarrow> pubkey vres" where
  "global_config_pda E program_id =
     find_pda E [SEED_GLOBAL_CONFIG] program_id"

definition decode_global_config :: "bytes \<Rightarrow> global_config vres" where
  "decode_global_config data =
     (if length data < GLOBAL_CONFIG_LEN then Err (deser_err ''global_config: length'')
      else and_then (slice data 0 8) (\<lambda>disc.
      if disc \<noteq> GLOBAL_CONFIG_DISCRIMINATOR then Err (deser_err ''global_config: discriminator'')
      else
        and_then (index_at data 9) (\<lambda>paused_byte.
        and_then (read_u16 data 82 ''global_config.protocol_deposit_fee_bps'') (\<lambda>fee_bps.
        Ok \<lparr> gc_paused = (paused_byte \<noteq> 0), gc_protocol_deposit_fee_bps = fee_bps \<rparr>))))"

section \<open>Swap direction (\<open>common/direction.rs\<close>)\<close>

datatype direction = Deposit | Withdraw

definition detect :: "wrapper_vault \<Rightarrow> pubkey \<Rightarrow> pubkey \<Rightarrow> direction vres" where
  "detect wv input output =
     (if input = wv_underlying_mint wv \<and> output = wv_wrapper_mint wv then Ok Deposit
      else if input = wv_wrapper_mint wv \<and> output = wv_underlying_mint wv then Ok Withdraw
      else Err (InvalidMint (EStaticStr ''unsupported mint pair'')))"

lemma detect_no_panic [no_panic]: "detect wv i out \<noteq> Panic"
  by (simp add: detect_def)

lemma protocol_from_byte_no_panic [no_panic]: "protocol_from_byte b \<noteq> Panic"
  by (simp add: protocol_from_byte_def)

section \<open>The decoders\<close>

lemmas vault_consts = WRAPPER_VAULT_LEN_def WRAPPER_VAULT_VERSION_def PROTOCOL_DATA_LEN_def
  GLOBAL_CONFIG_LEN_def

text \<open>What a well-formed vault account decodes to: every field at its place.\<close>

definition wrapper_vault_of :: "bytes \<Rightarrow> wrapper_vault" where
  "wrapper_vault_of data =
     \<lparr> wv_version = data ! 8, wv_bump = data ! 9, wv_vault_authority_bump = data ! 10,
       wv_protocol = data ! 11, wv_creation_timestamp = from_le_bytes (field data 12 8),
       wv_creator = field data 20 32, wv_wrapper_mint = field data 52 32,
       wv_underlying_mint = field data 84 32, wv_source_pool = field data 116 32,
       wv_source_position_pda = field data 148 32,
       wv_creator_deposit_fee_bps = from_le_bytes (field data 180 2),
       wv_intermediate_held = from_le_bytes (field data 182 16),
       wv_free_underlying_held = from_le_bytes (field data 198 8),
       wv_accumulated_creator_fees = from_le_bytes (field data 206 8),
       wv_accumulated_protocol_fees = from_le_bytes (field data 214 8),
       wv_wrapper_supply = from_le_bytes (field data 222 8),
       wv_protocol_data = field data 230 200 \<rparr>"

lemma decode_wrapper_vault_eq:
  "decode_wrapper_vault data =
     (if length data < 558 then Err (deser_err ''wrapper_vault: length'')
      else if take 8 data \<noteq> WRAPPER_VAULT_DISCRIMINATOR
      then Err (deser_err ''wrapper_vault: discriminator'')
      else if data ! 8 \<noteq> 1 then Err (deser_err ''unsupported wrapper_vault version'')
      else Ok (wrapper_vault_of data))"
  by (simp add: decode_wrapper_vault_def vault_consts index_at_def slice_def get_slice_def
      read_eqs try_array_def wrapper_vault_of_def)

lemma decode_global_config_eq:
  "decode_global_config data =
     (if length data < 150 then Err (deser_err ''global_config: length'')
      else if take 8 data \<noteq> GLOBAL_CONFIG_DISCRIMINATOR
      then Err (deser_err ''global_config: discriminator'')
      else Ok \<lparr> gc_paused = (data ! 9 \<noteq> 0),
                gc_protocol_deposit_fee_bps = from_le_bytes (field data 82 2) \<rparr>)"
  by (simp add: decode_global_config_def vault_consts index_at_def slice_def get_slice_def read_eqs)

lemma decode_no_panic [no_panic]:
  "decode_wrapper_vault data \<noteq> Panic" "decode_global_config data \<noteq> Panic"
  by (simp_all add: decode_wrapper_vault_eq decode_global_config_eq)

section \<open>The account layout\<close>

text \<open>
  The layout the decoder reads, as an encoder: the fields in account order, with no gap up to the
  protocol data and the rest of the 558 bytes unused.
\<close>

definition encode_wrapper_vault :: "wrapper_vault \<Rightarrow> bytes" where
  "encode_wrapper_vault wv =
     WRAPPER_VAULT_DISCRIMINATOR @
     [wv_version wv, wv_bump wv, wv_vault_authority_bump wv, wv_protocol wv] @
     to_le_bytes 8 (wv_creation_timestamp wv) @ wv_creator wv @ wv_wrapper_mint wv @
     wv_underlying_mint wv @ wv_source_pool wv @ wv_source_position_pda wv @
     to_le_bytes 2 (wv_creator_deposit_fee_bps wv) @ to_le_bytes 16 (wv_intermediate_held wv) @
     to_le_bytes 8 (wv_free_underlying_held wv) @ to_le_bytes 8 (wv_accumulated_creator_fees wv) @
     to_le_bytes 8 (wv_accumulated_protocol_fees wv) @ to_le_bytes 8 (wv_wrapper_supply wv) @
     wv_protocol_data wv @ replicate 128 0"

definition wf_wrapper_vault :: "wrapper_vault \<Rightarrow> bool" where
  "wf_wrapper_vault wv \<longleftrightarrow>
     wv_version wv = WRAPPER_VAULT_VERSION \<and>
     length (wv_creator wv) = 32 \<and> length (wv_wrapper_mint wv) = 32 \<and>
     length (wv_underlying_mint wv) = 32 \<and> length (wv_source_pool wv) = 32 \<and>
     length (wv_source_position_pda wv) = 32 \<and> length (wv_protocol_data wv) = PROTOCOL_DATA_LEN"

lemma length_discriminators [simp]:
  "length WRAPPER_VAULT_DISCRIMINATOR = 8" "length GLOBAL_CONFIG_DISCRIMINATOR = 8"
  by (simp_all add: WRAPPER_VAULT_DISCRIMINATOR_def GLOBAL_CONFIG_DISCRIMINATOR_def)

text \<open>Decoding yields a well-formed vault.\<close>

lemma decode_wrapper_vault_wf:
  "decode_wrapper_vault data = Ok wv \<Longrightarrow> wf_wrapper_vault wv"
  by (auto simp: decode_wrapper_vault_eq wf_wrapper_vault_def wrapper_vault_of_def vault_consts
      split: if_splits)

text \<open>
  C39. The decoder reads every field at its place: a well-formed vault written in the account
  layout decodes to itself.
\<close>

theorem decode_encode_wrapper_vault:
  assumes "wf_wrapper_vault wv"
  shows "decode_wrapper_vault (encode_wrapper_vault wv) = Ok wv"
  using assms
  by (cases wv)
    (simp add: decode_wrapper_vault_eq wrapper_vault_of_def encode_wrapper_vault_def
      wf_wrapper_vault_def vault_consts from_to_le_bytes nth_append)

lemma decode_encode_wrapper_vault_witness:
  "\<exists>wv. wv_wrapper_supply wv = 77 \<and> decode_wrapper_vault (encode_wrapper_vault wv) = Ok wv"
proof -
  define wv where "wv = \<lparr> wv_version = 1, wv_bump = 2, wv_vault_authority_bump = 3,
    wv_protocol = 4, wv_creation_timestamp = 5, wv_creator = replicate 32 1,
    wv_wrapper_mint = replicate 32 2, wv_underlying_mint = replicate 32 3,
    wv_source_pool = replicate 32 4, wv_source_position_pda = replicate 32 5,
    wv_creator_deposit_fee_bps = 10, wv_intermediate_held = 6, wv_free_underlying_held = 7,
    wv_accumulated_creator_fees = 8, wv_accumulated_protocol_fees = 9, wv_wrapper_supply = 77,
    wv_protocol_data = replicate 200 0 \<rparr>"
  have "wf_wrapper_vault wv" by (simp add: wf_wrapper_vault_def wv_def vault_consts)
  moreover have "wv_wrapper_supply wv = 77" by (simp add: wv_def)
  ultimately show ?thesis using decode_encode_wrapper_vault [of wv] by blast
qed

text \<open>
  The decoders of the program's own accounts never panic, and accept exactly the data that is
  long enough and starts with the right discriminator (and, for a vault, has version 1).
\<close>

theorem decoders_outcome:
  "decode_wrapper_vault data \<noteq> Panic \<and> decode_global_config data \<noteq> Panic \<and>
   (is_ok (decode_wrapper_vault data) =
      (558 \<le> length data \<and> take 8 data = WRAPPER_VAULT_DISCRIMINATOR \<and> data ! 8 = 1)) \<and>
   (is_ok (decode_global_config data) =
      (150 \<le> length data \<and> take 8 data = GLOBAL_CONFIG_DISCRIMINATOR))"
  by (simp add: decode_wrapper_vault_eq decode_global_config_eq)

end
