(* ===== verification/Raydium_State.thy ===== *)
theory Raydium_State
  imports Raydium_Math Wrapper_Vault
begin

text \<open>
  The account of a Raydium pool (\<open>src/src/example/raydium/state.rs\<close>): its status, its layout and its
  decoding; the authority of the program (\<open>processor.rs\<close>), the swap instruction (\<open>instruction.rs\<close>) and
  the functions of \<open>amm.rs\<close> that read pools and build swaps.

  The structs are \<open>repr(C, packed)\<close>: their bytes are those of the fields, in order and without gaps,
  integers little-endian. A layout is the list of the widths of the fields; a cast from bytes splits
  the input by it.
\<close>

section \<open>Status (\<open>state.rs\<close>)\<close>

datatype amm_status =
    Uninitialized | Initialized | Disabled | WithdrawOnly | LiquidityOnly | OrderBookOnly
  | SwapOnly | WaitingTrade

text \<open>Any other number is \<open>unreachable!()\<close>.\<close>

definition amm_status_from_u64 :: "u64 \<Rightarrow> amm_status vres" where
  "amm_status_from_u64 status =
     (if status = 0 then Ok Uninitialized
      else if status = 1 then Ok Initialized
      else if status = 2 then Ok Disabled
      else if status = 3 then Ok WithdrawOnly
      else if status = 4 then Ok LiquidityOnly
      else if status = 5 then Ok OrderBookOnly
      else if status = 6 then Ok SwapOnly
      else if status = 7 then Ok WaitingTrade
      else Panic)"

fun orderbook_permission :: "amm_status \<Rightarrow> bool" where
  "orderbook_permission Uninitialized = False"
| "orderbook_permission Initialized = True"
| "orderbook_permission Disabled = False"
| "orderbook_permission WithdrawOnly = False"
| "orderbook_permission LiquidityOnly = False"
| "orderbook_permission OrderBookOnly = True"
| "orderbook_permission SwapOnly = False"
| "orderbook_permission WaitingTrade = False"

section \<open>Layout (\<open>state.rs\<close>)\<close>

record fees =
  fe_min_separate_numerator :: u64
  fe_min_separate_denominator :: u64
  fe_trade_fee_numerator :: u64
  fe_trade_fee_denominator :: u64
  fe_pnl_numerator :: u64
  fe_pnl_denominator :: u64
  fe_swap_fee_numerator :: u64
  fe_swap_fee_denominator :: u64

record state_data =
  sd_need_take_pnl_coin :: u64
  sd_need_take_pnl_pc :: u64
  sd_total_pnl_pc :: u64
  sd_total_pnl_coin :: u64
  sd_pool_open_time :: u64
  sd_punish_pc_amount :: u64
  sd_punish_coin_amount :: u64
  sd_orderbook_to_init_time :: u64
  sd_swap_coin_in_amount :: u128
  sd_swap_pc_out_amount :: u128
  sd_swap_acc_pc_fee :: u64
  sd_swap_pc_in_amount :: u128
  sd_swap_coin_out_amount :: u128
  sd_swap_acc_coin_fee :: u64

record amm_info =
  ai_status :: u64
  ai_nonce :: u64
  ai_order_num :: u64
  ai_depth :: u64
  ai_coin_decimals :: u64
  ai_pc_decimals :: u64
  ai_state :: u64
  ai_reset_flag :: u64
  ai_min_size :: u64
  ai_vol_max_cut_ratio :: u64
  ai_amount_wave :: u64
  ai_coin_lot_size :: u64
  ai_pc_lot_size :: u64
  ai_min_price_multiplier :: u64
  ai_max_price_multiplier :: u64
  ai_sys_decimal_value :: u64
  ai_fees :: fees
  ai_state_data :: state_data
  ai_coin_vault :: pubkey
  ai_pc_vault :: pubkey
  ai_coin_vault_mint :: pubkey
  ai_pc_vault_mint :: pubkey
  ai_lp_mint :: pubkey
  ai_open_orders :: pubkey
  ai_market :: pubkey
  ai_market_program :: pubkey
  ai_target_orders :: pubkey
  ai_withdraw_queue :: pubkey
  ai_lp_vault :: pubkey
  ai_amm_owner :: pubkey
  ai_lp_amount :: u64
  ai_client_order_id :: u64
  ai_padding :: "u64 list"

text \<open>The widths of the fields, and the bytes split by them.\<close>

definition fees_layout :: "nat list" where
  "fees_layout = replicate 8 8"

definition state_data_layout :: "nat list" where
  "state_data_layout = [8, 8, 8, 8, 8, 8, 8, 8, 16, 16, 8, 16, 16, 8]"

definition amm_info_layout :: "nat list" where
  "amm_info_layout =
     replicate 16 8 @ fees_layout @ state_data_layout @ replicate 12 32 @ [8, 8, 8, 8]"

fun split_fields :: "nat list \<Rightarrow> bytes \<Rightarrow> bytes list" where
  "split_fields [] bs = []"
| "split_fields (n # ns) bs = take n bs # split_fields ns (drop n bs)"

definition fees_of_fields :: "bytes list \<Rightarrow> fees" where
  "fees_of_fields fs =
     \<lparr> fe_min_separate_numerator = from_le_bytes (fs ! 0),
       fe_min_separate_denominator = from_le_bytes (fs ! 1),
       fe_trade_fee_numerator = from_le_bytes (fs ! 2),
       fe_trade_fee_denominator = from_le_bytes (fs ! 3),
       fe_pnl_numerator = from_le_bytes (fs ! 4), fe_pnl_denominator = from_le_bytes (fs ! 5),
       fe_swap_fee_numerator = from_le_bytes (fs ! 6),
       fe_swap_fee_denominator = from_le_bytes (fs ! 7) \<rparr>"

definition state_data_of_fields :: "bytes list \<Rightarrow> state_data" where
  "state_data_of_fields fs =
     \<lparr> sd_need_take_pnl_coin = from_le_bytes (fs ! 0),
       sd_need_take_pnl_pc = from_le_bytes (fs ! 1), sd_total_pnl_pc = from_le_bytes (fs ! 2),
       sd_total_pnl_coin = from_le_bytes (fs ! 3), sd_pool_open_time = from_le_bytes (fs ! 4),
       sd_punish_pc_amount = from_le_bytes (fs ! 5),
       sd_punish_coin_amount = from_le_bytes (fs ! 6),
       sd_orderbook_to_init_time = from_le_bytes (fs ! 7),
       sd_swap_coin_in_amount = from_le_bytes (fs ! 8),
       sd_swap_pc_out_amount = from_le_bytes (fs ! 9),
       sd_swap_acc_pc_fee = from_le_bytes (fs ! 10),
       sd_swap_pc_in_amount = from_le_bytes (fs ! 11),
       sd_swap_coin_out_amount = from_le_bytes (fs ! 12),
       sd_swap_acc_coin_fee = from_le_bytes (fs ! 13) \<rparr>"

definition amm_info_of_bytes :: "bytes \<Rightarrow> amm_info" where
  "amm_info_of_bytes bs =
     (let fs = split_fields amm_info_layout bs
      in \<lparr> ai_status = from_le_bytes (fs ! 0), ai_nonce = from_le_bytes (fs ! 1),
           ai_order_num = from_le_bytes (fs ! 2), ai_depth = from_le_bytes (fs ! 3),
           ai_coin_decimals = from_le_bytes (fs ! 4), ai_pc_decimals = from_le_bytes (fs ! 5),
           ai_state = from_le_bytes (fs ! 6), ai_reset_flag = from_le_bytes (fs ! 7),
           ai_min_size = from_le_bytes (fs ! 8), ai_vol_max_cut_ratio = from_le_bytes (fs ! 9),
           ai_amount_wave = from_le_bytes (fs ! 10), ai_coin_lot_size = from_le_bytes (fs ! 11),
           ai_pc_lot_size = from_le_bytes (fs ! 12),
           ai_min_price_multiplier = from_le_bytes (fs ! 13),
           ai_max_price_multiplier = from_le_bytes (fs ! 14),
           ai_sys_decimal_value = from_le_bytes (fs ! 15),
           ai_fees = fees_of_fields (take 8 (drop 16 fs)),
           ai_state_data = state_data_of_fields (take 14 (drop 24 fs)), ai_coin_vault = fs ! 38,
           ai_pc_vault = fs ! 39, ai_coin_vault_mint = fs ! 40, ai_pc_vault_mint = fs ! 41,
           ai_lp_mint = fs ! 42, ai_open_orders = fs ! 43, ai_market = fs ! 44,
           ai_market_program = fs ! 45, ai_target_orders = fs ! 46, ai_withdraw_queue = fs ! 47,
           ai_lp_vault = fs ! 48, ai_amm_owner = fs ! 49, ai_lp_amount = from_le_bytes (fs ! 50),
           ai_client_order_id = from_le_bytes (fs ! 51),
           ai_padding = [from_le_bytes (fs ! 52), from_le_bytes (fs ! 53)] \<rparr>)"

text \<open>\<open>size_of::<AmmInfo>()\<close>.\<close>

definition amm_info_size :: nat where
  "amm_info_size = sum_list amm_info_layout"

text \<open>\<open>Loadable::load_from_bytes\<close>: the result is never an error, the cast panics instead.\<close>

definition load_from_bytes :: "amm_crates \<Rightarrow> bytes \<Rightarrow> amm_info vres" where
  "load_from_bytes R data =
     and_then (or_panic (from_bytes_of_size R amm_info_size data)) (\<lambda>bs. Ok (amm_info_of_bytes bs))"

text \<open>\<open>Pack for Fees\<close>: a slice that is too short for \<open>array_ref!\<close> panics.\<close>

definition fees_pack_into_slice :: "fees \<Rightarrow> bytes \<Rightarrow> bytes vres" where
  "fees_pack_into_slice self output =
     and_then (slice output 0 64) (\<lambda>_.
     Ok (concat [to_le_bytes 8 (fe_min_separate_numerator self), to_le_bytes 8 (fe_min_separate_denominator self),
         to_le_bytes 8 (fe_trade_fee_numerator self),
         to_le_bytes 8 (fe_trade_fee_denominator self), to_le_bytes 8 (fe_pnl_numerator self),
         to_le_bytes 8 (fe_pnl_denominator self), to_le_bytes 8 (fe_swap_fee_numerator self),
         to_le_bytes 8 (fe_swap_fee_denominator self)] @ drop 64 output))"

definition fees_unpack_from_slice :: "bytes \<Rightarrow> fees vres" where
  "fees_unpack_from_slice input =
     and_then (slice input 0 64) (\<lambda>bs. Ok (fees_of_fields (split_fields fees_layout bs)))"

section \<open>Authority and instruction (\<open>processor.rs\<close>, \<open>instruction.rs\<close>)\<close>

definition AUTHORITY_AMM :: bytes where "AUTHORITY_AMM = byte_str ''amm authority''"

definition authority_id :: "amm_crates \<Rightarrow> pubkey \<Rightarrow> bytes \<Rightarrow> u8 \<Rightarrow> (amm_error, pubkey) outcome" where
  "authority_id R program_id amm_seed nonce =
     ok_or (create_program_address R [amm_seed, [nonce]] program_id) InvalidProgramAddress"

record swap_instruction_base_in =
  si_amount_in :: u64
  si_minimum_amount_out :: u64

datatype amm_instruction = SwapBaseInV2 swap_instruction_base_in

fun amm_instruction_pack :: "amm_instruction \<Rightarrow> bytes" where
  "amm_instruction_pack (SwapBaseInV2 si) =
     [16] @ to_le_bytes 8 (si_amount_in si) @ to_le_bytes 8 (si_minimum_amount_out si)"

definition swap_base_in_v2 ::
    "crates \<Rightarrow> pubkey \<Rightarrow> pubkey \<Rightarrow> pubkey \<Rightarrow> pubkey \<Rightarrow> pubkey \<Rightarrow> pubkey \<Rightarrow> pubkey \<Rightarrow> pubkey \<Rightarrow> u64 \<Rightarrow> u64 \<Rightarrow>
      instruction vres" where
  "swap_base_in_v2 E amm_program amm_pool amm_authority amm_coin_vault amm_pc_vault
       user_token_source user_token_destination user_source_owner amount_in minimum_amount_out =
     (let data = amm_instruction_pack (SwapBaseInV2
            \<lparr> si_amount_in = amount_in, si_minimum_amount_out = minimum_amount_out \<rparr>);
          accounts =
            [meta_new_readonly (spl_token_id E) False,
             meta_new amm_pool False,
             meta_new_readonly amm_authority False,
             meta_new amm_coin_vault False,
             meta_new amm_pc_vault False,
             meta_new user_token_source False,
             meta_new user_token_destination False,
             meta_new_readonly user_source_owner True]
      in Ok \<lparr> ix_program_id = amm_program, ix_accounts = accounts, ix_data = data \<rparr>)"

section \<open>Pools (\<open>amm.rs\<close>)\<close>

record amm_keys =
  ak_amm_pool :: pubkey
  ak_amm_coin_mint :: pubkey
  ak_amm_pc_mint :: pubkey
  ak_amm_authority :: pubkey
  ak_amm_target :: pubkey
  ak_amm_coin_vault :: pubkey
  ak_amm_pc_vault :: pubkey
  ak_amm_lp_mint :: pubkey
  ak_nonce :: u8

definition load_amm_keys :: "amm_crates \<Rightarrow> pubkey \<Rightarrow> pubkey \<Rightarrow> account \<Rightarrow> amm_keys vres" where
  "load_amm_keys R amm_program amm_key amm_pool_account =
     and_then (map_err (\<lambda>_. DeserializationFailed (EStaticStr ''Failed to load AmmInfo from bytes''))
                 (load_from_bytes R (acc_data amm_pool_account))) (\<lambda>amm.
     and_then (map_err (\<lambda>_. AmmMethodError (EStaticStr ''Failed to determine authority ID''))
                 (authority_id R amm_program AUTHORITY_AMM (ucast (ai_nonce amm)))) (\<lambda>authority.
     Ok \<lparr> ak_amm_pool = amm_key, ak_amm_coin_mint = ai_coin_vault_mint amm,
          ak_amm_pc_mint = ai_pc_vault_mint amm, ak_amm_authority = authority,
          ak_amm_target = ai_target_orders amm, ak_amm_coin_vault = ai_coin_vault amm,
          ak_amm_pc_vault = ai_pc_vault amm, ak_amm_lp_mint = ai_lp_mint amm,
          ak_nonce = ucast (ai_nonce amm) \<rparr>))"

text \<open>The pnl that is still to be taken out of the vaults is not part of the reserves (\<open>math.rs\<close>).\<close>

definition calc_total_without_take_pnl_no_orderbook ::
    "u64 \<Rightarrow> u64 \<Rightarrow> amm_info \<Rightarrow> (amm_error, u64 \<times> u64) outcome" where
  "calc_total_without_take_pnl_no_orderbook pc_amount coin_amount amm =
     and_then (ok_or (checked_sub pc_amount (sd_need_take_pnl_pc (ai_state_data amm)))
                 CheckedSubOverflow) (\<lambda>total_pc_without_take_pnl.
     and_then (ok_or (checked_sub coin_amount (sd_need_take_pnl_coin (ai_state_data amm)))
                 CheckedSubOverflow) (\<lambda>total_coin_without_take_pnl.
     Ok (total_pc_without_take_pnl, total_coin_without_take_pnl)))"

definition calculate_pool_vault_amounts_from_accounts ::
    "amm_crates \<Rightarrow> account option list \<Rightarrow> calculate_result vres" where
  "calculate_pool_vault_amounts_from_accounts R rsps =
     and_then (slice rsps 0 3) (\<lambda>accounts.
     and_then (ok_or (accounts ! 0) (MissingState (EStaticStr ''AMM account missing'')))
       (\<lambda>amm_account.
     and_then (ok_or (map_option amm_info_of_bytes
                        (transmute_one_of_size R amm_info_size (acc_data amm_account)))
                 (DeserializationFailed (EStaticStr ''Failed to deserialize AMM Info''))) (\<lambda>amm.
     and_then (ok_or (accounts ! 1) (MissingState (EStaticStr ''AMM PC vault account missing'')))
       (\<lambda>amm_pc_vault_account.
     and_then (ok_or (unpack_token_account R (acc_data amm_pc_vault_account))
                 (DeserializationFailed (EStaticStr ''Failed to deserialize token account'')))
       (\<lambda>amm_pc_vault_amount.
     and_then (ok_or (accounts ! 2) (MissingState (EStaticStr ''AMM Coin vault account missing'')))
       (\<lambda>amm_coin_vault_account.
     and_then (ok_or (unpack_token_account R (acc_data amm_coin_vault_account))
                 (DeserializationFailed (EStaticStr ''Failed to deserialize AMM coin vault'')))
       (\<lambda>amm_coin_vault_amount.
     and_then (amm_status_from_u64 (ai_status amm)) (\<lambda>status.
     and_then
       (if orderbook_permission status then
          Err (AmmMethodError (EStaticStr
            ''Pool has orderbook permission, not able to swap with v2 instruction''))
        else
          map_err (\<lambda>_. AmmMethodError (EStaticStr
              ''Failed to calculate total without take PNL with no orderbook''))
            (calc_total_without_take_pnl_no_orderbook amm_pc_vault_amount amm_coin_vault_amount amm))
       (\<lambda>(amm_pool_pc_vault_amount, amm_pool_coin_vault_amount).
     Ok \<lparr> cr_pool_pc_vault_amount = amm_pool_pc_vault_amount,
          cr_pool_coin_vault_amount = amm_pool_coin_vault_amount,
          cr_pool_lp_amount = ai_lp_amount amm,
          cr_swap_fee_numerator = fe_swap_fee_numerator (ai_fees amm),
          cr_swap_fee_denominator = fe_swap_fee_denominator (ai_fees amm) \<rparr>)))))))))"

text \<open>Only the base-in form is implemented; the other is \<open>unimplemented!()\<close>.\<close>

definition swap_v2 ::
    "crates \<Rightarrow> pubkey \<Rightarrow> amm_keys \<Rightarrow> pubkey \<Rightarrow> pubkey \<Rightarrow> pubkey \<Rightarrow> u64 \<Rightarrow> u64 \<Rightarrow> bool \<Rightarrow> instruction vres" where
  "swap_v2 E amm_program amm_keys user_owner user_source user_destination amount_specified
       other_amount_threshold swap_base_in =
     (if swap_base_in then
        map_err (\<lambda>_. AmmMethodError (EStaticStr ''Failed to perform v2 swap''))
          (swap_base_in_v2 E amm_program (ak_amm_pool amm_keys) (ak_amm_authority amm_keys)
             (ak_amm_coin_vault amm_keys) (ak_amm_pc_vault amm_keys) user_source user_destination
             user_owner amount_specified other_amount_threshold :: instruction vres)
      else Panic)"

section \<open>Lemmas\<close>

text \<open>Status numbers: the discriminants below 8, each its own status.\<close>

lemma u64_below_8: "(s :: u64) < 8 \<longleftrightarrow> s \<in> {0, 1, 2, 3, 4, 5, 6, 7}"
proof
  assume "s < 8"
  then have "unat s < 8" by (simp add: word_less_nat_alt)
  then have "unat s \<in> {0, 1, 2, 3, 4, 5, 6, 7}" by auto
  then have "word_of_nat (unat s) \<in> (word_of_nat ` {0, 1, 2, 3, 4, 5, 6, 7} :: u64 set)" by blast
  then show "s \<in> {0, 1, 2, 3, 4, 5, 6, 7}" by simp
qed (auto simp: word_less_nat_alt)

lemma amm_status_Panic_iff: "amm_status_from_u64 s = Panic \<longleftrightarrow> 8 \<le> s"
  using u64_below_8 [of s] by (auto simp: amm_status_from_u64_def not_less [symmetric])

lemma amm_status_not_Err [simp]: "amm_status_from_u64 s \<noteq> Err e"
  by (simp add: amm_status_from_u64_def)

lemma orderbook_status:
  "amm_status_from_u64 s = Ok st \<Longrightarrow> orderbook_permission st \<longleftrightarrow> s = 1 \<or> s = 5"
  by (auto simp: amm_status_from_u64_def split: if_splits)

text \<open>Splitting takes a concatenation apart again.\<close>

lemma split_fields_concat:
  "map length fs = ns \<Longrightarrow> split_fields ns (concat fs @ rest) = fs"
  by (induction fs arbitrary: ns) auto

text \<open>The bytes of a pool account, field by field.\<close>

definition fees_fields :: "fees \<Rightarrow> bytes list" where
  "fees_fields fe =
     [to_le_bytes 8 (fe_min_separate_numerator fe),
      to_le_bytes 8 (fe_min_separate_denominator fe), to_le_bytes 8 (fe_trade_fee_numerator fe),
      to_le_bytes 8 (fe_trade_fee_denominator fe), to_le_bytes 8 (fe_pnl_numerator fe),
      to_le_bytes 8 (fe_pnl_denominator fe), to_le_bytes 8 (fe_swap_fee_numerator fe),
      to_le_bytes 8 (fe_swap_fee_denominator fe)]"

definition state_data_fields :: "state_data \<Rightarrow> bytes list" where
  "state_data_fields sd =
     [to_le_bytes 8 (sd_need_take_pnl_coin sd), to_le_bytes 8 (sd_need_take_pnl_pc sd),
      to_le_bytes 8 (sd_total_pnl_pc sd), to_le_bytes 8 (sd_total_pnl_coin sd),
      to_le_bytes 8 (sd_pool_open_time sd), to_le_bytes 8 (sd_punish_pc_amount sd),
      to_le_bytes 8 (sd_punish_coin_amount sd), to_le_bytes 8 (sd_orderbook_to_init_time sd),
      to_le_bytes 16 (sd_swap_coin_in_amount sd), to_le_bytes 16 (sd_swap_pc_out_amount sd),
      to_le_bytes 8 (sd_swap_acc_pc_fee sd), to_le_bytes 16 (sd_swap_pc_in_amount sd),
      to_le_bytes 16 (sd_swap_coin_out_amount sd), to_le_bytes 8 (sd_swap_acc_coin_fee sd)]"

definition amm_info_fields :: "amm_info \<Rightarrow> bytes list" where
  "amm_info_fields ai =
     [to_le_bytes 8 (ai_status ai), to_le_bytes 8 (ai_nonce ai), to_le_bytes 8 (ai_order_num ai),
      to_le_bytes 8 (ai_depth ai), to_le_bytes 8 (ai_coin_decimals ai),
      to_le_bytes 8 (ai_pc_decimals ai), to_le_bytes 8 (ai_state ai),
      to_le_bytes 8 (ai_reset_flag ai), to_le_bytes 8 (ai_min_size ai),
      to_le_bytes 8 (ai_vol_max_cut_ratio ai), to_le_bytes 8 (ai_amount_wave ai),
      to_le_bytes 8 (ai_coin_lot_size ai), to_le_bytes 8 (ai_pc_lot_size ai),
      to_le_bytes 8 (ai_min_price_multiplier ai), to_le_bytes 8 (ai_max_price_multiplier ai),
      to_le_bytes 8 (ai_sys_decimal_value ai)] @
     fees_fields (ai_fees ai) @ state_data_fields (ai_state_data ai) @
     [ai_coin_vault ai, ai_pc_vault ai, ai_coin_vault_mint ai, ai_pc_vault_mint ai, ai_lp_mint ai,
      ai_open_orders ai, ai_market ai, ai_market_program ai, ai_target_orders ai,
      ai_withdraw_queue ai, ai_lp_vault ai, ai_amm_owner ai] @
     [to_le_bytes 8 (ai_lp_amount ai), to_le_bytes 8 (ai_client_order_id ai)] @
     map (to_le_bytes 8) (ai_padding ai)"

definition amm_info_bytes :: "amm_info \<Rightarrow> bytes" where
  "amm_info_bytes ai = concat (amm_info_fields ai)"

text \<open>The types the layout fixes: keys of 32 bytes and two words of padding.\<close>

definition wf_amm_info :: "amm_info \<Rightarrow> bool" where
  "wf_amm_info ai \<longleftrightarrow> length (ai_padding ai) = 2 \<and>
     list_all (\<lambda>k. length k = 32)
       [ai_coin_vault ai, ai_pc_vault ai, ai_coin_vault_mint ai, ai_pc_vault_mint ai,
        ai_lp_mint ai, ai_open_orders ai, ai_market ai, ai_market_program ai, ai_target_orders ai,
        ai_withdraw_queue ai, ai_lp_vault ai, ai_amm_owner ai]"

lemma amm_info_size_eq: "amm_info_size = 752"
  by (simp add: amm_info_size_def amm_info_layout_def fees_layout_def state_data_layout_def
      eval_nat_numeral)

lemma fees_of_fees_fields: "fees_of_fields (fees_fields fe) = fe"
  by (simp add: fees_of_fields_def fees_fields_def from_to_le_bytes)

lemma state_data_of_fields_fields: "state_data_of_fields (state_data_fields sd) = sd"
  by (simp add: state_data_of_fields_def state_data_fields_def from_to_le_bytes)

lemma fields_lengths:
  "length (fees_fields fe) = 8" "length (state_data_fields sd) = 14"
  "map length (fees_fields fe) = fees_layout" "map length (state_data_fields sd) = state_data_layout"
  by (simp_all add: fees_fields_def state_data_fields_def fees_layout_def state_data_layout_def
      eval_nat_numeral)

lemma wf_amm_info_padding:
  assumes "wf_amm_info ai"
  obtains p0 p1 where "ai_padding ai = [p0, p1]"
  using assms by (auto simp: wf_amm_info_def length_Suc_conv eval_nat_numeral)

lemma amm_info_fields_layout:
  assumes "wf_amm_info ai"
  shows "map length (amm_info_fields ai) = amm_info_layout"
proof (rule wf_amm_info_padding [OF assms])
  fix p0 p1 assume pad: "ai_padding ai = [p0, p1]"
  show ?thesis
    unfolding amm_info_fields_def amm_info_layout_def map_append fields_lengths(3,4)
    using assms by (simp add: wf_amm_info_def pad eval_nat_numeral)
qed

lemma amm_info_bytes_length: "wf_amm_info ai \<Longrightarrow> length (amm_info_bytes ai) = amm_info_size"
  by (simp add: amm_info_bytes_def length_concat amm_info_fields_layout amm_info_size_def)

lemma amm_info_of_bytes_bytes:
  assumes "wf_amm_info ai"
  shows "amm_info_of_bytes (amm_info_bytes ai @ rest) = ai"
proof (rule wf_amm_info_padding [OF assms])
  fix p0 p1 assume pad: "ai_padding ai = [p0, p1]"
  have fs: "split_fields amm_info_layout (amm_info_bytes ai @ rest) = amm_info_fields ai"
    unfolding amm_info_bytes_def by (rule split_fields_concat [OF amm_info_fields_layout [OF assms]])
  have parts: "take 8 (drop 16 (amm_info_fields ai)) = fees_fields (ai_fees ai)"
    "take 14 (drop 24 (amm_info_fields ai)) = state_data_fields (ai_state_data ai)"
    by (simp_all add: amm_info_fields_def fields_lengths(1,2))
  show ?thesis
    unfolding amm_info_of_bytes_def Let_def fs parts fees_of_fees_fields state_data_of_fields_fields
    by (simp add: amm_info_fields_def nth_append fields_lengths(1,2) pad from_to_le_bytes)
qed

lemma fees_round_trip:
  assumes "64 \<le> length output"
  shows "\<exists>bs. fees_pack_into_slice fe output = Ok bs \<and> fees_unpack_from_slice bs = Ok fe \<and>
    length bs = length output"
proof -
  define fs where "fs = fees_fields fe"
  have lens: "map length fs = fees_layout" by (simp add: fs_def fields_lengths)
  have "length (concat fs) = sum_list (map length fs)" by (simp add: length_concat)
  then have len: "length (concat fs) = 64"
    by (simp add: lens fees_layout_def eval_nat_numeral)
  have "fees_pack_into_slice fe output = Ok (concat fs @ drop 64 output)"
    using assms by (simp add: fees_pack_into_slice_def fs_def fees_fields_def slice_def get_slice_def)
  moreover have "fees_unpack_from_slice (concat fs @ drop 64 output) = Ok fe"
  proof -
    have "slice (concat fs @ drop 64 output) 0 64 = (Ok (concat fs) :: bytes vres)"
      using len by simp
    moreover have "split_fields fees_layout (concat fs) = fs"
      using split_fields_concat [OF lens, of "[]"] by simp
    ultimately show ?thesis
      by (simp add: fees_unpack_from_slice_def fs_def fees_of_fees_fields)
  qed
  ultimately show ?thesis using assms len by simp
qed

text \<open>What the pool amounts are computed from.\<close>

lemma calculate_pool_vault_amountsE:
  assumes "calculate_pool_vault_amounts_from_accounts R [a, b, c] = Ok cr"
  obtains pool pc_vault coin_vault bs pc coin where
    "a = Some pool" "b = Some pc_vault" "c = Some coin_vault"
    "transmute_one_of_size R amm_info_size (acc_data pool) = Some bs"
    "unpack_token_account R (acc_data pc_vault) = Some pc"
    "unpack_token_account R (acc_data coin_vault) = Some coin"
    "ai_status (amm_info_of_bytes bs) \<in> {0, 2, 3, 4, 6, 7}"
    "unat pc = unat (sd_need_take_pnl_pc (ai_state_data (amm_info_of_bytes bs)))
      + unat (cr_pool_pc_vault_amount cr)"
    "unat coin = unat (sd_need_take_pnl_coin (ai_state_data (amm_info_of_bytes bs)))
      + unat (cr_pool_coin_vault_amount cr)"
    "cr_swap_fee_numerator cr = fe_swap_fee_numerator (ai_fees (amm_info_of_bytes bs))"
    "cr_swap_fee_denominator cr = fe_swap_fee_denominator (ai_fees (amm_info_of_bytes bs))"
proof -
  from assms obtain pool bs pc_vault pc coin_vault coin st tpc tcoin where
    acc: "a = Some pool" "b = Some pc_vault" "c = Some coin_vault"
      "transmute_one_of_size R amm_info_size (acc_data pool) = Some bs"
      "unpack_token_account R (acc_data pc_vault) = Some pc"
      "unpack_token_account R (acc_data coin_vault) = Some coin"
    and st: "amm_status_from_u64 (ai_status (amm_info_of_bytes bs)) = Ok st" "\<not> orderbook_permission st"
    and total: "calc_total_without_take_pnl_no_orderbook pc coin (amm_info_of_bytes bs) = Ok (tpc, tcoin)"
    and cr: "cr = \<lparr> cr_pool_pc_vault_amount = tpc, cr_pool_coin_vault_amount = tcoin,
      cr_pool_lp_amount = ai_lp_amount (amm_info_of_bytes bs),
      cr_swap_fee_numerator = fe_swap_fee_numerator (ai_fees (amm_info_of_bytes bs)),
      cr_swap_fee_denominator = fe_swap_fee_denominator (ai_fees (amm_info_of_bytes bs)) \<rparr>"
    by (auto simp: calculate_pool_vault_amounts_from_accounts_def slice_def get_slice_def split: if_splits)
  have status: "ai_status (amm_info_of_bytes bs) \<in> {0, 2, 3, 4, 6, 7}"
    using st by (auto simp: amm_status_from_u64_def split: if_splits)
  from total have "unat pc = unat (sd_need_take_pnl_pc (ai_state_data (amm_info_of_bytes bs))) + unat tpc"
    "unat coin = unat (sd_need_take_pnl_coin (ai_state_data (amm_info_of_bytes bs))) + unat tcoin"
    by (auto simp: calc_total_without_take_pnl_no_orderbook_def checked_sub_Some)
  with acc status cr that show thesis by simp
qed

end
