(* ===== verification/Raydium_Curve.thy ===== *)
theory Raydium_Curve
  imports Raydium_Math
begin

text \<open>
  The constant-product curve over the natural numbers: what an exact-in swap takes as its fee and
  gives out, that this is what \<open>swap_exact_amount\<close> computes, and the laws of the curve. The product
  of the reserves never falls, the output stays below the reserve, and it grows with the input.
\<close>

section \<open>The curve\<close>

text \<open>The reserve behind the token that is sold and the one behind the token that is bought.\<close>

fun in_reserve :: "swap_direction \<Rightarrow> 'a \<Rightarrow> 'a \<Rightarrow> 'a" where
  "in_reserve PC2Coin pc coin = pc"
| "in_reserve Coin2PC pc coin = coin"

fun out_reserve :: "swap_direction \<Rightarrow> 'a \<Rightarrow> 'a \<Rightarrow> 'a" where
  "out_reserve PC2Coin pc coin = coin"
| "out_reserve Coin2PC pc coin = pc"

definition curve_out :: "nat \<Rightarrow> nat \<Rightarrow> nat \<Rightarrow> nat" where
  "curve_out x y n = y * n div (x + n)"

definition curve_fee :: "nat \<Rightarrow> nat \<Rightarrow> nat \<Rightarrow> nat" where
  "curve_fee num den amount = ceil_or_near (amount * num) den"

text \<open>An exact-in swap, every branch of it.\<close>

definition exact_in_spec :: "nat \<Rightarrow> nat \<Rightarrow> nat \<Rightarrow> nat \<Rightarrow> nat \<Rightarrow> nat vres" where
  "exact_in_spec x y num den amount =
     (let fee = curve_fee num den amount
      in if den = 0 then Err (math_err ''swap fee checked math error'')
         else if fee = 0 then Err (math_err ''Invalid fee amount'')
         else if amount < fee then
           Err (math_err ''swap_in_after_deduct_fee checked math error'')
         else if x + (amount - fee) = 0 then Panic
         else Ok (curve_out x y (amount - fee)))"

lemma curve_out_le: "curve_out x y n \<le> y"
proof (cases "x + n = 0")
  case False
  have "y * n \<le> y * (x + n)" by simp
  then have "y * n div (x + n) \<le> y * (x + n) div (x + n)" by (rule div_le_mono)
  with False show ?thesis by (simp add: curve_out_def)
qed (simp add: curve_out_def)

lemma curve_out_less: "0 < x \<Longrightarrow> 0 < y \<Longrightarrow> curve_out x y n < y"
  unfolding curve_out_def by (rule less_mult_imp_div_less) simp

text \<open>The product of the reserves never falls.\<close>

lemma curve_product:
  assumes "n \<le> amount"
  shows "x * y \<le> (x + amount) * (y - curve_out x y n)"
proof -
  have "curve_out x y n * (x + n) \<le> y * n" by (simp add: curve_out_def)
  then have "y * (x + n) - y * n \<le> y * (x + n) - curve_out x y n * (x + n)" by (rule diff_le_mono2)
  moreover have "y * (x + n) - curve_out x y n * (x + n) = (x + n) * (y - curve_out x y n)"
    by (simp add: diff_mult_distrib2 mult.commute)
  moreover have "y * (x + n) - y * n = x * y" by (simp add: add_mult_distrib2 mult.commute)
  ultimately have "x * y \<le> (x + n) * (y - curve_out x y n)" by simp
  also have "\<dots> \<le> (x + amount) * (y - curve_out x y n)" using assms by simp
  finally show ?thesis .
qed

text \<open>Fractions over the naturals, compared crosswise.\<close>

lemma div_le_cross:
  assumes "(p :: nat) * s \<le> r * q" "0 < q" "0 < s"
  shows "p div q \<le> r div s"
proof -
  have "p div q * q * s \<le> p * s" by simp
  also note assms(1)
  finally have "p div q * s * q \<le> r * q" by (simp add: ac_simps)
  then have "p div q * s \<le> r" using assms(2) by simp
  then show ?thesis using assms(3) by (simp add: less_eq_div_iff_mult_less_eq)
qed

lemma curve_out_mono:
  assumes "n \<le> m" "0 < x + n"
  shows "curve_out x y n \<le> curve_out x y m"
  unfolding curve_out_def
proof (rule div_le_cross)
  have "n * x \<le> m * x" using assms by simp
  then show "y * n * (x + m) \<le> y * m * (x + n)" by (simp add: algebra_simps)
qed (use assms in auto)

text \<open>A fee that is not 0 is the exact one rounded up, and it grows slower than the amount.\<close>

lemma curve_fee_pos:
  assumes "curve_fee num den amount \<noteq> 0" "0 < den"
  shows "curve_fee num den amount = ceil_quot (amount * num) den"
proof (cases "den \<le> amount * num")
  case True
  then show ?thesis by (simp add: curve_fee_def ceil_or_near_def)
next
  case False
  then have "curve_fee num den amount = 1" "den \<le> 2 * (amount * num)"
    using assms(1) by (simp_all add: curve_fee_def ceil_or_near_def split: if_splits)
  moreover from this(2) have "0 < amount * num" using assms(2) by (cases "amount * num") simp_all
  moreover have "ceil_quot (amount * num) den \<le> 1" using False assms by (simp add: ceil_quot_le_iff)
  ultimately show ?thesis using ceil_quot_pos [OF assms(2), of "amount * num"] by linarith
qed

lemma fee_rate_below_one:
  assumes "curve_fee num den amount \<noteq> 0" "0 < den" "curve_fee num den amount \<le> amount"
  shows "num \<le> den"
proof (rule ccontr)
  assume "\<not> num \<le> den"
  then have "den < num" by simp
  have "amount * num \<le> amount * den"
    using assms curve_fee_pos [OF assms(1,2)] by (simp add: ceil_quot_le_iff)
  moreover have "0 < amount" using assms by simp
  ultimately show False using \<open>den < num\<close> by simp
qed

lemma after_fee_mono:
  assumes "a \<le> b" "0 < den" "curve_fee num den a \<noteq> 0" "curve_fee num den b \<noteq> 0"
    "curve_fee num den a \<le> a"
  shows "a - curve_fee num den a \<le> b - curve_fee num den b"
proof -
  let ?f = "ceil_quot (a * num) den"
  have f: "curve_fee num den a = ?f" "curve_fee num den b = ceil_quot (b * num) den"
    using curve_fee_pos [of num den a] curve_fee_pos [of num den b] assms(2-4) by simp_all
  have "num \<le> den" by (rule fee_rate_below_one [OF assms(3,2,5)])
  then have rest: "(b - a) * num \<le> (b - a) * den" by (rule mult_le_mono2)
  have "a * num \<le> ?f * den" using assms(2) by (rule ceil_quot_ge)
  from add_mono [OF this rest] have "a * num + (b - a) * num \<le> ?f * den + (b - a) * den" .
  then have "b * num \<le> (?f + (b - a)) * den"
    using assms(1) by (metis add_mult_distrib le_add_diff_inverse)
  then have "ceil_quot (b * num) den \<le> ?f + (b - a)" using assms(2) by (simp add: ceil_quot_le_iff)
  with assms(1,5) f show ?thesis by simp
qed

lemma exact_in_spec_Ok:
  assumes "exact_in_spec x y num den amount = Ok out"
  shows "0 < den" "0 < curve_fee num den amount" "curve_fee num den amount \<le> amount"
    "0 < x + (amount - curve_fee num den amount)"
    "out = curve_out x y (amount - curve_fee num den amount)"
  using assms by (auto simp: exact_in_spec_def Let_def split: if_splits)

lemma exact_in_spec_mono:
  assumes "exact_in_spec x y num den a = Ok out" "exact_in_spec x y num den b = Ok out'" "a \<le> b"
  shows "out \<le> out'"
  using exact_in_spec_Ok [OF assms(1)] exact_in_spec_Ok [OF assms(2)] assms(3)
  by (auto intro!: curve_out_mono after_fee_mono)

text \<open>The amounts that can be sold form an interval: between two of them every amount can.\<close>

lemma curve_fee_nonzero: "0 < den \<Longrightarrow> curve_fee num den n \<noteq> 0 \<longleftrightarrow> den \<le> 2 * (n * num)"
proof -
  assume den: "0 < den"
  show ?thesis
  proof (cases "den \<le> n * num")
    case True
    then have "0 < n * num" using den by linarith
    from ceil_quot_pos [OF den this] True show ?thesis by (simp add: curve_fee_def ceil_or_near_def)
  qed (simp add: curve_fee_def ceil_or_near_def)
qed

lemma exact_in_spec_between:
  assumes "exact_in_spec x y num den a = Ok out" "a \<le> b"
  shows "\<exists>out'. exact_in_spec x y num den b = Ok out'"
proof -
  note ok = exact_in_spec_Ok [OF assms(1)]
  have rate: "num \<le> den" by (rule fee_rate_below_one [of num den a]) (use ok in simp_all)
  have "den \<le> 2 * (a * num)" using ok(1,2) curve_fee_nonzero [of den num a] by simp
  also have "\<dots> \<le> 2 * (b * num)" using assms(2) by simp
  finally have fee: "curve_fee num den b \<noteq> 0" using ok(1) curve_fee_nonzero [of den num b] by simp
  have "b * num \<le> b * den" using rate by simp
  then have le: "curve_fee num den b \<le> b"
    using curve_fee_pos [OF fee ok(1)] ok(1) by (simp add: ceil_quot_le_iff)
  have "a - curve_fee num den a \<le> b - curve_fee num den b"
    by (rule after_fee_mono) (use assms(2) ok fee in simp_all)
  with fee le ok(1,4) show ?thesis by (auto simp: exact_in_spec_def Let_def)
qed

section \<open>The code computes the curve\<close>

abbreviation map_word :: "nat vres \<Rightarrow> u64 vres" where
  "map_word r \<equiv> and_then r (\<lambda>n. Ok (word_of_nat n))"

lemma u64_product_fits: "unat (a :: u64) * unat (b :: u64) < 2 ^ 128"
proof -
  have "unat a * unat b < 2 ^ 64 * 2 ^ 64" by (rule mult_strict_mono) simp_all
  then show ?thesis by simp
qed

lemma checked_mul_u64:
  "\<exists>p. checked_mul (ucast (a :: u64) :: u128) (ucast (b :: u64)) = Some p \<and> unat p = unat a * unat b"
  using u64_product_fits [of a b] by (simp add: checked_mul_def unat_word_ariths)

lemma ceil_div_u64:
  assumes "unat p = unat (a :: u64) * unat (b :: u64)" "(c :: u64) \<noteq> 0"
  shows "\<exists>q d. checked_ceil_div p (ucast c) = Some (q, d) \<and>
    unat q = ceil_or_near (unat a * unat b) (unat c)"
proof (cases "unat p < unat c")
  case True
  then have "unat p * 2 < 2 ^ 128" using unat_lt_64 [of c] by (simp del: unat_lt_64)
  with True assms show ?thesis
    using checked_ceil_div_small [of p "ucast c"] by (simp add: ceil_or_near_def)
next
  case False
  with assms checked_ceil_div_large [of "ucast c" p] show ?thesis
    by (auto simp: ceil_or_near_def simp flip: unat_eq_zero)
qed

context amm_laws
begin

text \<open>The curve on reserves of 64 bits.\<close>

lemma base_in_eq:
  assumes "unat (n :: u128) < 2 ^ 64"
  shows "and_then (swap_token_amount_base_in R n (ucast (pc :: u64)) (ucast (coin :: u64)) dir)
      (\<lambda>out. or_panic (u128_as_u64 R out)) =
    (if unat (in_reserve dir pc coin) + unat n = 0 then Panic
     else Ok (word_of_nat (curve_out (unat (in_reserve dir pc coin))
       (unat (out_reserve dir pc coin)) (unat n))) :: u64 vres)"
proof -
  have curve: "and_then (or_panic (checked_add (ucast x :: u128) n)) (\<lambda>denominator.
      and_then (or_panic (checked_mul (ucast y) n)) (\<lambda>product.
      and_then (or_panic (checked_div product denominator)) (\<lambda>out. or_panic (try_u64 out)))) =
    (if unat x + unat n = 0 then Panic
     else Ok (word_of_nat (curve_out (unat x) (unat y) (unat n))) :: u64 vres)"
    for x y :: u64
  proof -
    have "unat x + unat n < 2 ^ 128" using assms unat_lt_64 [of x] by (simp del: unat_lt_64)
    then obtain s where s: "checked_add (ucast x :: u128) n = Some s" "unat s = unat x + unat n"
      by (auto simp: checked_add_def unat_word_ariths)
    have "unat y * unat n < 2 ^ 64 * 2 ^ 64"
      using assms unat_lt_64 [of y] by (intro mult_strict_mono) (simp_all del: unat_lt_64)
    then obtain p where p: "checked_mul (ucast y :: u128) n = Some p" "unat p = unat y * unat n"
      by (auto simp: checked_mul_def unat_word_ariths)
    show ?thesis
    proof (cases "unat x + unat n = 0")
      case True
      then have "s = 0" using s by (simp add: unat_eq_zero)
      with True s p show ?thesis by (simp add: checked_div_def)
    next
      case False
      then have "s \<noteq> 0" using s by auto
      then obtain o' where o': "checked_div p s = Some o'"
          "unat o' = curve_out (unat x) (unat y) (unat n)"
        using s p by (auto simp: checked_div_def curve_out_def unat_div)
      have "unat o' < 2 ^ 64"
        using curve_out_le [of "unat x" "unat y" "unat n"] unat_lt_64 [of y] o'(2)
        by (simp del: unat_lt_64)
      then have "try_u64 o' = Some (word_of_nat (unat o'))"
        by (simp add: try_u64_def)
      with False s p o' show ?thesis by simp
    qed
  qed
  show ?thesis
    by (cases dir) (simp_all add: swap_token_amount_base_in_def u128_laws curve and_then_assoc)
qed

text \<open>An exact-in swap is the curve, on every branch: refused, panicking or paid out.\<close>

lemma exact_in_eq:
  "swap_exact_amount R pc coin num den dir amount True =
     map_word (exact_in_spec (unat (in_reserve dir pc coin)) (unat (out_reserve dir pc coin))
       (unat num) (unat den) (unat amount))"
proof -
  obtain p where p: "checked_mul (ucast amount :: u128) (ucast num) = Some p"
      "unat p = unat amount * unat num"
    using checked_mul_u64 [of amount num] by blast
  show ?thesis
  proof (cases "den = 0")
    case True
    with p show ?thesis
      by (simp add: swap_exact_amount_def u128_laws U128_checked_ceil_div_eq exact_in_spec_def Let_def)
  next
    case den: False
    then obtain q d where q: "checked_ceil_div p (ucast den) = Some (q, d)"
        "unat q = curve_fee (unat num) (unat den) (unat amount)"
      using ceil_div_u64 [OF p(2) den] unfolding curve_fee_def by blast
    have q0: "q = 0 \<longleftrightarrow> curve_fee (unat num) (unat den) (unat amount) = 0"
      by (simp flip: q(2) add: unat_eq_zero)
    have den0: "unat den \<noteq> 0" using den by (simp add: unat_eq_zero)
    have step: "swap_exact_amount R pc coin num den dir amount True =
        (if q = 0 then Err (math_err ''Invalid fee amount'')
         else and_then (ok_or (checked_sub (ucast amount) q)
                 (math_err ''swap_in_after_deduct_fee checked math error'')) (\<lambda>n.
              and_then (swap_token_amount_base_in R n (ucast pc) (ucast coin) dir) (\<lambda>out.
              or_panic (u128_as_u64 R out))))"
      using p q by (simp add: swap_exact_amount_def u128_laws(1-5) U128_checked_ceil_div_eq)
    show ?thesis
    proof (cases "q \<noteq> 0 \<and> unat q \<le> unat amount")
      case True
      then have sub: "checked_sub (ucast amount :: u128) q = Some (ucast amount - q)"
        and n: "unat ((ucast amount :: u128) - q) = unat amount - unat q"
        by (simp_all add: checked_sub_def word_le_nat_alt unat_sub)
      have "unat ((ucast amount :: u128) - q) < 2 ^ 64"
        using unat_lt_64 [of amount] n by (simp del: unat_lt_64)
      from base_in_eq [OF this, of pc coin dir] step sub n True den0 q0 q(2) show ?thesis
        by (simp add: exact_in_spec_def Let_def)
    next
      case False
      then consider "q = 0" | "q \<noteq> 0" "unat amount < unat q" by linarith
      then show ?thesis
      proof cases
        case 1
        with step q0 den0 show ?thesis by (simp add: exact_in_spec_def Let_def)
      next
        case 2
        then have "checked_sub (ucast amount :: u128) q = None" by (simp add: checked_sub_None)
        with 2 step q0 den0 q(2) show ?thesis by (simp add: exact_in_spec_def Let_def)
      qed
    qed
  qed
qed

lemma exact_in_OkE:
  assumes "swap_exact_amount R pc coin num den dir amount True = Ok out"
  obtains "exact_in_spec (unat (in_reserve dir pc coin)) (unat (out_reserve dir pc coin))
    (unat num) (unat den) (unat amount) = Ok (unat out)"
proof -
  from assms obtain n where n: "exact_in_spec (unat (in_reserve dir pc coin))
      (unat (out_reserve dir pc coin)) (unat num) (unat den) (unat amount) = Ok n"
      "out = word_of_nat n"
    by (auto simp: exact_in_eq)
  have "n \<le> unat (out_reserve dir pc coin)"
    using exact_in_spec_Ok(5) [OF n(1)] by (simp add: curve_out_le)
  then have "unat (word_of_nat n :: u64) = n" by (rule le_unat_uoi)
  with n that show thesis by simp
qed

text \<open>
  An exact-out swap of the whole output reserve or more panics: the subtraction from the reserve,
  or the division by what is left of it, is unwrapped.
\<close>

lemma exact_out_panics:
  assumes "out_reserve dir pc coin \<le> amount"
  shows "swap_exact_amount R pc coin num den dir amount False = Panic"
proof -
  have base: "and_then (or_panic (checked_sub (ucast y :: u128) (ucast amount))) (\<lambda>denominator.
      and_then (or_panic (checked_mul (ucast x) (ucast amount))) (\<lambda>product.
      and_then (or_panic (checked_ceil_div product denominator)) (\<lambda>(amount_in, _). Ok amount_in)))
      = (Panic :: u128 vres)" if "y \<le> amount" for x y :: u64
  proof (cases "y = amount")
    case True
    then show ?thesis using checked_mul_u64 [of x amount] by (auto simp: checked_sub_def)
  next
    case False
    with that have "unat y < unat amount" by (metis order_le_neq_trans word_less_nat_alt)
    then have "checked_sub (ucast y :: u128) (ucast amount) = None" by (simp add: checked_sub_None)
    then show ?thesis by simp
  qed
  have "swap_token_amount_base_out R (ucast amount) (ucast pc) (ucast coin) dir = Panic"
    using base assms
    by (cases dir) (simp_all add: swap_token_amount_base_out_def u128_laws U128_checked_ceil_div_eq)
  then show ?thesis by (simp add: swap_exact_amount_def)
qed

end

section \<open>Slippage\<close>

lemma min_amount_no_slippage [simp]: "min_amount_with_slippage a 0 = Ok a"
proof -
  have "unat a * 10000 < 2 ^ 128" using unat_lt_64 [of a] by (simp del: unat_lt_64)
  then have "checked_mul (ucast a :: u128) 10000 = Some (ucast a * 10000)"
    "unat (ucast a * 10000 :: u128) = unat a * 10000"
    by (simp_all add: checked_mul_def unat_word_ariths)
  moreover from this(2) have "unat ((ucast a * 10000 :: u128) div 10000) = unat a"
    by (simp add: unat_div)
  ultimately show ?thesis
    by (simp add: min_amount_with_slippage_def TEN_THOUSAND_def TEN_THOUSAND_U128_def
        saturating_sub_def try_u64_Some)
qed

text \<open>The least output after slippage never exceeds the output and never panics.\<close>

lemma min_amount_with_slippage_le:
  "\<exists>r. min_amount_with_slippage a bps = Ok r \<and> unat r = unat a * (10000 - unat bps) div 10000 \<and> r \<le> a"
proof -
  let ?m = "saturating_sub TEN_THOUSAND bps"
  have m: "unat ?m = 10000 - unat bps" by (simp add: unat_saturating_sub TEN_THOUSAND_def)
  obtain p where p: "checked_mul (ucast a :: u128) (ucast ?m) = Some p" "unat p = unat a * unat ?m"
    using checked_mul_u64 [of a ?m] by blast
  have "unat a * (10000 - unat bps) \<le> unat a * 10000" by (rule mult_le_mono2) simp
  then have "unat a * (10000 - unat bps) div 10000 \<le> unat a * 10000 div 10000" by (rule div_le_mono)
  then have le: "unat (p div TEN_THOUSAND_U128) \<le> unat a"
    by (simp add: unat_div p m TEN_THOUSAND_U128_def)
  then have lt: "unat (p div TEN_THOUSAND_U128) < 2 ^ 64"
    using unat_lt_64 [of a] by (simp del: unat_lt_64)
  then have r: "try_u64 (p div TEN_THOUSAND_U128) = Some (ucast (p div TEN_THOUSAND_U128))"
    by (simp add: try_u64_def)
  then have u: "unat (ucast (p div TEN_THOUSAND_U128) :: u64) = unat (p div TEN_THOUSAND_U128)"
    by (simp only: try_u64_Some)
  show ?thesis
    using p r u le by (auto simp: min_amount_with_slippage_def word_le_nat_alt unat_div m TEN_THOUSAND_U128_def)
qed

section \<open>The price\<close>

text \<open>With a fee of at most the whole input the price is a number, and falls with the amount.\<close>

lemma f64_exponent_unique:
  assumes "2 powi e \<le> q" "q < 2 powi (e + 1)"
  shows "f64_exponent q = e"
proof -
  have "0 < q" using assms(1) zero_less_power_int [of "2 :: rat" e] by linarith
  note bounds = f64_exponent_bounds [OF this]
  have "(2 :: rat) powi e < 2 powi (f64_exponent q + 1)" "(2 :: rat) powi f64_exponent q < 2 powi (e + 1)"
    using assms bounds by linarith+
  then have "e < f64_exponent q + 1" "f64_exponent q < e + 1"
    by (metis not_le one_le_numeral power_int_increasing)+
  then show ?thesis by simp
qed

lemma f64_round_half [simp]: "f64_round (1 / 2) = 1 / 2"
proof -
  have "f64_exponent (1 / 2) = - 1" by (rule f64_exponent_unique) (simp_all add: power_int_minus)
  then show ?thesis using round_half_even_int [of "2 ^ 52"] by (simp add: f64_round_def power_int_minus)
qed

text \<open>A fee rate of an eighth or less keeps half of the input at least.\<close>

lemma small_fee:
  assumes "8 * unat num \<le> unat den" "den \<noteq> 0"
  shows "f64_div (f64_of_u64 num) (f64_of_u64 den) \<le> 1 / 2"
proof (cases "num = 0")
  case True
  then show ?thesis by (simp add: f64_div_def f64_of_u64_def)
next
  case False
  let ?n = "of_nat (unat num) :: rat" and ?d = "of_nat (unat den) :: rat"
  have pos: "0 < ?n" "0 < ?d" using False assms(2) by (simp_all only: of_nat_0_less_iff unat_gt_0 not_False_eq_True)
  have "of_nat (8 * unat num) \<le> ?d" using assms(1) by (simp only: of_nat_le_iff)
  then have le: "8 * ?n \<le> ?d" by simp
  have "f64_of_u64 num \<le> 2 powi (f64_exponent ?n + 1)" "2 powi f64_exponent ?n \<le> ?n"
    using f64_round_binade [OF pos(1)] f64_exponent_bounds [OF pos(1)] by (simp_all add: f64_of_u64_def)
  then have num: "f64_of_u64 num \<le> 2 * ?n" by (simp add: power_int_add)
  have "2 powi f64_exponent ?d \<le> f64_of_u64 den" "?d < 2 powi (f64_exponent ?d + 1)"
    using f64_round_binade [OF pos(2)] f64_exponent_bounds [OF pos(2)] by (simp_all add: f64_of_u64_def)
  then have "?d \<le> 2 * f64_of_u64 den" by (simp add: power_int_add)
  with num le have "2 * f64_of_u64 num \<le> f64_of_u64 den" by linarith
  moreover have "0 < f64_of_u64 den" using assms(2) by (rule f64_of_u64_pos)
  ultimately have "f64_of_u64 num / f64_of_u64 den \<le> 1 / 2" by (simp add: field_simps)
  then show ?thesis unfolding f64_div_def using f64_round_mono f64_round_half by metis
qed

lemma amm_price_eq:
  assumes "in_reserve dir (cr_pool_pc_vault_amount cr) (cr_pool_coin_vault_amount cr) \<noteq> 0"
    "cr_swap_fee_numerator cr \<le> cr_swap_fee_denominator cr"
  obtains keep y x where "0 \<le> keep" "0 \<le> y" "0 < x"
    "y = f64_of_u64 (out_reserve dir (cr_pool_pc_vault_amount cr) (cr_pool_coin_vault_amount cr))"
    "8 * unat (cr_swap_fee_numerator cr) \<le> unat (cr_swap_fee_denominator cr) \<Longrightarrow> 0 < keep"
    "\<And>a. amm_price cr dir a = F64 (f64_sround (f64_mul (f64_mul y keep) x /
      f64_mul (f64_add x (f64_mul keep (f64_of_u64 a))) (f64_add x (f64_mul keep (f64_of_u64 a)))))"
    "\<And>a. 0 < f64_add x (f64_mul keep (f64_of_u64 a))"
proof -
  let ?num = "cr_swap_fee_numerator cr" and ?den = "cr_swap_fee_denominator cr"
  define fee where "fee = (if ?den = 0 then 0 else f64_div (f64_of_u64 ?num) (f64_of_u64 ?den))"
  define keep where "keep = f64_sub 1 fee"
  define x where "x = f64_of_u64 (in_reserve dir (cr_pool_pc_vault_amount cr) (cr_pool_coin_vault_amount cr))"
  define y where "y = f64_of_u64 (out_reserve dir (cr_pool_pc_vault_amount cr) (cr_pool_coin_vault_amount cr))"
  have nonneg: "0 \<le> f64_of_u64 a" for a by (simp add: f64_of_u64_def f64_round_nonneg)
  have fee1: "fee \<le> 1"
  proof (cases "?den = 0")
    case False
    then have "0 < f64_of_u64 ?den" by (rule f64_of_u64_pos)
    with f64_of_u64_mono [OF assms(2)] have "f64_of_u64 ?num / f64_of_u64 ?den \<le> 1" by simp
    then have "f64_div (f64_of_u64 ?num) (f64_of_u64 ?den) \<le> f64_round 1"
      unfolding f64_div_def by (rule f64_round_mono)
    with False show ?thesis by (simp add: fee_def)
  qed (simp add: fee_def)
  then have keep: "0 \<le> keep" by (simp add: keep_def f64_sub_def f64_sround_nonneg)
  have x: "0 < x" using assms(1) by (simp add: x_def f64_of_u64_pos)
  have eff: "0 \<le> f64_mul keep (f64_of_u64 a)" for a
    using keep nonneg [of a] by (simp add: f64_mul_def f64_sround_nonneg)
  have d: "0 < f64_add x (f64_mul keep (f64_of_u64 a))" for a
    unfolding f64_add_def by (rule f64_sround_pos) (use x eff [of a] in simp)
  have dd: "f64_mul (f64_add x (f64_mul keep (f64_of_u64 a))) (f64_add x (f64_mul keep (f64_of_u64 a))) \<noteq> 0" for a
    using f64_sround_pos [OF mult_pos_pos [OF d [of a] d [of a]]] by (simp add: f64_mul_def)
  have price: "amm_price cr dir a = F64 (f64_sround (f64_mul (f64_mul y keep) x /
      f64_mul (f64_add x (f64_mul keep (f64_of_u64 a))) (f64_add x (f64_mul keep (f64_of_u64 a)))))" for a
  proof -
    have "amm_price cr dir a = f64_quotient (f64_mul (f64_mul y keep) x)
      (f64_mul (f64_add x (f64_mul keep (f64_of_u64 a))) (f64_add x (f64_mul keep (f64_of_u64 a))))"
      by (cases dir) (simp_all add: amm_price_def Let_def x_def y_def keep_def fee_def)
    with dd [of a] show ?thesis by (simp add: f64_quotient_def)
  qed
  show thesis
  proof (rule that [OF keep _ x y_def _ price d])
    show "0 \<le> y" by (simp add: y_def nonneg)
    assume "8 * unat ?num \<le> unat ?den"
    then have "fee \<le> 1 / 2" using small_fee by (simp add: fee_def)
    then show "0 < keep" by (simp add: keep_def f64_sub_def f64_sround_pos)
  qed
qed

lemma amm_price_falls:
  assumes "in_reserve dir (cr_pool_pc_vault_amount cr) (cr_pool_coin_vault_amount cr) \<noteq> 0"
    "cr_swap_fee_numerator cr \<le> cr_swap_fee_denominator cr" "a \<le> b"
  shows "\<exists>p q. amm_price cr dir a = F64 p \<and> amm_price cr dir b = F64 q \<and> 0 \<le> q \<and> q \<le> p \<and>
    (8 * unat (cr_swap_fee_numerator cr) \<le> unat (cr_swap_fee_denominator cr) \<longrightarrow>
     out_reserve dir (cr_pool_pc_vault_amount cr) (cr_pool_coin_vault_amount cr) \<noteq> 0 \<longrightarrow> 0 < q)"
proof (rule amm_price_eq [OF assms(1,2)])
  fix keep x y
  let ?d = "\<lambda>a. f64_add x (f64_mul keep (f64_of_u64 a))"
  let ?top = "f64_mul (f64_mul y keep) x"
  assume k: "0 \<le> keep" and y: "0 \<le> y" and x: "0 < x" and d: "\<And>a. 0 < ?d a"
    and y_def: "y = f64_of_u64 (out_reserve dir (cr_pool_pc_vault_amount cr) (cr_pool_coin_vault_amount cr))"
    and pos: "8 * unat (cr_swap_fee_numerator cr) \<le> unat (cr_swap_fee_denominator cr) \<Longrightarrow> 0 < keep"
    and price: "\<And>a. amm_price cr dir a = F64 (f64_sround (?top / f64_mul (?d a) (?d a)))"
  have top: "0 \<le> ?top" using k y x by (simp add: f64_mul_def f64_sround_nonneg)
  have "keep * f64_of_u64 a \<le> keep * f64_of_u64 b"
    by (rule mult_left_mono [OF f64_of_u64_mono [OF assms(3)] k])
  then have mono: "?d a \<le> ?d b" by (simp add: f64_mul_def f64_add_def f64_sround_mono)
  have sq: "0 < f64_mul (?d c) (?d c)" for c
    using f64_sround_pos [OF mult_pos_pos [OF d d]] by (simp add: f64_mul_def)
  have "?d a * ?d a \<le> ?d b * ?d b" using mono d [of a] by (simp add: mult_mono)
  then have "f64_mul (?d a) (?d a) \<le> f64_mul (?d b) (?d b)"
    unfolding f64_mul_def [of "?d a"] f64_mul_def [of "?d b"] by (rule f64_sround_mono)
  then have "?top / f64_mul (?d b) (?d b) \<le> ?top / f64_mul (?d a) (?d a)"
    using top sq by (intro divide_left_mono) (simp_all add: zero_less_mult_iff)
  then have le: "f64_sround (?top / f64_mul (?d b) (?d b)) \<le> f64_sround (?top / f64_mul (?d a) (?d a))"
    by (rule f64_sround_mono)
  have ge: "0 \<le> f64_sround (?top / f64_mul (?d b) (?d b))"
    by (rule f64_sround_nonneg) (use top sq [of b] in simp)
  have gt: "0 < f64_sround (?top / f64_mul (?d b) (?d b))" if "0 < keep" "0 < y"
  proof -
    have "0 < f64_mul y keep" using that by (simp add: f64_mul_def f64_sround_pos)
    then have "0 < ?top" using x by (simp add: f64_mul_def [of _ x] f64_sround_pos)
    then show ?thesis using sq [of b] by (simp add: f64_sround_pos)
  qed
  have out: "0 < y" if "out_reserve dir (cr_pool_pc_vault_amount cr) (cr_pool_coin_vault_amount cr) \<noteq> 0"
    using that by (simp add: y_def f64_of_u64_pos)
  from price [of a] price [of b] le ge gt out pos show ?thesis by blast
qed

text \<open>Without an input reserve the spot price is 0 / 0.\<close>

lemma amm_price_empty:
  assumes "in_reserve dir (cr_pool_pc_vault_amount cr) (cr_pool_coin_vault_amount cr) = 0"
  shows "amm_price cr dir 0 = F64_NaN"
  using assms
  by (cases dir) (simp_all add: amm_price_def Let_def f64_of_u64_def f64_mul_def f64_add_def
      f64_sround_def f64_quotient_def)

end
