(* ===== verification/Bounds.thy ===== *)
theory Bounds
  imports Venue_Core
begin

text \<open>
  The boundary search of \<open>src/src/trading_venue/bounds.rs\<close> and the default method \<open>bounds\<close> of
  \<open>TradingVenue\<close>. The quoting function is the argument \<open>f\<close>; \<open>chk\<close> is the build's overflow-check
  setting, which decides what \<open>high - low\<close> does when \<open>high < low\<close>. The refinement loops are
  partial functions: \<open>None\<close> would be a loop that does not return. The log output is left out.
\<close>

type_synonym 'p quote_fun = "u64 \<Rightarrow> 'p quote_result vres"

definition valid_quote :: "'p quote_result \<Rightarrow> bool" where
  "valid_quote q \<longleftrightarrow> \<not> (qr_not_enough_liquidity q \<or> qr_expected_output q = 0)"

definition scaling_factor :: u64 where
  "scaling_factor = 2"

text \<open>Phase 1 of the coarse search: double \<open>lower_high\<close> until a quote is valid.\<close>

function coarse_lower :: "'p quote_fun \<Rightarrow> u64 \<Rightarrow> u64 \<Rightarrow> (u64 \<times> u64) vres" where
  "coarse_lower f lower_low lower_high =
     (case f lower_high of
        Panic \<Rightarrow> Panic
      | outcome \<Rightarrow>
          if (case outcome of Ok result \<Rightarrow> \<not> valid_quote result | _ \<Rightarrow> True) then
            let lower_low' = lower_high; lower_high' = saturating_mul lower_high scaling_factor
            in if lower_high' \<le> lower_low' \<or> lower_high' = u64_max then Ok (lower_low', u64_max)
               else coarse_lower f lower_low' lower_high'
          else Ok (lower_low, lower_high))"
  by pat_completeness auto
termination
  by (relation "measure (\<lambda>(f, l, h). 2 ^ 64 - unat h)")
    (auto simp: word_less_nat_alt not_le intro!: diff_less_mono2)

text \<open>Phase 2: double \<open>upper_high\<close> until a quote is not valid.\<close>

function coarse_upper :: "'p quote_fun \<Rightarrow> u64 \<Rightarrow> u64 \<Rightarrow> (u64 \<times> u64) vres" where
  "coarse_upper f upper_low upper_high =
     (case f upper_high of
        Panic \<Rightarrow> Panic
      | Err e \<Rightarrow> Ok (upper_low, upper_high)
      | Ok result \<Rightarrow>
          if \<not> valid_quote result then Ok (upper_low, upper_high)
          else
            let upper_low' = upper_high; upper_high' = saturating_mul upper_high scaling_factor
            in if upper_high' \<le> upper_low' \<or> upper_high' = u64_max then Ok (upper_low', u64_max)
               else coarse_upper f upper_low' upper_high')"
  by pat_completeness auto
termination
  by (relation "measure (\<lambda>(f, l, h). 2 ^ 64 - unat h)")
    (auto simp: word_less_nat_alt not_le intro!: diff_less_mono2)

declare coarse_lower.simps [simp del] coarse_upper.simps [simp del]

definition find_boundaries_coarse :: "'p quote_fun \<Rightarrow> (u64 \<times> u64 \<times> u64 \<times> u64) vres" where
  "find_boundaries_coarse f =
     and_then (coarse_lower f 0 1) (\<lambda>(lower_low, lower_high).
       let upper_low = lower_high; upper_high = saturating_mul upper_low scaling_factor
       in if upper_high \<le> upper_low then Ok (lower_low, lower_high, upper_low, upper_low)
          else and_then (coarse_upper f upper_low upper_high) (\<lambda>(upper_low, upper_high).
            Ok (lower_low, lower_high, upper_low, upper_high)))"

partial_function (option) refine_lower_loop ::
    "bool \<Rightarrow> 'p quote_fun \<Rightarrow> u64 \<Rightarrow> u64 \<Rightarrow> u64 vres option" where
  "refine_lower_loop chk f low high =
     (case plain_sub chk high low of
        Panic \<Rightarrow> Some Panic
      | Err e \<Rightarrow> Some (Err e)
      | Ok gap \<Rightarrow>
          if gap > 100 then
            let mid = high div 2 + low div 2
            in case f mid of
                 Panic \<Rightarrow> Some Panic
               | Ok result \<Rightarrow> if valid_quote result then refine_lower_loop chk f low mid
                              else refine_lower_loop chk f mid high
               | Err e \<Rightarrow> refine_lower_loop chk f mid high
          else Some (Ok high))"

partial_function (option) refine_upper_loop ::
    "bool \<Rightarrow> 'p quote_fun \<Rightarrow> u64 \<Rightarrow> u64 \<Rightarrow> u64 vres option" where
  "refine_upper_loop chk f low high =
     (case plain_sub chk high low of
        Panic \<Rightarrow> Some Panic
      | Err e \<Rightarrow> Some (Err e)
      | Ok gap \<Rightarrow>
          if gap > 100 then
            let mid = high div 2 + low div 2
            in case f mid of
                 Panic \<Rightarrow> Some Panic
               | Ok result \<Rightarrow> if valid_quote result then refine_upper_loop chk f mid high
                              else refine_upper_loop chk f low mid
               | Err e \<Rightarrow> refine_upper_loop chk f low mid
          else Some (Ok low))"

text \<open>Both refinements first quote the two ends, for the log only: a panic there is a panic.\<close>

definition refine_lower :: "bool \<Rightarrow> 'p quote_fun \<Rightarrow> u64 \<Rightarrow> u64 \<Rightarrow> u64 vres option" where
  "refine_lower chk f low high =
     (if f low = Panic \<or> f high = Panic then Some Panic else refine_lower_loop chk f low high)"

definition refine_upper :: "bool \<Rightarrow> 'p quote_fun \<Rightarrow> u64 \<Rightarrow> u64 \<Rightarrow> u64 vres option" where
  "refine_upper chk f low high =
     (if f low = Panic \<or> f high = Panic then Some Panic else refine_upper_loop chk f low high)"

definition find_boundaries :: "bool \<Rightarrow> 'p quote_fun \<Rightarrow> (u64 \<times> u64) vres option" where
  "find_boundaries chk f =
     (case find_boundaries_coarse f of
        Panic \<Rightarrow> Some Panic
      | Err e \<Rightarrow> Some (Err e)
      | Ok (lower_low, lower_high, upper_low, upper_high) \<Rightarrow>
          if lower_low = upper_high then
            Some (Err (BoundarySearchFailed
              (EStaticStr ''Search boundaries are all equal; search space collapsed'')))
          else if lower_high = u64_max then
            Some (Err (NoQuotableValue
              (EStaticStr ''No quotable value found; exponential search hit u64::MAX'')))
          else
            case refine_lower chk f lower_low lower_high of
              None \<Rightarrow> None
            | Some lower \<Rightarrow>
                (case lower of
                   Panic \<Rightarrow> Some Panic
                 | Err e \<Rightarrow> Some (Err e)
                 | Ok lower_bound \<Rightarrow>
                     map_option (\<lambda>upper. and_then upper (\<lambda>upper_bound. Ok (lower_bound, upper_bound)))
                       (refine_upper chk f upper_low upper_high)))"

text \<open>
  The default method \<open>bounds\<close>: \<open>quote\<close> is the venue's quoting method. A search that does not
  return has no value; \<open>find_boundaries_returns\<close> below shows that there is none.
\<close>

definition venue_bounds ::
    "bool \<Rightarrow> token_info list \<Rightarrow> (quote_request \<Rightarrow> 'p quote_result vres) \<Rightarrow> u8 \<Rightarrow> u8 \<Rightarrow>
      (u64 \<times> u64) vres option" where
  "venue_bounds chk tis quote tkn_in_ind tkn_out_ind =
     (case and_then (get_token tis (unat tkn_in_ind)) (\<lambda>token_in.
             and_then (get_token tis (unat tkn_out_ind)) (\<lambda>token_out. Ok (token_in, token_out))) of
        Panic \<Rightarrow> Some Panic
      | Err e \<Rightarrow> Some (Err e)
      | Ok (token_in, token_out) \<Rightarrow>
          find_boundaries chk (\<lambda>x. quote
            \<lparr> rq_input_mint = ti_pubkey token_in, rq_output_mint = ti_pubkey token_out,
              rq_amount = x, rq_swap_type = ExactIn \<rparr>))"

section \<open>The coarse search\<close>

definition valid_at :: "'p quote_fun \<Rightarrow> u64 \<Rightarrow> bool" where
  "valid_at f x \<longleftrightarrow> (case f x of Ok q \<Rightarrow> valid_quote q | _ \<Rightarrow> False)"

definition no_quote_panics :: "'p quote_fun \<Rightarrow> bool" where
  "no_quote_panics f \<longleftrightarrow> (\<forall>x. f x \<noteq> Panic)"

lemma valid_at_simps [simp]:
  "f x = Ok q \<Longrightarrow> valid_at f x = valid_quote q"
  "f x = Err e \<Longrightarrow> \<not> valid_at f x"
  "f x = Panic \<Longrightarrow> \<not> valid_at f x"
  by (simp_all add: valid_at_def)

lemma coarse_lower_step:
  "coarse_lower f l h =
     (if f h = Panic then Panic else if valid_at f h then Ok (l, h)
      else if saturating_mul h 2 \<le> h \<or> saturating_mul h 2 = u64_max then Ok (h, u64_max)
      else coarse_lower f h (saturating_mul h 2))"
  by (subst coarse_lower.simps) (auto simp: Let_def scaling_factor_def split: outcome.splits)

lemma coarse_upper_step:
  "coarse_upper f l h =
     (if f h = Panic then Panic else if \<not> valid_at f h then Ok (l, h)
      else if saturating_mul h 2 \<le> h \<or> saturating_mul h 2 = u64_max then Ok (h, u64_max)
      else coarse_upper f h (saturating_mul h 2))"
  by (subst coarse_upper.simps) (auto simp: Let_def scaling_factor_def split: outcome.splits)

lemma unat_double: "unat (saturating_mul (h :: u64) 2) = min (unat h * 2) (2 ^ 64 - 1)"
  by (simp add: unat_saturating_mul)

lemma double_stops_iff:
  assumes "unat (h :: u64) = 2 ^ k" "k \<le> 63"
  shows "(saturating_mul h 2 \<le> h \<or> saturating_mul h 2 = u64_max) \<longleftrightarrow> k = 63"
proof -
  show ?thesis
  proof (cases "k = 63")
    case True
    with assms show ?thesis unfolding eq_u64_max_iff unat_double by simp
  next
    case False
    with assms have "k \<le> 62" by simp
    then have "(2::nat) ^ k \<le> 2 ^ 62" by (rule power_increasing) simp
    with assms False show ?thesis unfolding eq_u64_max_iff word_le_nat_alt unat_double by simp
  qed
qed

lemma word_of_unat_eq: "unat h = n \<Longrightarrow> h = word_of_nat n"
  by (drule sym) simp

lemma coarse_lower_spec:
  assumes "coarse_lower f l h = Ok (l', h')" "unat h = 2 ^ k" "k \<le> 63" "l < h"
  shows "(h' = u64_max \<and> (\<forall>i. k \<le> i \<and> i \<le> 63 \<longrightarrow> \<not> valid_at f (word_of_nat (2 ^ i))) \<and>
        unat l' = 2 ^ 63) \<or>
    (\<exists>j. k \<le> j \<and> j \<le> 63 \<and> unat h' = 2 ^ j \<and> valid_at f h' \<and> l' < h' \<and>
        (l' = l \<or> \<not> valid_at f l') \<and>
        (\<forall>i. k \<le> i \<and> i < j \<longrightarrow> \<not> valid_at f (word_of_nat (2 ^ i))))"
  using assms
proof (induction "63 - k" arbitrary: k l h)
  case 0
  then have k: "k = 63" by simp
  have h: "h = word_of_nat (2 ^ 63)" using word_of_unat_eq [OF "0.prems"(2)] k by simp
  have only: "k \<le> i \<and> i \<le> 63 \<Longrightarrow> i = 63" for i using k by simp
  from "0.prems"(1) double_stops_iff [OF "0.prems"(2,3)] k "0.prems"(2,4) h only show ?case
    by (subst (asm) coarse_lower_step) (auto split: if_splits)
next
  case (Suc n)
  then have k: "k < 63" by simp
  have h: "h = word_of_nat (2 ^ k)" using word_of_unat_eq [OF Suc.prems(2)] .
  have "(2::nat) ^ k \<le> 2 ^ 62" using k by (intro power_increasing) auto
  then have double: "unat (saturating_mul h 2) = 2 ^ Suc k"
    unfolding unat_double using Suc.prems(2) by simp
  show ?case
  proof (cases "valid_at f h")
    case True
    with Suc.prems show ?thesis
      by (subst (asm) coarse_lower_step) (auto intro!: exI [of _ k] split: if_splits)
  next
    case False
    have lt: "h < saturating_mul h 2"
      using Suc.prems(2) double by (simp add: word_less_nat_alt)
    have "coarse_lower f h (saturating_mul h 2) = Ok (l', h')"
      using Suc.prems(1) False double_stops_iff [OF Suc.prems(2,3)] k
      by (subst (asm) coarse_lower_step) (auto split: if_splits)
    from Suc.hyps(1) [OF _ this double _ lt] Suc.hyps(2) k
    have IH: "(h' = u64_max \<and> (\<forall>i. Suc k \<le> i \<and> i \<le> 63 \<longrightarrow> \<not> valid_at f (word_of_nat (2 ^ i))) \<and>
          unat l' = 2 ^ 63) \<or>
      (\<exists>j. Suc k \<le> j \<and> j \<le> 63 \<and> unat h' = 2 ^ j \<and> valid_at f h' \<and> l' < h' \<and>
          (l' = h \<or> \<not> valid_at f l') \<and>
          (\<forall>i. Suc k \<le> i \<and> i < j \<longrightarrow> \<not> valid_at f (word_of_nat (2 ^ i))))"
      by simp
    have split: "k \<le> i \<Longrightarrow> i = k \<or> Suc k \<le> i" for i by auto
    from IH show ?thesis
    proof
      assume "h' = u64_max \<and> (\<forall>i. Suc k \<le> i \<and> i \<le> 63 \<longrightarrow> \<not> valid_at f (word_of_nat (2 ^ i))) \<and>
          unat l' = 2 ^ 63"
      then show ?thesis using split h False by blast
    next
      assume "\<exists>j. Suc k \<le> j \<and> j \<le> 63 \<and> unat h' = 2 ^ j \<and> valid_at f h' \<and> l' < h' \<and>
          (l' = h \<or> \<not> valid_at f l') \<and>
          (\<forall>i. Suc k \<le> i \<and> i < j \<longrightarrow> \<not> valid_at f (word_of_nat (2 ^ i)))"
      then show ?thesis using split h False by (metis Suc_leD)
    qed
  qed
qed

lemma coarse_upper_spec:
  "coarse_upper f l h = Ok (l', h') \<Longrightarrow> valid_at f l \<Longrightarrow> l \<le> h \<Longrightarrow>
    l \<le> l' \<and> l' \<le> h' \<and> valid_at f l' \<and> (h' = u64_max \<or> \<not> valid_at f h')"
proof (induction f l h rule: coarse_upper.induct)
  case (1 f l h)
  show ?case
  proof (cases "valid_at f h \<and> \<not> (saturating_mul h 2 \<le> h \<or> saturating_mul h 2 = u64_max)")
    case True
    then obtain q where q: "f h = Ok q" "valid_quote q"
      by (auto simp: valid_at_def split: outcome.splits)
    have "coarse_upper f h (saturating_mul h 2) = Ok (l', h')"
      using "1.prems"(1) True q by (subst (asm) coarse_upper_step) simp
    then have "h \<le> l' \<and> l' \<le> h' \<and> valid_at f l' \<and> (h' = u64_max \<or> \<not> valid_at f h')"
      using "1.IH" [OF q(1) _ refl refl] q True by (simp add: scaling_factor_def not_le less_imp_le)
    with "1.prems"(3) show ?thesis by auto
  next
    case False
    with "1.prems" show ?thesis
      by (subst (asm) coarse_upper_step) (auto split: if_splits)
  qed
qed

lemma coarse_lower_outcome:
  "coarse_lower f l h \<noteq> Err e \<and> (no_quote_panics f \<longrightarrow> coarse_lower f l h \<noteq> Panic)"
proof (induction f l h rule: coarse_lower.induct)
  case (1 f l h)
  have "f h \<noteq> Panic \<Longrightarrow> valid_at f h = False \<Longrightarrow>
      \<not> (saturating_mul h 2 \<le> h \<or> saturating_mul h 2 = u64_max) \<Longrightarrow>
      coarse_lower f h (saturating_mul h 2) \<noteq> Err e \<and>
      (no_quote_panics f \<longrightarrow> coarse_lower f h (saturating_mul h 2) \<noteq> Panic)"
    using "1.IH" unfolding scaling_factor_def by (cases "f h") auto
  moreover have "no_quote_panics f \<Longrightarrow> f h \<noteq> Panic" by (simp add: no_quote_panics_def)
  ultimately show ?case unfolding coarse_lower_step [of f l h] by auto
qed

lemma coarse_upper_outcome:
  "coarse_upper f l h \<noteq> Err e \<and> (no_quote_panics f \<longrightarrow> coarse_upper f l h \<noteq> Panic)"
proof (induction f l h rule: coarse_upper.induct)
  case (1 f l h)
  have "f h \<noteq> Panic \<Longrightarrow> valid_at f h = True \<Longrightarrow>
      \<not> (saturating_mul h 2 \<le> h \<or> saturating_mul h 2 = u64_max) \<Longrightarrow>
      coarse_upper f h (saturating_mul h 2) \<noteq> Err e \<and>
      (no_quote_panics f \<longrightarrow> coarse_upper f h (saturating_mul h 2) \<noteq> Panic)"
    using "1.IH" unfolding scaling_factor_def by (cases "f h") auto
  moreover have "no_quote_panics f \<Longrightarrow> f h \<noteq> Panic" by (simp add: no_quote_panics_def)
  ultimately show ?case unfolding coarse_upper_step [of f l h] by auto
qed

section \<open>The refinement\<close>

lemma midpoint:
  assumes "low \<le> high" "100 < high - (low :: u64)"
  shows "low < high div 2 + low div 2" "high div 2 + low div 2 < high"
proof -
  have gap: "unat low + 100 < unat high"
    using assms by (simp add: word_less_nat_alt word_le_nat_alt unat_sub)
  have "unat (high div 2 + low div 2) = unat high div 2 + unat low div 2"
  proof -
    have "unat (high div 2) = unat high div 2" "unat (low div 2) = unat low div 2"
      by (simp_all add: unat_div)
    moreover have "unat high div 2 + unat low div 2 < 2 ^ 64"
      using unat_lt_64 [of high] unat_lt_64 [of low] by (simp del: unat_lt_64)
    ultimately show ?thesis by (simp only: unat_word_ariths) simp
  qed
  with gap show "low < high div 2 + low div 2" "high div 2 + low div 2 < high"
    by (auto simp: word_less_nat_alt)
qed

lemma plain_sub_le [simp]: "low \<le> high \<Longrightarrow> plain_sub chk high low = Ok (high - low)"
  by (simp add: plain_sub_def)

lemma refine_lower_loop_step:
  "low \<le> high \<Longrightarrow> refine_lower_loop chk f low high =
     (if 100 < high - low then
        let mid = high div 2 + low div 2
        in if f mid = Panic then Some Panic
           else if valid_at f mid then refine_lower_loop chk f low mid
           else refine_lower_loop chk f mid high
      else Some (Ok high))"
  by (subst refine_lower_loop.simps) (auto simp: Let_def split: outcome.splits)

lemma refine_upper_loop_step:
  "low \<le> high \<Longrightarrow> refine_upper_loop chk f low high =
     (if 100 < high - low then
        let mid = high div 2 + low div 2
        in if f mid = Panic then Some Panic
           else if valid_at f mid then refine_upper_loop chk f mid high
           else refine_upper_loop chk f low mid
      else Some (Ok low))"
  by (subst refine_upper_loop.simps) (auto simp: Let_def split: outcome.splits)

text \<open>
  What a refinement promises: the bound is valid when the valid end it started from is, and a
  point within 100 of it is invalid, or is the other end.
\<close>

definition refined_lower :: "'p quote_fun \<Rightarrow> u64 \<Rightarrow> u64 \<Rightarrow> u64 \<Rightarrow> bool" where
  "refined_lower f low high r \<longleftrightarrow> low \<le> r \<and> r \<le> high \<and> (r = high \<or> valid_at f r) \<and>
     (\<exists>x. low \<le> x \<and> x \<le> r \<and> r - x \<le> 100 \<and> (x = low \<or> \<not> valid_at f x))"

definition refined_upper :: "'p quote_fun \<Rightarrow> u64 \<Rightarrow> u64 \<Rightarrow> u64 \<Rightarrow> bool" where
  "refined_upper f low high r \<longleftrightarrow> low \<le> r \<and> r \<le> high \<and> (r = low \<or> valid_at f r) \<and>
     (\<exists>x. r \<le> x \<and> x \<le> high \<and> x - r \<le> 100 \<and> (x = high \<or> \<not> valid_at f x))"

lemma refined_lower_narrow:
  "refined_lower f low mid r \<Longrightarrow> valid_at f mid \<Longrightarrow> mid \<le> high \<Longrightarrow> refined_lower f low high r"
  "refined_lower f mid high r \<Longrightarrow> \<not> valid_at f mid \<Longrightarrow> low \<le> mid \<Longrightarrow> refined_lower f low high r"
  unfolding refined_lower_def by (auto intro: order.trans)+

lemma refined_upper_narrow:
  "refined_upper f mid high r \<Longrightarrow> valid_at f mid \<Longrightarrow> low \<le> mid \<Longrightarrow> refined_upper f low high r"
  "refined_upper f low mid r \<Longrightarrow> \<not> valid_at f mid \<Longrightarrow> mid \<le> high \<Longrightarrow> refined_upper f low high r"
  unfolding refined_upper_def by (auto intro: order.trans)+

lemma refined_stop:
  "low \<le> high \<Longrightarrow> high - low \<le> 100 \<Longrightarrow> refined_lower f low high high \<and> refined_upper f low high low"
  unfolding refined_lower_def refined_upper_def by auto

text \<open>Both loops return after finitely many halvings.\<close>

lemma refine_lower_loop_spec:
  assumes "low \<le> high"
  shows "refine_lower_loop chk f low high = Some Panic \<and> \<not> no_quote_panics f \<or>
    (\<exists>r. refine_lower_loop chk f low high = Some (Ok r) \<and> refined_lower f low high r)"
  using assms
proof (induction "unat high - unat low" arbitrary: low high rule: less_induct)
  case less
  define mid where "mid = high div 2 + low div 2"
  note step = refine_lower_loop_step [OF less.prems, of chk f, folded mid_def, unfolded Let_def]
  show ?case
  proof (cases "100 < high - low")
    case False
    with refined_stop [OF less.prems, of f] show ?thesis by (auto simp: step)
  next
    case True
    have m: "low < mid" "mid < high" using midpoint [OF less.prems True] by (simp_all add: mid_def)
    then have "unat mid - unat low < unat high - unat low" "unat high - unat mid < unat high - unat low"
      by (simp_all add: word_less_nat_alt)
    then have low: "refine_lower_loop chk f low mid = Some Panic \<and> \<not> no_quote_panics f \<or>
        (\<exists>r. refine_lower_loop chk f low mid = Some (Ok r) \<and> refined_lower f low mid r)"
      and high: "refine_lower_loop chk f mid high = Some Panic \<and> \<not> no_quote_panics f \<or>
        (\<exists>r. refine_lower_loop chk f mid high = Some (Ok r) \<and> refined_lower f mid high r)"
      using m by (simp_all add: less.hyps less_imp_le)
    consider "f mid = Panic" | "f mid \<noteq> Panic" "valid_at f mid" | "f mid \<noteq> Panic" "\<not> valid_at f mid"
      by blast
    then show ?thesis
    proof cases
      case 1
      with True show ?thesis by (auto simp: step no_quote_panics_def)
    next
      case 2
      with True m low refined_lower_narrow(1) [where f = f] show ?thesis by (simp add: step) (blast intro: less_imp_le)
    next
      case 3
      with True m high refined_lower_narrow(2) [where f = f] show ?thesis by (simp add: step) (blast intro: less_imp_le)
    qed
  qed
qed

lemma refine_upper_loop_spec:
  assumes "low \<le> high"
  shows "refine_upper_loop chk f low high = Some Panic \<and> \<not> no_quote_panics f \<or>
    (\<exists>r. refine_upper_loop chk f low high = Some (Ok r) \<and> refined_upper f low high r)"
  using assms
proof (induction "unat high - unat low" arbitrary: low high rule: less_induct)
  case less
  define mid where "mid = high div 2 + low div 2"
  note step = refine_upper_loop_step [OF less.prems, of chk f, folded mid_def, unfolded Let_def]
  show ?case
  proof (cases "100 < high - low")
    case False
    with refined_stop [OF less.prems, of f] show ?thesis by (auto simp: step)
  next
    case True
    have m: "low < mid" "mid < high" using midpoint [OF less.prems True] by (simp_all add: mid_def)
    then have "unat mid - unat low < unat high - unat low" "unat high - unat mid < unat high - unat low"
      by (simp_all add: word_less_nat_alt)
    then have low: "refine_upper_loop chk f low mid = Some Panic \<and> \<not> no_quote_panics f \<or>
        (\<exists>r. refine_upper_loop chk f low mid = Some (Ok r) \<and> refined_upper f low mid r)"
      and high: "refine_upper_loop chk f mid high = Some Panic \<and> \<not> no_quote_panics f \<or>
        (\<exists>r. refine_upper_loop chk f mid high = Some (Ok r) \<and> refined_upper f mid high r)"
      using m by (simp_all add: less.hyps less_imp_le)
    consider "f mid = Panic" | "f mid \<noteq> Panic" "valid_at f mid" | "f mid \<noteq> Panic" "\<not> valid_at f mid"
      by blast
    then show ?thesis
    proof cases
      case 1
      with True show ?thesis by (auto simp: step no_quote_panics_def)
    next
      case 2
      with True m high refined_upper_narrow(1) [where f = f] show ?thesis by (simp add: step) (blast intro: less_imp_le)
    next
      case 3
      with True m low refined_upper_narrow(2) [where f = f] show ?thesis by (simp add: step) (blast intro: less_imp_le)
    qed
  qed
qed

section \<open>The whole search\<close>

abbreviation no_quotable :: "(u64 \<times> u64) vres" where
  "no_quotable \<equiv> Err (NoQuotableValue
     (EStaticStr ''No quotable value found; exponential search hit u64::MAX''))"

lemma power_below: "j \<le> 63 \<Longrightarrow> unat h = 2 ^ j \<Longrightarrow> h < saturating_mul (h :: u64) 2 \<and> h \<noteq> u64_max"
proof -
  assume j: "j \<le> 63" and h: "unat h = 2 ^ j"
  have "(2::nat) ^ j \<le> 2 ^ 63" using j by (intro power_increasing) auto
  with h show ?thesis
    unfolding word_less_nat_alt unat_double eq_u64_max_iff by (simp add: min_def)
qed

text \<open>What the coarse search hands to the refinement.\<close>

lemma find_boundaries_coarse_spec:
  assumes "find_boundaries_coarse f = Ok (ll, lh, ul, uh)"
  shows "(\<forall>i \<le> 63. \<not> valid_at f (word_of_nat (2 ^ i))) \<and> lh = u64_max \<and> ll \<noteq> uh \<or>
    (\<exists>i \<le> 63. valid_at f (word_of_nat (2 ^ i))) \<and> lh \<noteq> u64_max \<and> ll < lh \<and> lh \<le> ul \<and> ul \<le> uh \<and>
    valid_at f lh \<and> valid_at f ul \<and> (ll = 0 \<or> \<not> valid_at f ll) \<and> (uh = u64_max \<or> \<not> valid_at f uh)"
proof -
  obtain l h where low: "coarse_lower f 0 1 = Ok (l, h)"
    and rest: "(if saturating_mul h 2 \<le> h then Ok (l, h, h, h)
       else and_then (coarse_upper f h (saturating_mul h 2)) (\<lambda>(ul, uh). Ok (l, h, ul, uh)))
      = (Ok (ll, lh, ul, uh) :: (u64 \<times> u64 \<times> u64 \<times> u64) vres)"
    using assms by (auto simp: find_boundaries_coarse_def Let_def scaling_factor_def)
  have "unat (1 :: u64) = 2 ^ 0" "(0 :: u64) < 1" by (simp_all add: word_less_nat_alt)
  from coarse_lower_spec [OF low this(1) _ this(2)] consider
      "h = u64_max" "unat l = 2 ^ 63" "\<forall>i \<le> 63. \<not> valid_at f (word_of_nat (2 ^ i))"
    | j where "j \<le> 63" "unat h = 2 ^ j" "valid_at f h" "l < h" "l = 0 \<or> \<not> valid_at f l" by auto
  then show ?thesis
  proof cases
    case 1
    have "saturating_mul h 2 \<le> h" using 1 by (simp add: word_le_nat_alt unat_double unat_minus_one)
    moreover have "l \<noteq> u64_max" using 1 by (simp add: eq_u64_max_iff)
    ultimately show ?thesis using rest 1 by auto
  next
    case 2
    note hp = power_below [OF 2(1,2)]
    then have "\<not> saturating_mul h 2 \<le> h" by (auto simp: not_le)
    with rest have "coarse_upper f h (saturating_mul h 2) = Ok (ul, uh) \<and> ll = l \<and> lh = h" by auto
    moreover have "\<exists>i \<le> 63. valid_at f (word_of_nat (2 ^ i))"
      using 2 word_of_unat_eq [OF 2(2)] by metis
    moreover note coarse_upper_spec [of f h "saturating_mul h 2" ul uh]
    ultimately show ?thesis using 2 hp by (auto intro: less_imp_le)
  qed
qed

lemma find_boundaries_coarse_outcome:
  "find_boundaries_coarse f \<noteq> Err e"
  "no_quote_panics f \<Longrightarrow> find_boundaries_coarse f \<noteq> Panic"
  by (auto simp: find_boundaries_coarse_def Let_def coarse_lower_outcome coarse_upper_outcome)

lemma refine_lower_spec:
  "low \<le> high \<Longrightarrow> refine_lower chk f low high = Some Panic \<and> \<not> no_quote_panics f \<or>
    (\<exists>r. refine_lower chk f low high = Some (Ok r) \<and> refined_lower f low high r)"
  using refine_lower_loop_spec [of low high chk f]
  by (auto simp: refine_lower_def no_quote_panics_def)

lemma refine_upper_spec:
  "low \<le> high \<Longrightarrow> refine_upper chk f low high = Some Panic \<and> \<not> no_quote_panics f \<or>
    (\<exists>r. refine_upper chk f low high = Some (Ok r) \<and> refined_upper f low high r)"
  using refine_upper_loop_spec [of low high chk f]
  by (auto simp: refine_upper_def no_quote_panics_def)

text \<open>What \<open>find_boundaries\<close> returns, by the validity of the powers of two it probes.\<close>

lemma find_boundaries_cases:
  obtains (panic) "find_boundaries chk f = Some Panic" "\<not> no_quote_panics f"
    | (none) "find_boundaries chk f = Some no_quotable"
        "\<forall>i \<le> 63. \<not> valid_at f (word_of_nat (2 ^ i))"
    | (bounds) lo hi ll lh ul uh where "find_boundaries chk f = Some (Ok (lo, hi))"
        "\<exists>i \<le> 63. valid_at f (word_of_nat (2 ^ i))"
        "lh \<le> ul" "valid_at f lh" "valid_at f ul" "ll = 0 \<or> \<not> valid_at f ll"
        "uh = u64_max \<or> \<not> valid_at f uh"
        "refined_lower f ll lh lo" "refined_upper f ul uh hi"
proof (cases "find_boundaries_coarse f")
  case (Err e)
  then show thesis by (simp add: find_boundaries_coarse_outcome)
next
  case Panic
  with find_boundaries_coarse_outcome [where f = f] panic show thesis by (auto simp: find_boundaries_def)
next
  case (Ok b)
  obtain ll lh ul uh where b: "b = (ll, lh, ul, uh)" by (cases b)
  from find_boundaries_coarse_spec [OF Ok [unfolded b]] consider
      (outside) "lh = u64_max" "ll \<noteq> uh" "\<forall>i \<le> 63. \<not> valid_at f (word_of_nat (2 ^ i))"
    | (inside) "\<exists>i \<le> 63. valid_at f (word_of_nat (2 ^ i))" "lh \<noteq> u64_max" "ll < lh" "lh \<le> ul"
      "ul \<le> uh" "valid_at f lh" "valid_at f ul" "ll = 0 \<or> \<not> valid_at f ll"
      "uh = u64_max \<or> \<not> valid_at f uh"
    by blast
  then show thesis
  proof cases
    case outside
    with Ok b none show thesis by (simp add: find_boundaries_def)
  next
    case * : inside
    then have "ll \<noteq> uh" by auto
    with Ok b * have fb: "find_boundaries chk f =
        (case refine_lower chk f ll lh of None \<Rightarrow> None
         | Some lower \<Rightarrow> (case lower of Panic \<Rightarrow> Some Panic | Err e \<Rightarrow> Some (Err e)
           | Ok lower_bound \<Rightarrow>
               map_option (\<lambda>upper. and_then upper (\<lambda>upper_bound. Ok (lower_bound, upper_bound)))
                 (refine_upper chk f ul uh)))"
      by (simp add: find_boundaries_def)
    have low: "refine_lower chk f ll lh = Some Panic \<and> \<not> no_quote_panics f \<or>
        (\<exists>r. refine_lower chk f ll lh = Some (Ok r) \<and> refined_lower f ll lh r)"
      using * by (intro refine_lower_spec) simp
    have up: "refine_upper chk f ul uh = Some Panic \<and> \<not> no_quote_panics f \<or>
        (\<exists>r. refine_upper chk f ul uh = Some (Ok r) \<and> refined_upper f ul uh r)"
      using * by (intro refine_upper_spec) simp
    have "find_boundaries chk f = Some Panic \<and> \<not> no_quote_panics f \<or>
      (\<exists>lo hi. find_boundaries chk f = Some (Ok (lo, hi)) \<and>
        refined_lower f ll lh lo \<and> refined_upper f ul uh hi)"
      using low up by (elim disjE exE conjE) (simp_all add: fb)
    then show thesis using * panic bounds by blast
  qed
qed

text \<open>
  The boundary search always returns: both phases and both refinement loops end for every
  quoting function (even one that panics, whose panic is then the result) and every build.
\<close>

theorem find_boundaries_returns: "\<exists>r. find_boundaries chk f = Some r"
  by (cases rule: find_boundaries_cases [of chk f]) simp_all

text \<open>
  C27. The bounds it returns are quotable amounts, in order, and tight up to 100 atoms: an
  amount at most 100 below the lower bound is 0 or not quotable, and an amount at most 100 above
  the upper bound is \<open>u64::MAX\<close> or not quotable.
\<close>

theorem find_boundaries_sound:
  assumes "find_boundaries chk f = Some (Ok (lo, hi))"
  shows "valid_at f lo \<and> valid_at f hi \<and> lo \<le> hi \<and>
    (\<exists>x. x \<le> lo \<and> lo - x \<le> 100 \<and> (x = 0 \<or> \<not> valid_at f x)) \<and>
    (\<exists>x. hi \<le> x \<and> x - hi \<le> 100 \<and> (x = u64_max \<or> \<not> valid_at f x))"
  using assms
  by (cases rule: find_boundaries_cases [of chk f])
    (auto simp: refined_lower_def refined_upper_def)

text \<open>
  The outcome is decided by the powers of two: with a quoting function that does not panic,
  the search gives bounds exactly when some amount 2^0, ..., 2^63 is quotable, and reports
  \<open>NoQuotableValue\<close> otherwise; it never reports \<open>BoundarySearchFailed\<close>.
\<close>

theorem find_boundaries_outcome:
  assumes "no_quote_panics f"
  shows "if \<exists>i \<le> 63. valid_at f (word_of_nat (2 ^ i))
    then \<exists>lo hi. find_boundaries chk f = Some (Ok (lo, hi))
    else find_boundaries chk f = Some (Err (NoQuotableValue
      (EStaticStr ''No quotable value found; exponential search hit u64::MAX'')))"
  using assms by (cases rule: find_boundaries_cases [of chk f]) auto

text \<open>
  If the quotable amounts form an interval, every amount between the two bounds is quotable
  and at most 100 quotable amounts are missed on either side.
\<close>

theorem find_boundaries_interval:
  assumes "find_boundaries chk f = Some (Ok (lo, hi))"
    and "\<And>x. valid_at f x \<longleftrightarrow> a \<le> x \<and> x \<le> b"
  shows "(\<forall>x. lo \<le> x \<and> x \<le> hi \<longrightarrow> valid_at f x) \<and>
    a \<le> lo \<and> unat lo - unat a \<le> 100 \<and> hi \<le> b \<and> unat b - unat hi \<le> 100"
proof (cases rule: find_boundaries_cases [of chk f])
  case (bounds lo' hi' ll lh ul uh)
  with assms(1) have eq: "lo' = lo" "hi' = hi" by simp_all
  obtain x where x: "ll \<le> x" "x \<le> lo" "lo - x \<le> 100" "x = ll \<or> \<not> valid_at f x"
    using bounds eq by (auto simp: refined_lower_def)
  obtain y where y: "hi \<le> y" "y - hi \<le> 100" "y = uh \<or> \<not> valid_at f y"
    using bounds eq by (auto simp: refined_upper_def)
  have ends: "valid_at f lo" "valid_at f hi"
    using bounds eq by (auto simp: refined_lower_def refined_upper_def)
  then have "a \<le> lo" "lo \<le> b" "a \<le> hi" "hi \<le> b" using assms(2) by simp_all
  moreover have "x = 0 \<or> x < a"
    using x(4) bounds assms(2) [of x] \<open>lo \<le> b\<close> x(2) by (auto simp: not_le)
  moreover have "y = u64_max \<or> b < y"
    using y(3) bounds assms(2) [of y] \<open>a \<le> hi\<close> y(1) by (auto simp: not_le)
  ultimately show ?thesis
    using x(2,3) y(1,2) u64_le_max [of b]
    by (auto simp: assms(2) word_le_nat_alt word_less_nat_alt unat_sub unat_minus_one)
qed (use assms(1) in simp_all)

section \<open>Concrete searches\<close>

definition range_quote :: "u64 \<Rightarrow> u64 \<Rightarrow> f64 quote_fun" where
  "range_quote a b x = Ok \<lparr> qr_input_mint = [], qr_output_mint = [], qr_amount = x,
     qr_expected_output = 1, qr_not_enough_liquidity = \<not> (a \<le> x \<and> x \<le> b), qr_price = 1 \<rparr>"

lemma valid_at_range_quote: "valid_at (range_quote a b) x \<longleftrightarrow> a \<le> x \<and> x \<le> b"
  by (simp add: valid_at_def range_quote_def valid_quote_def)

lemma range_quote_no_panic: "no_quote_panics (range_quote a b)"
  by (simp add: no_quote_panics_def range_quote_def)

lemma range_quote_Panic [simp]: "range_quote a b x \<noteq> Panic"
  by (simp add: range_quote_def)

lemmas search_simps = find_boundaries_def find_boundaries_coarse_def coarse_lower_step
  coarse_upper_step refine_lower_def refine_upper_def refine_lower_loop_step
  refine_upper_loop_step valid_at_range_quote saturating_mul_def scaling_factor_def

lemma search_1_3: "find_boundaries True (range_quote 1 3) = Some (Ok (1, 2))"
  by (simp add: search_simps) (simp add: word_le_nat_alt)

lemma find_boundaries_sound_witness:
  "valid_at (range_quote 1 3) 1 \<and> valid_at (range_quote 1 3) 2 \<and> (1 :: u64) \<le> 2"
  using find_boundaries_sound [OF search_1_3] by blast

lemma find_boundaries_outcome_witness:
  "\<exists>lo hi. find_boundaries True (range_quote 1 3) = Some (Ok (lo, hi))"
proof -
  have "\<exists>i \<le> 63. valid_at (range_quote 1 3) (word_of_nat (2 ^ i))"
    by (rule exI [of _ 0]) (simp add: valid_at_range_quote)
  then show ?thesis
    using find_boundaries_outcome [OF range_quote_no_panic [of 1 3], of True] by simp
qed

lemma find_boundaries_interval_witness:
  "(1 :: u64) \<le> 1 \<and> (2 :: u64) \<le> 3 \<and> unat (3 :: u64) - unat (2 :: u64) \<le> 100"
  using find_boundaries_interval [OF search_1_3 valid_at_range_quote] by blast

text \<open>
  The bounds are not the exact ends of the quotable range: when the quotable amounts are
  exactly 70, ..., 200 the search answers (128, 192), so quotable amounts lie on both sides of the
  bounds.
\<close>

theorem find_boundaries_not_exact:
  "find_boundaries True (range_quote 70 200) = Some (Ok (128, 192)) \<and>
   valid_at (range_quote 70 200) 70 \<and> valid_at (range_quote 70 200) 200"
  by (simp add: search_simps) (simp add: word_le_nat_alt)

end
