(* ===== verification/Raydium.thy ===== *)
theory Raydium
  imports Raydium_State Raydium_Curve Bounds
begin

text \<open>
  The Raydium example venue (\<open>src/src/example/mod.rs\<close>): the detection of new pools, the venue object
  with the methods of \<open>TradingVenue\<close>, its refresh and its lookup-table keys. \<open>update_state\<close> mutates the
  venue, so it returns the new venue with its outcome; a failure leaves what was written before it.
\<close>

section \<open>Pool creations\<close>

definition RAYDIUM_AMM_PROGRAM_ID :: "crates \<Rightarrow> pubkey" where
  "RAYDIUM_AMM_PROGRAM_ID E = from_str_const E ''675kPX9MHTjS2zt1qfr1NYHuzeLXfQM9H24wFSUt1Mp8''"

definition INITIALIZE2_TAG :: u8 where "INITIALIZE2_TAG = 1"
definition POOL_INDEX :: nat where "POOL_INDEX = 4"
definition COIN_MINT_INDEX :: nat where "COIN_MINT_INDEX = 8"
definition PC_MINT_INDEX :: nat where "PC_MINT_INDEX = 9"

definition raydium_pool_creation :: "parsed_instruction \<Rightarrow> pool_creation option" where
  "raydium_pool_creation ix =
     Option.bind (get_at (pi_accounts ix) POOL_INDEX) (\<lambda>pool.
     Option.bind (get_at (pi_accounts ix) COIN_MINT_INDEX) (\<lambda>coin_mint.
     Option.bind (get_at (pi_accounts ix) PC_MINT_INDEX) (\<lambda>pc_mint.
     Some \<lparr> pc_protocol = RaydiumAMM, pc_pool = pool, pc_mints = [coin_mint, pc_mint] \<rparr>)))"

definition raydium_parse_pool_creations ::
    "crates \<Rightarrow> parsed_instruction list \<Rightarrow> pool_creation list" where
  "raydium_parse_pool_creations E instructions =
     List.map_filter raydium_pool_creation
       (filter (\<lambda>ix. get_at (pi_data ix) 0 = Some INITIALIZE2_TAG)
         (filter (\<lambda>ix. pi_program_id ix = RAYDIUM_AMM_PROGRAM_ID E) instructions))"

section \<open>The venue\<close>

record raydium_venue =
  rv_amm_keys :: amm_keys
  rv_calculate_result :: "calculate_result option"
  rv_pc_balance :: u64
  rv_coin_balance :: u64
  rv_required_state_pubkeys :: "pubkey list"
  rv_found_all_pubkeys :: bool
  rv_token_info :: "token_info list"

text \<open>\<open>HashSet::extend\<close>: every key that is not there yet.\<close>

definition extend_keys :: "pubkey list \<Rightarrow> pubkey list \<Rightarrow> pubkey list" where
  "extend_keys ks new = foldl (\<lambda>ks k. if k \<in> set ks then ks else ks @ [k]) ks new"

definition amm_key_list :: "amm_keys \<Rightarrow> pubkey list" where
  "amm_key_list k =
     [ak_amm_pool k, ak_amm_pc_vault k, ak_amm_coin_vault k, ak_amm_coin_mint k, ak_amm_pc_mint k]"

definition raydium_from_account ::
    "crates \<Rightarrow> amm_crates \<Rightarrow> pubkey \<Rightarrow> account \<Rightarrow> raydium_venue vres" where
  "raydium_from_account E R pk acct =
     and_then (map_err (\<lambda>_. FromAccountError (EStaticStr ''Unable to unpack AmmInfo''))
                 (load_amm_keys R (RAYDIUM_AMM_PROGRAM_ID E) pk acct)) (\<lambda>amm_keys.
     Ok \<lparr> rv_amm_keys = amm_keys, rv_calculate_result = None, rv_pc_balance = 0,
          rv_coin_balance = 0, rv_required_state_pubkeys = extend_keys [] (amm_key_list amm_keys),
          rv_found_all_pubkeys = False, rv_token_info = [] \<rparr>)"

definition raydium_initialized :: "raydium_venue \<Rightarrow> bool" where
  "raydium_initialized self = rv_found_all_pubkeys self"

definition raydium_market_id :: "raydium_venue \<Rightarrow> pubkey" where
  "raydium_market_id self = ak_amm_pool (rv_amm_keys self)"

definition raydium_program_id :: "crates \<Rightarrow> pubkey" where
  "raydium_program_id E = RAYDIUM_AMM_PROGRAM_ID E"

definition raydium_program_dependencies :: "crates \<Rightarrow> pubkey list" where
  "raydium_program_dependencies E = [RAYDIUM_AMM_PROGRAM_ID E]"

definition raydium_protocol :: pool_protocol where
  "raydium_protocol = RaydiumAMM"

definition raydium_tradable_mints :: "raydium_venue \<Rightarrow> pubkey list vres" where
  "raydium_tradable_mints self =
     Ok [ak_amm_coin_mint (rv_amm_keys self), ak_amm_pc_mint (rv_amm_keys self)]"

definition raydium_decimals :: "raydium_venue \<Rightarrow> int list vres" where
  "raydium_decimals self =
     and_then (ok_or (get_at (rv_token_info self) 0)
                 (MissingState (EPubkey (ak_amm_coin_mint (rv_amm_keys self))))) (\<lambda>t0.
     and_then (ok_or (get_at (rv_token_info self) 1)
                 (MissingState (EPubkey (ak_amm_pc_mint (rv_amm_keys self))))) (\<lambda>t1.
     Ok [ti_decimals t0, ti_decimals t1]))"

section \<open>The refresh\<close>

text \<open>\<open>vault.data[64..72].try_into()\<close>, read into a balance that is kept where there is no account.\<close>

definition vault_balance :: "account option \<Rightarrow> u64 \<Rightarrow> u64 vres" where
  "vault_balance vault_account balance =
     (case vault_account of
        None \<Rightarrow> Ok balance
      | Some vault \<Rightarrow>
          and_then (slice (acc_data vault) 64 72) (\<lambda>bs.
          and_then (ok_or (try_array 8 bs) (DeserializationFailed (EStaticStr
              ''Failed to deserialize bytes for vault balance''))) (\<lambda>data.
          Ok (from_le_bytes data))))"

definition venue_update_state_step_2 ::
    "crates \<Rightarrow> amm_crates \<Rightarrow> raydium_venue \<Rightarrow> account option \<Rightarrow> account option \<Rightarrow> account option \<Rightarrow>
      account option \<Rightarrow> account option \<Rightarrow> raydium_venue \<times> unit vres" where
  "venue_update_state_step_2 E R self amm_pool amm_pc_vault amm_coin_vault mint0 mint1 =
     or_stop (vault_balance amm_pc_vault (rv_pc_balance self)) self (\<lambda>pc_balance.
     let self1 = self\<lparr> rv_pc_balance := pc_balance \<rparr>
     in or_stop (vault_balance amm_coin_vault (rv_coin_balance self1)) self1 (\<lambda>coin_balance.
     let self2 = self1\<lparr> rv_coin_balance := coin_balance \<rparr>
     in or_stop (map_err (\<lambda>_. AmmMethodError (EStaticStr ''calculate_pool_vault_amounts''))
          (calculate_pool_vault_amounts_from_accounts R [amm_pool, amm_pc_vault, amm_coin_vault]))
        self2 (\<lambda>result.
     let self3 = self2\<lparr> rv_calculate_result := Some result \<rparr>
     in case (mint0, mint1) of
          (Some token_mint_0, Some token_mint_1) \<Rightarrow>
            or_stop (token_info_new E (ak_amm_coin_mint (rv_amm_keys self3)) token_mint_0 u64_max)
              self3 (\<lambda>t0.
            or_stop (token_info_new E (ak_amm_pc_mint (rv_amm_keys self3)) token_mint_1 u64_max)
              self3 (\<lambda>t1.
            (self3\<lparr> rv_token_info := [t0, t1] \<rparr>, Ok ())))
        | _ \<Rightarrow> (self3, Ok ()))))"

definition try_five :: "'a list \<Rightarrow> ('a \<times> 'a \<times> 'a \<times> 'a \<times> 'a) option" where
  "try_five xs = (case xs of [a, b, c, d, e] \<Rightarrow> Some (a, b, c, d, e) | _ \<Rightarrow> None)"

definition raydium_update_state ::
    "crates \<Rightarrow> amm_crates \<Rightarrow> raydium_venue \<Rightarrow> accounts_cache \<Rightarrow> raydium_venue \<times> unit vres" where
  "raydium_update_state E R self cache =
     (let accounts_pubkeys = amm_key_list (rv_amm_keys self);
          self1 = self\<lparr> rv_required_state_pubkeys :=
                    extend_keys (rv_required_state_pubkeys self) accounts_pubkeys \<rparr>
      in or_stop (get_accounts cache accounts_pubkeys) self1 (\<lambda>accounts.
         or_stop (ok_or (try_five accounts) FailedToFetchMultipleAccountData) self1
           (\<lambda>(amm_pool, amm_pc_vault, amm_coin_vault, mint0, mint1).
         let (self2, res) = venue_update_state_step_2 E R self1 amm_pool amm_pc_vault
               amm_coin_vault mint0 mint1
         in or_stop res self2 (\<lambda>_. (self2\<lparr> rv_found_all_pubkeys := True \<rparr>, Ok ())))))"

definition raydium_required_pubkeys :: "amm_crates \<Rightarrow> raydium_venue \<Rightarrow> pubkey list vres" where
  "raydium_required_pubkeys R self =
     (if \<not> rv_found_all_pubkeys self then
        Err (NotInitialized (EStaticStr ''State needs to be fully updated!''))
      else Ok (hash_set_iter R (rv_required_state_pubkeys self)))"

section \<open>Quotes and instructions\<close>

definition raydium_direction :: "raydium_venue \<Rightarrow> quote_request \<Rightarrow> swap_direction vres" where
  "raydium_direction self request =
     (if rq_input_mint request = ak_amm_pc_mint (rv_amm_keys self) \<and>
         rq_output_mint request = ak_amm_coin_mint (rv_amm_keys self) then Ok PC2Coin
      else if rq_input_mint request = ak_amm_coin_mint (rv_amm_keys self) \<and>
         rq_output_mint request = ak_amm_pc_mint (rv_amm_keys self) then Ok Coin2PC
      else Err (InvalidMint (EPubkey (rq_input_mint request))))"

definition raydium_quote ::
    "amm_crates \<Rightarrow> raydium_venue \<Rightarrow> quote_request \<Rightarrow> f64_value quote_result vres" where
  "raydium_quote R self request =
     and_then (ok_or (rv_calculate_result self) (MissingState (EStaticStr ''calculate_result'')))
       (\<lambda>calculate_result.
     and_then (raydium_direction self request) (\<lambda>swap_direction.
     if rq_amount request = 0 then
       Ok \<lparr> qr_input_mint = rq_input_mint request, qr_output_mint = rq_output_mint request,
            qr_amount = 0, qr_expected_output = 0, qr_not_enough_liquidity = False,
            qr_price = amm_price calculate_result swap_direction 0 \<rparr>
     else
       and_then (swap_with_slippage R (rv_pc_balance self) (rv_coin_balance self)
           (cr_pool_pc_vault_amount calculate_result) (cr_pool_coin_vault_amount calculate_result)
           (cr_swap_fee_numerator calculate_result) (cr_swap_fee_denominator calculate_result)
           swap_direction (rq_amount request) (rq_swap_type request = ExactIn) 0) (\<lambda>output_amount.
       Ok \<lparr> qr_input_mint = rq_input_mint request, qr_output_mint = rq_output_mint request,
            qr_amount = rq_amount request, qr_expected_output = output_amount,
            qr_not_enough_liquidity = False,
            qr_price = amm_price calculate_result swap_direction (rq_amount request) \<rparr>)))"

definition raydium_generate_swap_instruction ::
    "crates \<Rightarrow> amm_crates \<Rightarrow> raydium_venue \<Rightarrow> quote_request \<Rightarrow> pubkey \<Rightarrow> instruction vres" where
  "raydium_generate_swap_instruction E R self request user =
     (let user_token_mint_coin = ata_address R user (ak_amm_coin_mint (rv_amm_keys self));
          user_token_mint_pc = ata_address R user (ak_amm_pc_mint (rv_amm_keys self));
          (user_source, user_destination) =
            (if rq_input_mint request = ak_amm_coin_mint (rv_amm_keys self)
             then (user_token_mint_coin, user_token_mint_pc)
             else (user_token_mint_pc, user_token_mint_coin))
      in map_err (\<lambda>_. AmmMethodError (EStaticStr ''generate swap instruction''))
           (swap_v2 E (raydium_program_id E) (rv_amm_keys self) user user_source user_destination
              (rq_amount request) 0 True))"

definition raydium_bounds ::
    "crates \<Rightarrow> amm_crates \<Rightarrow> raydium_venue \<Rightarrow> u8 \<Rightarrow> u8 \<Rightarrow> (u64 \<times> u64) vres option" where
  "raydium_bounds E R self = venue_bounds (overflow_checks E) (rv_token_info self) (raydium_quote R self)"

definition raydium_lookup_table_keys ::
    "crates \<Rightarrow> raydium_venue \<Rightarrow> accounts_cache option \<Rightarrow> pubkey list vres" where
  "raydium_lookup_table_keys E self accounts_cache =
     (let amm_pc_mint = ak_amm_pc_mint (rv_amm_keys self);
          amm_coin_mint = ak_amm_coin_mint (rv_amm_keys self)
      in and_then (ok_or accounts_cache (SomethingWentWrong ''RPC cache required'')) (\<lambda>rpc_cache.
         and_then (get_accounts rpc_cache [amm_coin_mint, amm_pc_mint]) (\<lambda>token_mint_accounts.
         and_then (index_at token_mint_accounts 0) (\<lambda>coin_mint_opt.
         and_then (ok_or coin_mint_opt (MissingState (EStaticStr ''token_mint_accounts[0]'')))
           (\<lambda>coin_mint_account.
         and_then (index_at token_mint_accounts 1) (\<lambda>pc_mint_opt.
         and_then (ok_or pc_mint_opt (MissingState (EStaticStr ''token_mint_accounts[1]'')))
           (\<lambda>pc_mint_account.
         Ok [amm_coin_mint, amm_pc_mint, acc_owner coin_mint_account, acc_owner pc_mint_account,
             ak_amm_pool (rv_amm_keys self), ak_amm_coin_vault (rv_amm_keys self),
             ak_amm_pc_vault (rv_amm_keys self), RAYDIUM_AMM_PROGRAM_ID E])))))))"

end
