(* ===== verification/Prices.thy ===== *)
theory Prices
  imports Venue_Core
begin

text \<open>
  The piecewise prices of the Overpass venue (\<open>price_parts\<close> of \<open>src/src/your_venue/mod.rs\<close>): the
  edges between the bounds, the slopes between neighbouring edges, the pass that makes the prices
  fall, and the lookup that \<open>quote\<close> does. The lemmas show that the breakpoints are increasing and
  the prices positive and non-increasing, whatever the quotes return.
\<close>

section \<open>Piecewise prices\<close>

definition PRICE_FLOOR :: u64 where "PRICE_FLOOR = 100000"

text \<open>The loop that halves the upper bound: the edges it pushes, in order.\<close>

function halving_edges :: "u64 \<Rightarrow> u64 \<Rightarrow> u64 list" where
  "halving_edges lb c =
     (if PRICE_FLOOR < c div 2 \<and> lb < c div 2 then (c div 2) # halving_edges lb (c div 2) else [])"
  by pat_completeness auto

lemma half_less: "0 < c div 2 \<Longrightarrow> unat (c div 2 :: u64) < unat c"
  by (simp add: unat_div word_less_nat_alt)

termination halving_edges
  by (relation "measure (\<lambda>(lb, c). unat c)")
    (auto intro!: half_less simp: PRICE_FLOOR_def word_less_nat_alt)

declare halving_edges.simps [simp del]

text \<open>\<open>edges.windows(2)\<close>.\<close>

definition windows2 :: "'a list \<Rightarrow> ('a \<times> 'a) list" where
  "windows2 xs = zip xs (tl xs)"

text \<open>The loop over the windows; \<open>quote\<close> returns an optional output, or panics.\<close>

fun slope_parts ::
    "bool \<Rightarrow> (u64 \<Rightarrow> u64 option vres) \<Rightarrow> (u64 \<times> u64) list \<Rightarrow> (u64 \<times> f64) list vres" where
  "slope_parts chk quote [] = Ok []"
| "slope_parts chk quote ((a, b) # rest) =
     and_then (quote a) (\<lambda>qa.
     and_then (quote b) (\<lambda>qb.
     case (qa, qb) of
       (Some oa, Some ob) \<Rightarrow>
         if oa < ob then
           and_then (plain_sub chk ob oa) (\<lambda>rise.
           and_then (plain_sub chk b a) (\<lambda>run.
           and_then (slope_parts chk quote rest) (\<lambda>parts.
           Ok ((a, f64_div (f64_of_u64 rise) (f64_of_u64 run)) # parts))))
         else slope_parts chk quote rest
     | _ \<Rightarrow> slope_parts chk quote rest))"

text \<open>The last loop, from right to left: a price below its right neighbour is raised to it.\<close>

fun level_prices :: "(u64 \<times> f64) list \<Rightarrow> (u64 \<times> f64) list" where
  "level_prices [] = []"
| "level_prices [part] = [part]"
| "level_prices ((c, p) # part # rest) =
     (let levelled = level_prices (part # rest); next = snd (hd levelled)
      in (c, if p < next then next else p) # levelled)"

definition price_edges :: "u64 \<Rightarrow> u64 \<Rightarrow> u64 list" where
  "price_edges lb ub = remdups_adj (sort ([ub] @ halving_edges lb ub @ [lb]))"

definition price_parts ::
    "bool \<Rightarrow> (u64 \<times> u64) option \<Rightarrow> (u64 \<Rightarrow> u64 option vres) \<Rightarrow> (u64 \<times> f64) list vres" where
  "price_parts chk bounds quote =
     (case bounds of
        None \<Rightarrow> Ok []
      | Some (lb, ub) \<Rightarrow>
          if ub \<le> lb then Ok []
          else
            and_then (slope_parts chk quote (windows2 (price_edges lb ub))) (\<lambda>parts.
            Ok (level_prices parts)))"

text \<open>The price of an amount: of the last part that starts at or below it, else of the first part.\<close>

definition price_at :: "(u64 \<times> f64) list \<Rightarrow> u64 \<Rightarrow> f64" where
  "price_at parts amount =
     (case find (\<lambda>(c, _). c \<le> amount) (rev parts) of
        Some (_, p) \<Rightarrow> p
      | None \<Rightarrow> (case parts of [] \<Rightarrow> 0 | (_, p) # _ \<Rightarrow> p))"

section \<open>Falling prices\<close>

text \<open>Prices over increasing amounts that do not increase and are positive.\<close>

definition parts_ok :: "(u64 \<times> f64) list \<Rightarrow> bool" where
  "parts_ok parts \<longleftrightarrow> sorted_wrt (\<lambda>p q. fst p < fst q \<and> snd q \<le> snd p) parts \<and>
     (\<forall>p \<in> set parts. 0 < snd p)"

lemma parts_ok_Nil [simp]: "parts_ok []"
  by (simp add: parts_ok_def)

lemma strict_sorted_remdups_adj: "sorted xs \<Longrightarrow> sorted_wrt (<) (remdups_adj (xs :: u64 list))"
proof (induction xs rule: remdups_adj.induct)
  case (3 x y xs)
  then show ?case by (auto simp: order.strict_iff_order)
qed simp_all

lemma strict_sorted_edges: "sorted_wrt (<) (price_edges lb ub)"
  unfolding price_edges_def by (rule strict_sorted_remdups_adj, rule sorted_sort)

lemma windows2_Cons [simp]: "windows2 [] = []" "windows2 [x] = []"
  "windows2 (x # y # zs) = (x, y) # windows2 (y # zs)"
  by (simp_all add: windows2_def)

lemma windows2_increasing:
  "sorted_wrt (<) xs \<Longrightarrow> \<forall>(a, b) \<in> set (windows2 xs). a < (b :: u64)"
  "sorted_wrt (<) xs \<Longrightarrow> sorted_wrt (<) (map fst (windows2 xs))"
proof -
  assume xs: "sorted_wrt (<) xs"
  show "\<forall>(a, b) \<in> set (windows2 xs). a < (b :: u64)"
    using xs by (induction xs rule: induct_list012) auto
  have "map fst (windows2 xs) = take (length xs - 1) xs"
    by (simp add: windows2_def map_fst_zip_take)
  with xs show "sorted_wrt (<) (map fst (windows2 xs))" by (simp add: sorted_wrt_take)
qed

text \<open>The breakpoints are starts of windows, in order, and the slopes are positive.\<close>

lemma slope_parts_spec:
  "slope_parts chk quote ws = Ok parts \<Longrightarrow> \<forall>(a, b) \<in> set ws. a < b \<Longrightarrow>
     sorted_wrt (<) (map fst ws) \<Longrightarrow>
     sorted_wrt (<) (map fst parts) \<and> set (map fst parts) \<subseteq> set (map fst ws) \<and>
     (\<forall>p \<in> set parts. 0 < snd p)"
proof (induction ws arbitrary: parts)
  case (Cons w rest)
  obtain a b where w: "w = (a, b)" by force
  have ab: "a < b" and above: "\<forall>x \<in> set (map fst rest). a < x"
    using Cons.prems(2,3) by (simp_all add: w)
  have rest: "sorted_wrt (<) (map fst ps) \<and> set (map fst ps) \<subseteq> set (map fst rest) \<and>
      (\<forall>p \<in> set ps. 0 < snd p)" if "slope_parts chk quote rest = Ok ps" for ps
    using that Cons.prems(2,3) by (intro Cons.IH) auto
  have slope: "0 < f64_div (f64_of_u64 r) (f64_of_u64 d)"
    if "plain_sub chk ob oa = (Ok r :: u64 vres)" "oa < ob" "plain_sub chk b a = (Ok d :: u64 vres)"
    for r d oa ob
  proof -
    have "r = ob - oa" "d = b - a" using that by (auto simp: plain_sub_def split: if_splits)
    moreover have "ob - oa \<noteq> 0" "b - a \<noteq> 0" using that(2) ab by auto
    ultimately show ?thesis by (simp add: f64_div_pos f64_of_u64_pos)
  qed
  obtain qa qb where "quote a = Ok qa" "quote b = Ok qb" using Cons.prems(1) by (auto simp: w)
  with Cons.prems(1) have step: "(case (qa, qb) of
      (Some oa, Some ob) \<Rightarrow>
        if oa < ob then
          and_then (plain_sub chk ob oa) (\<lambda>rise.
          and_then (plain_sub chk b a) (\<lambda>run.
          and_then (slope_parts chk quote rest) (\<lambda>parts.
          Ok ((a, f64_div (f64_of_u64 rise) (f64_of_u64 run)) # parts))))
        else slope_parts chk quote rest
    | _ \<Rightarrow> slope_parts chk quote rest) = Ok parts"
    by (simp only: w slope_parts.simps and_then.simps)
  consider "slope_parts chk quote rest = Ok parts"
    | ps r d oa ob where "slope_parts chk quote rest = Ok ps" "oa < ob"
      "plain_sub chk ob oa = (Ok r :: u64 vres)" "plain_sub chk b a = (Ok d :: u64 vres)"
      "parts = (a, f64_div (f64_of_u64 r) (f64_of_u64 d)) # ps"
  proof (cases "\<exists>oa ob. qa = Some oa \<and> qb = Some ob \<and> oa < ob")
    case True
    then obtain oa ob where q: "qa = Some oa" "qb = Some ob" "oa < ob" by blast
    from step [unfolded q(1,2) prod.case option.case if_P [OF q(3)]] show ?thesis
      by (elim ok_elims) (rule that(2), assumption, rule q(3), assumption, assumption, simp)
  next
    case False
    with step have "slope_parts chk quote rest = Ok parts" by (auto split: option.splits)
    then show ?thesis by (rule that(1))
  qed
  then show ?case
  proof cases
    case 1
    with rest show ?thesis by (auto simp: w)
  next
    case 2
    note r = rest [OF 2(1)]
    then have "\<forall>x \<in> set (map fst ps). a < x" using above by blast
    moreover have "0 < f64_div (f64_of_u64 r) (f64_of_u64 d)" using 2 by (intro slope)
    ultimately show ?thesis using r by (auto simp: w 2(5))
  qed
qed simp

lemma slope_parts_no_panic:
  "(\<And>x. quote x \<noteq> Panic) \<Longrightarrow> \<forall>(a, b) \<in> set ws. a < b \<Longrightarrow> slope_parts chk quote ws \<noteq> Panic"
proof (induction ws)
  case (Cons w rest)
  obtain a b where w: "w = (a, b)" by force
  from Cons have rest: "slope_parts chk quote rest \<noteq> Panic" by auto
  have "plain_sub chk b a \<noteq> Panic" using Cons.prems(2) by (simp add: w plain_sub_def less_imp_le)
  with Cons.prems(1) rest show ?case
    by (auto simp: w plain_sub_def split: option.splits if_splits)
qed simp

lemma level_prices_fst [simp]: "map fst (level_prices parts) = map fst parts"
  by (induction parts rule: level_prices.induct) (auto simp: Let_def)

lemma level_prices_decreasing:
  "sorted_wrt (\<ge>) (map snd (level_prices parts)) \<and>
   ((\<forall>p \<in> set parts. 0 < snd p) \<longrightarrow> (\<forall>p \<in> set (level_prices parts). 0 < snd p))"
proof (induction parts rule: level_prices.induct)
  case (3 c p part rest)
  obtain q qs where q: "level_prices (part # rest) = q # qs"
    using level_prices_fst [of "part # rest"] by (cases "level_prices (part # rest)") auto
  define p' where "p' = (if p < snd q then snd q else p)"
  have lev: "level_prices ((c, p) # part # rest) = (c, p') # q # qs" by (simp add: q p'_def)
  have p': "snd q \<le> p'" "p \<le> p'" by (auto simp: p'_def)
  have IH: "sorted_wrt (\<ge>) (map snd (q # qs))"
    "(\<forall>p \<in> set (part # rest). 0 < snd p) \<Longrightarrow> (\<forall>p \<in> set (q # qs). 0 < snd p)"
    using "3.IH" unfolding q by blast+
  have "sorted_wrt (\<ge>) (map snd (level_prices ((c, p) # part # rest)))"
    using IH(1) p'(1) unfolding lev by (force intro: order.trans)
  moreover have "\<forall>x \<in> set (level_prices ((c, p) # part # rest)). 0 < snd x"
    if "\<forall>x \<in> set ((c, p) # part # rest). 0 < snd x"
    using IH(2) that p'(2) unfolding lev by force
  ultimately show ?case by blast
qed simp_all

lemma sorted_wrt_fst_snd:
  "sorted_wrt (<) (map fst ps) \<Longrightarrow> sorted_wrt (\<ge>) (map snd ps) \<Longrightarrow>
   sorted_wrt (\<lambda>p q. fst p < fst q \<and> snd q \<le> snd p) ps"
  by (induction ps) auto

lemma price_parts_ok:
  assumes "price_parts chk bounds quote = Ok parts"
  shows "parts_ok parts"
proof (cases "\<exists>lb ub. bounds = Some (lb, ub) \<and> lb < ub")
  case False
  with assms show ?thesis by (auto simp: price_parts_def not_less split: option.splits prod.splits)
next
  case True
  then obtain lb ub where b: "bounds = Some (lb, ub)" "lb < ub" by blast
  from assms b obtain slopes where s: "slope_parts chk quote (windows2 (price_edges lb ub)) = Ok slopes"
    and parts: "parts = level_prices slopes"
    by (auto simp: price_parts_def not_le split: if_splits)
  from slope_parts_spec [OF s windows2_increasing [OF strict_sorted_edges]]
  have "sorted_wrt (<) (map fst parts)" "\<forall>p \<in> set parts. 0 < snd p"
    using level_prices_decreasing [of slopes] by (simp_all add: parts)
  moreover have "sorted_wrt (\<ge>) (map snd parts)"
    using level_prices_decreasing [of slopes] by (simp add: parts)
  ultimately show ?thesis by (simp add: parts_ok_def sorted_wrt_fst_snd)
qed

lemma price_parts_no_panic:
  assumes "\<And>x. quote x \<noteq> Panic"
  shows "price_parts chk bounds quote \<noteq> Panic"
proof -
  have "slope_parts chk quote (windows2 (price_edges lb ub)) \<noteq> Panic" for lb ub
    using assms windows2_increasing(1) [OF strict_sorted_edges] by (rule slope_parts_no_panic)
  then show ?thesis by (simp add: price_parts_def split: option.splits prod.splits)
qed

text \<open>The price of an amount on prices that do not increase.\<close>

lemma price_at_simps [simp]: "price_at [] x = 0"
  "price_at ((c, p) # rest) x = (if \<exists>q \<in> set rest. fst q \<le> x then price_at rest x else p)"
proof -
  show "price_at [] x = 0" by (simp add: price_at_def)
  have app: "find P (xs @ ys) = (case find P xs of None \<Rightarrow> find P ys | Some v \<Rightarrow> Some v)"
    for P :: "u64 \<times> f64 \<Rightarrow> bool" and xs ys
    by (induction xs) auto
  have none: "find (\<lambda>(c, _). c \<le> x) (rev rest) = None \<longleftrightarrow> \<not> (\<exists>q \<in> set rest. fst q \<le> x)"
    by (auto simp: find_None_iff)
  show "price_at ((c, p) # rest) x = (if \<exists>q \<in> set rest. fst q \<le> x then price_at rest x else p)"
  proof (cases "\<exists>q \<in> set rest. fst q \<le> x")
    case True
    then obtain v where "find (\<lambda>(c, _). c \<le> x) (rev rest) = Some v" using none by blast
    with True show ?thesis by (simp add: price_at_def app)
  next
    case False
    then have "find (\<lambda>(c, _). c \<le> x) (rev rest) = None" using none by blast
    with False show ?thesis by (simp add: price_at_def app)
  qed
qed

lemma price_at_mem: "parts \<noteq> [] \<Longrightarrow> price_at parts x \<in> snd ` set parts"
proof (induction parts)
  case (Cons part rest)
  show ?case
  proof (cases "\<exists>q \<in> set rest. fst q \<le> x")
    case True
    then have "rest \<noteq> []" by auto
    with Cons.IH True show ?thesis by (cases part) simp
  qed (cases part, simp)
qed simp

lemma price_at_antimono:
  "parts_ok parts \<Longrightarrow> x \<le> y \<Longrightarrow> price_at parts y \<le> price_at parts x"
proof (induction parts)
  case (Cons part rest)
  obtain c p where part: "part = (c, p)" by force
  from Cons.prems have rest: "parts_ok rest" and below: "\<forall>q \<in> set rest. snd q \<le> p"
    by (auto simp: parts_ok_def part)
  show ?case
  proof (cases "\<exists>q \<in> set rest. fst q \<le> x")
    case True
    then have "\<exists>q \<in> set rest. fst q \<le> y" using Cons.prems(2) by (meson order.trans)
    with True Cons.IH [OF rest Cons.prems(2)] show ?thesis by (simp add: part)
  next
    case False
    have "price_at rest y \<le> p" if "rest \<noteq> []" using price_at_mem [OF that, of y] below by auto
    with False show ?thesis by (cases "rest = []") (simp_all add: part)
  qed
qed simp

lemma price_at_pos: "parts_ok parts \<Longrightarrow> parts \<noteq> [] \<Longrightarrow> 0 < price_at parts x"
  using price_at_mem [of parts x] by (auto simp: parts_ok_def)


end
