(* ===== verification/Share_Math.thy ===== *)
theory Share_Math
  imports Wrapper_Vault
begin

text \<open>
  The accounting every backend shares. A deposit mints \<open>gained * supply div held\<close> wrapper tokens
  for what the source position gained, a withdrawal redeems \<open>amount * held div supply\<close> of it. The
  lemmas are over natural numbers: both roundings favour the vault.

  The locale \<open>quoting_source\<close> is the interface of a backend as the venue uses it: two quoting
  functions and the laws every backend keeps. Each backend's theory interprets it.
\<close>

section \<open>Steps the quotes share\<close>

text \<open>
  The blocks of code the quotes of the backends repeat, with the error labels as arguments: the
  wrapper tokens to mint, the source shares to redeem, and the closing checks of a deposit and of a
  withdrawal. \<open>held\<close> is the source position, \<open>base\<close> the position the new one is computed from.
\<close>

definition pro_rata_mint ::
    "string \<Rightarrow> string \<Rightarrow> string \<Rightarrow> u64 \<Rightarrow> u128 \<Rightarrow> u64 \<Rightarrow> u64 \<Rightarrow> u64 vres" where
  "pro_rata_mint sync_label mul_label div_label supply held net gained =
     (if supply = 0 then Ok net
      else if held = 0 then Err (math_err sync_label)
      else
        and_then (ok_or (checked_mul (ucast gained :: u128) (ucast supply)) (math_err mul_label)) (\<lambda>prod.
        and_then (ok_or (checked_div prod held) (math_err div_label)) u128_to_u64))"

definition pro_rata_redeem :: "string \<Rightarrow> string \<Rightarrow> u64 \<Rightarrow> u128 \<Rightarrow> u64 \<Rightarrow> u64 vres" where
  "pro_rata_redeem mul_label div_label amount held supply =
     and_then (ok_or (checked_mul (ucast amount) held) (math_err mul_label)) (\<lambda>prod.
     and_then (ok_or (checked_div prod (ucast supply)) (math_err div_label)) u128_to_u64)"

definition settle_deposit ::
    "crates \<Rightarrow> string \<Rightarrow> u128 \<Rightarrow> u128 \<Rightarrow> u128 \<Rightarrow> u64 \<Rightarrow> u64 \<Rightarrow> unit vres" where
  "settle_deposit E label old_value base gained supply minted =
     and_then (ok_or (checked_add base gained) (math_err label)) (\<lambda>new_value.
     and_then (ok_or (checked_add supply minted) (math_err ''new supply'')) (\<lambda>new_supply.
     require_no_value_per_share_loss E old_value supply new_value new_supply))"

definition settle_withdraw ::
    "crates \<Rightarrow> string \<Rightarrow> u128 \<Rightarrow> u128 \<Rightarrow> u128 \<Rightarrow> u64 \<Rightarrow> u64 \<Rightarrow> unit vres" where
  "settle_withdraw E label old_value base redeemed supply amount =
     and_then (ok_or (checked_sub base redeemed) (math_err label)) (\<lambda>new_value.
     and_then (ok_or (checked_sub supply amount) (math_err ''new supply'')) (\<lambda>new_supply.
     require_no_value_per_share_loss E old_value supply new_value new_supply))"

text \<open>\<open>amount.checked_sub(protocol_fee).and_then(|x| x.checked_sub(creator_fee))\<close>.\<close>

definition sub_fees :: "u64 \<Rightarrow> u64 \<Rightarrow> u64 \<Rightarrow> u64 vres" where
  "sub_fees amount protocol_fee creator_fee =
     ok_or (case checked_sub amount protocol_fee of
              None \<Rightarrow> None | Some x \<Rightarrow> checked_sub x creator_fee)
       (math_err ''net amount'')"

text \<open>\<open>checked_add\<close> of the fees, then \<open>checked_sub\<close>, as the other backends write it.\<close>

definition sub_total_fee :: "string \<Rightarrow> u64 \<Rightarrow> u64 \<Rightarrow> u64 \<Rightarrow> u64 vres" where
  "sub_total_fee sum_label amount protocol_fee creator_fee =
     and_then (ok_or (checked_add protocol_fee creator_fee) (math_err sum_label)) (\<lambda>total_fee.
     ok_or (checked_sub amount total_fee) (math_err ''net amount''))"

lemma shared_no_panic [no_panic, simp]:
  "pro_rata_mint s1 s2 s3 supply held net gained \<noteq> Panic"
  "pro_rata_redeem s1 s2 amount held supply \<noteq> Panic"
  "sub_fees amount pf cf \<noteq> Panic" "sub_total_fee s1 amount pf cf \<noteq> Panic"
  by (simp_all add: pro_rata_mint_def pro_rata_redeem_def sub_fees_def sub_total_fee_def
      u128_to_u64_def)

lemma sub_fees_Ok: "sub_fees a pf cf = Ok net \<longleftrightarrow> unat a = unat pf + unat cf + unat net"
proof
  assume "sub_fees a pf cf = Ok net"
  then show "unat a = unat pf + unat cf + unat net"
    by (auto simp: sub_fees_def checked_sub_Some split: option.splits)
next
  assume eq: "unat a = unat pf + unat cf + unat net"
  then have "pf \<le> a" by (simp add: word_le_nat_alt)
  then have sub: "checked_sub a pf = Some (a - pf)" "unat (a - pf) = unat cf + unat net"
    using eq by (simp_all add: checked_sub_def unat_sub)
  then have "checked_sub (a - pf) cf = Some net" by (simp add: checked_sub_Some)
  with sub(1) show "sub_fees a pf cf = Ok net" by (simp add: sub_fees_def)
qed

lemma sub_total_fee_Ok:
  "sub_total_fee s a pf cf = Ok net \<longleftrightarrow> unat a = unat pf + unat cf + unat net"
proof
  assume "sub_total_fee s a pf cf = Ok net"
  then show "unat a = unat pf + unat cf + unat net"
    by (auto simp: sub_total_fee_def checked_sub_Some checked_add_Some)
next
  assume eq: "unat a = unat pf + unat cf + unat net"
  then have "unat pf + unat cf < 2 ^ 64" using unat_lt_64 [of a] by simp
  then have "checked_add pf cf = Some (pf + cf)" "unat (pf + cf) = unat pf + unat cf"
    by (simp_all add: checked_add_def unat_word_ariths)
  with eq show "sub_total_fee s a pf cf = Ok net" by (simp add: sub_total_fee_def checked_sub_Some)
qed

lemma pro_rata_mint_Ok:
  "pro_rata_mint s1 s2 s3 supply held net gained = Ok m \<longleftrightarrow>
     supply = 0 \<and> m = net \<or>
     supply \<noteq> 0 \<and> held \<noteq> 0 \<and> unat m = unat gained * unat supply div unat held"
proof -
  have "checked_mul (ucast gained :: u128) (ucast supply) = Some (ucast gained * ucast supply)"
    "unat (ucast gained * ucast supply :: u128) = unat gained * unat supply"
    using u64_mul_fits_u128 [of gained "supply"] by (simp_all add: checked_mul_def unat_word_ariths)
  then show ?thesis
    by (auto simp: pro_rata_mint_def checked_div_def u128_to_u64_Ok unat_div)
qed

lemma unat_ucast_64_128_eq_0 [simp]: "(ucast (x :: u64) :: u128) = 0 \<longleftrightarrow> x = 0"
  by (metis unat_eq_zero unat_ucast_64_128)

lemma pro_rata_redeem_Ok:
  "pro_rata_redeem s1 s2 amount held supply = Ok r \<longleftrightarrow>
     unat amount * unat held < 2 ^ 128 \<and> supply \<noteq> 0 \<and>
     unat r = unat amount * unat held div unat supply"
proof (cases "unat amount * unat held < 2 ^ 128")
  case True
  then have "checked_mul (ucast amount) held = Some (ucast amount * held)"
    "unat (ucast amount * held :: u128) = unat amount * unat held"
    by (simp_all add: checked_mul_def unat_word_ariths)
  with True show ?thesis
    by (auto simp: pro_rata_redeem_def checked_div_def u128_to_u64_Ok unat_div)
next
  case False
  then show ?thesis by (simp add: pro_rata_redeem_def checked_mul_def)
qed

lemma settle_deposit_fits:
  "settle_deposit E label ov base gained supply minted = Ok u \<Longrightarrow>
     unat base + unat gained < 2 ^ 128 \<and> unat supply + unat minted < 2 ^ 64"
  by (auto simp: settle_deposit_def checked_add_def split: if_splits)

lemma settle_withdraw_le:
  "settle_withdraw E label ov base redeemed supply amount = Ok u \<Longrightarrow>
     redeemed \<le> base \<and> amount \<le> supply"
  by (auto simp: settle_withdraw_def checked_sub_def split: if_splits)

context uint_laws
begin

lemma settle_deposit_Ok:
  "settle_deposit E label ov base gained supply minted = Ok u \<longleftrightarrow>
     unat base + unat gained < 2 ^ 128 \<and> unat supply + unat minted < 2 ^ 64 \<and>
     (supply = 0 \<or>
      unat ov * (unat supply + unat minted) \<le> (unat base + unat gained) * unat supply)"
proof (cases "unat base + unat gained < 2 ^ 128 \<and> unat supply + unat minted < 2 ^ 64")
  case True
  then have sums: "checked_add base gained = Some (base + gained)"
    "checked_add supply minted = Some (supply + minted)"
    and nat: "unat (base + gained) = unat base + unat gained"
    "unat (supply + minted) = unat supply + unat minted"
    by (simp_all add: checked_add_def unat_word_ariths)
  have zero: "supply + minted = 0 \<Longrightarrow> supply = 0"
    using nat(2) by (metis add_is_0 unat_0 unat_eq_zero)
  from True zero show ?thesis
    by (auto simp: settle_deposit_def sums no_loss_iff nat)
qed (auto simp: settle_deposit_def checked_add_def)

lemma settle_withdraw_Ok:
  "settle_withdraw E label ov base redeemed supply amount = Ok u \<longleftrightarrow>
     redeemed \<le> base \<and> amount \<le> supply \<and>
     (supply = 0 \<or> amount = supply \<or>
      unat ov * (unat supply - unat amount) \<le> (unat base - unat redeemed) * unat supply)"
proof (cases "redeemed \<le> base \<and> amount \<le> supply")
  case True
  then have subs: "checked_sub base redeemed = Some (base - redeemed)"
    "checked_sub supply amount = Some (supply - amount)"
    and nat: "unat (base - redeemed) = unat base - unat redeemed"
    "unat (supply - amount) = unat supply - unat amount"
    by (simp_all add: checked_sub_def unat_sub word_le_nat_alt)
  from True show ?thesis
    by (auto simp: settle_withdraw_def subs no_loss_iff nat)
qed (auto simp: settle_withdraw_def checked_sub_def)

lemma settle_no_panic [no_panic, simp]:
  "settle_deposit E label ov base gained supply minted \<noteq> Panic"
  "settle_withdraw E label ov base redeemed supply amount \<noteq> Panic"
  by (simp_all add: settle_deposit_def settle_withdraw_def no_loss_iff)

end

section \<open>Pro-rata minting and redeeming\<close>

lemma mint_keeps_value:
  fixes held :: nat
  assumes "minted \<le> gained * supply div held"
  shows "held * (supply + minted) \<le> (held + gained) * supply"
proof -
  have "held * minted \<le> gained * supply"
    using assms by (metis mult.commute mult_le_mono1 order.trans times_div_less_eq_dividend)
  then show ?thesis by (simp add: distrib_left distrib_right mult.commute)
qed

lemma redeem_keeps_value:
  fixes held :: nat
  assumes "redeemed \<le> amount * held div supply" "amount \<le> supply"
  shows "held * (supply - amount) \<le> (held - redeemed) * supply"
proof -
  have "supply * redeemed \<le> amount * held"
    using assms(1) by (metis mult_le_mono2 order.trans times_div_less_eq_dividend mult.commute)
  then show ?thesis
    by (simp add: diff_mult_distrib diff_mult_distrib2 mult.commute)
qed

lemma redeem_le_held:
  fixes held :: nat
  assumes "amount \<le> supply" "0 < supply"
  shows "amount * held div supply \<le> held"
proof -
  have "amount * held div supply \<le> supply * held div supply"
    using assms by (intro div_le_mono mult_le_mono1) auto
  with assms show ?thesis by simp
qed

text \<open>Minting for a gain and redeeming what was minted never returns more than the gain.\<close>

lemma mint_redeem_le:
  fixes held :: nat
  assumes "0 < held" "minted \<le> gained * supply div held" "0 < supply + minted"
  shows "minted * (held + gained) div (supply + minted) \<le> gained"
proof -
  have "held * minted \<le> gained * supply"
    using assms(2) by (metis mult_le_mono2 order.trans times_div_less_eq_dividend mult.commute)
  then have "minted * (held + gained) \<le> gained * (supply + minted)"
    by (simp add: distrib_left mult.commute)
  then have "minted * (held + gained) div (supply + minted)
      \<le> gained * (supply + minted) div (supply + minted)"
    by (rule div_le_mono)
  with assms(3) show ?thesis by simp
qed

section \<open>The interface of a backend\<close>

locale quoting_source =
  fixes quote_deposit :: "wrapper_vault \<Rightarrow> global_config \<Rightarrow> u64 \<Rightarrow> u64 vres"
    and quote_withdraw :: "wrapper_vault \<Rightarrow> u64 \<Rightarrow> u64 vres"
  assumes deposit_zero: "quote_deposit wv gc 0 \<noteq> Ok r"
    and withdraw_zero: "quote_withdraw wv 0 \<noteq> Ok r"
    and deposit_positive: "quote_deposit wv gc a = Ok r \<Longrightarrow> r \<noteq> 0"
    and withdraw_positive: "quote_withdraw wv a = Ok r \<Longrightarrow> r \<noteq> 0"
    and deposit_supply_fits:
      "quote_deposit wv gc a = Ok r \<Longrightarrow> unat (wv_wrapper_supply wv) + unat r < 2 ^ 64"
    and deposit_first:
      "quote_deposit wv gc a = Ok r \<Longrightarrow> wv_wrapper_supply wv = 0 \<Longrightarrow> r \<le> a"
    and withdraw_within_supply: "quote_withdraw wv a = Ok r \<Longrightarrow> a \<le> wv_wrapper_supply wv"
begin

text \<open>Whatever the direction, a quote is for a positive amount and gives a positive amount.\<close>

lemma quote_positive:
  "(case d of Deposit \<Rightarrow> quote_deposit wv gc a | Withdraw \<Rightarrow> quote_withdraw wv a) = Ok r \<Longrightarrow>
    a \<noteq> 0 \<and> r \<noteq> 0"
  using deposit_zero withdraw_zero deposit_positive withdraw_positive
  by (cases d) auto

lemma empty_vault_withdraws_nothing: "wv_wrapper_supply wv = 0 \<Longrightarrow> quote_withdraw wv a \<noteq> Ok r"
  using withdraw_within_supply [of wv a r] withdraw_zero [of wv r] by (auto simp: word_le_nat_alt unat_eq_zero)

end

text \<open>
  The swap instructions of a backend: for one program, with an 8-byte discriminator, the amount and
  the least output little-endian behind it, and the user first and alone as a signer.
\<close>

definition is_swap_ix :: "pubkey \<Rightarrow> bytes \<Rightarrow> pubkey \<Rightarrow> u64 \<Rightarrow> u64 \<Rightarrow> instruction \<Rightarrow> bool" where
  "is_swap_ix program disc user in_amount min_out ix \<longleftrightarrow>
     ix_program_id ix = program \<and>
     ix_data ix = disc @ to_le_bytes 8 in_amount @ to_le_bytes 8 min_out \<and>
     (\<exists>rest. ix_accounts ix = meta_new user True # rest \<and>
       list_all (\<lambda>meta. \<not> am_is_signer meta) rest)"

locale swap_builder =
  fixes program :: pubkey
    and deposit_disc withdraw_disc :: bytes
    and build_deposit_ix build_withdraw_ix ::
      "wrapper_vault \<Rightarrow> pubkey \<Rightarrow> u64 \<Rightarrow> u64 \<Rightarrow> instruction vres"
  assumes disc_length: "length deposit_disc = 8" "length withdraw_disc = 8"
    and deposit_ix:
      "build_deposit_ix wv user a m = Ok ix \<Longrightarrow> is_swap_ix program deposit_disc user a m ix"
    and withdraw_ix:
      "build_withdraw_ix wv user a m = Ok ix \<Longrightarrow> is_swap_ix program withdraw_disc user a m ix"
begin

lemma data_parts:
  assumes "(case d of Deposit \<Rightarrow> build_deposit_ix wv user a m | Withdraw \<Rightarrow> build_withdraw_ix wv user a m) = Ok ix"
  shows "take 8 (ix_data ix) = (case d of Deposit \<Rightarrow> deposit_disc | Withdraw \<Rightarrow> withdraw_disc)"
    "from_le_bytes (take 8 (drop 8 (ix_data ix))) = a" "from_le_bytes (drop 16 (ix_data ix)) = m"
    "length (ix_data ix) = 24"
  using assms disc_length
  by (auto simp: is_swap_ix_def from_to_le_bytes dest!: deposit_ix withdraw_ix split: direction.splits)

end

section \<open>Round trips and concrete vaults\<close>

text \<open>The vault after a deposit that mints \<open>m\<close> wrapper tokens and gains \<open>c\<close> source shares.\<close>

definition deposited :: "wrapper_vault \<Rightarrow> u64 \<Rightarrow> u64 \<Rightarrow> wrapper_vault" where
  "deposited wv m c =
     wv\<lparr> wv_wrapper_supply := wv_wrapper_supply wv + m,
         wv_intermediate_held := wv_intermediate_held wv + ucast c \<rparr>"

lemma deposited_redeem_le:
  assumes mint: "pro_rata_mint s1 s2 s3 (wv_wrapper_supply wv) (wv_intermediate_held wv) net c = Ok m"
    and m: "m \<noteq> 0"
    and fits: "unat (wv_intermediate_held wv) + unat c < 2 ^ 128"
      "unat (wv_wrapper_supply wv) + unat m < 2 ^ 64"
    and first: "wv_wrapper_supply wv = 0 \<Longrightarrow> wv_intermediate_held wv = 0"
    and redeem: "pro_rata_redeem s4 s5 m (wv_intermediate_held (deposited wv m c))
      (wv_wrapper_supply (deposited wv m c)) = Ok r"
  shows "unat r \<le> unat c"
proof -
  let ?s = "unat (wv_wrapper_supply wv)" and ?h = "unat (wv_intermediate_held wv)"
  have h: "unat (wv_intermediate_held wv + ucast c) = ?h + unat c"
    and s: "unat (wv_wrapper_supply wv + m) = ?s + unat m"
    using fits by (simp_all add: unat_word_ariths)
  have r: "unat r = unat m * (?h + unat c) div (?s + unat m)"
    using redeem by (simp add: pro_rata_redeem_Ok deposited_def h s)
  have m0: "0 < unat m" using m by (simp add: unat_gt_0)
  show ?thesis
  proof (cases "wv_wrapper_supply wv = 0")
    case True
    with r first m0 show ?thesis by simp
  next
    case False
    with mint have "0 < ?h" "unat m \<le> unat c * ?s div ?h"
      by (simp_all add: pro_rata_mint_Ok unat_gt_0)
    from mint_redeem_le [OF this] m0 r show ?thesis by simp
  qed
qed

definition vault_sample :: wrapper_vault where
  "vault_sample = \<lparr> wv_version = 1, wv_bump = 0, wv_vault_authority_bump = 0, wv_protocol = 2,
     wv_creation_timestamp = 0, wv_creator = pubkey_default, wv_wrapper_mint = replicate 32 1,
     wv_underlying_mint = replicate 32 2, wv_source_pool = replicate 32 3,
     wv_source_position_pda = pubkey_default, wv_creator_deposit_fee_bps = 10,
     wv_intermediate_held = 0, wv_free_underlying_held = 0, wv_accumulated_creator_fees = 0,
     wv_accumulated_protocol_fees = 0, wv_wrapper_supply = 0,
     wv_protocol_data = replicate 200 0 \<rparr>"

definition config_sample :: global_config where
  "config_sample = \<lparr> gc_paused = False, gc_protocol_deposit_fee_bps = 10 \<rparr>"

lemmas arith_eval = std_ops Let_def frac_of_def i80_of_def fits_def checked_add_def checked_sub_def checked_mul_def checked_div_def
  saturating_add_def saturating_sub_def saturating_mul_def u256_try_u128_def try_u64_def
  mul_bps_def mul_div_u64_def full_bps_def u128_to_u64_def sub_fees_def sub_total_fee_def
  pro_rata_mint_def pro_rata_redeem_def settle_deposit_def settle_withdraw_def
  require_no_value_per_share_loss_def word_le_nat_alt word_less_nat_alt

end
