(* ===== verification/Save.thy ===== *)
theory Save
  imports Share_Math
begin

text \<open>
  The Save backend, \<open>src/src/your_venue/save/\<close>: WAD arithmetic (\<open>wad.rs\<close>), the reserve and its
  decoder (\<open>state.rs\<close>), interest accrual and the two quotes (\<open>math.rs\<close>), the refresh from accounts
  (\<open>update.rs\<close>), the account lists (\<open>account_metas.rs\<close>) and the backend itself (\<open>mod.rs\<close>).
\<close>

section \<open>WAD arithmetic (\<open>wad.rs\<close>)\<close>

type_synonym wad = u128

definition WAD :: wad where "WAD = 1000000000000000000"
definition SAVE_SLOTS_PER_YEAR :: u64 where "SAVE_SLOTS_PER_YEAR = 63072000"

definition wad_from_u64 :: "u64 \<Rightarrow> wad" where
  "wad_from_u64 amount = saturating_mul (ucast amount) WAD"

definition wad_from_percent :: "u8 \<Rightarrow> wad" where
  "wad_from_percent pct = saturating_mul (ucast pct) (WAD div 100)"

definition wad_to_floor_u64 :: "wad \<Rightarrow> u64" where
  "wad_to_floor_u64 w = ucast (w div WAD)"

definition wad_to_ceil_u64 :: "wad \<Rightarrow> u64" where
  "wad_to_ceil_u64 w = ucast (saturating_add w (WAD - 1) div WAD)"

definition wad_mul :: "crates \<Rightarrow> wad \<Rightarrow> wad \<Rightarrow> wad vres" where
  "wad_mul E a b =
     and_then (or_panic (u256_mul E (u256_of a) (u256_of b))) (\<lambda>product.
     and_then (or_panic (u256_div E product (u256_of WAD))) (\<lambda>scaled.
     ok_or (u256_try_u128 scaled) (math_err ''wad_mul overflow'')))"

definition wad_div :: "crates \<Rightarrow> wad \<Rightarrow> wad \<Rightarrow> wad vres" where
  "wad_div E a b =
     (if b = 0 then Err (math_err ''wad_div by zero'')
      else
        and_then (or_panic (u256_mul E (u256_of a) (u256_of WAD))) (\<lambda>scaled.
        and_then (or_panic (u256_div E scaled (u256_of b))) (\<lambda>quot.
        ok_or (u256_try_u128 quot) (math_err ''wad_div overflow''))))"

text \<open>The loop of \<open>wad_pow\<close>: shift the exponent, stop at 0, square, multiply on a set bit.\<close>

function wad_pow_loop :: "crates \<Rightarrow> wad \<Rightarrow> u64 \<Rightarrow> wad \<Rightarrow> wad vres" where
  "wad_pow_loop E base exponent ret =
     (let exponent' = drop_bit 1 exponent
      in if exponent' = 0 then Ok ret
         else and_then (wad_mul E base base) (\<lambda>base'.
           if exponent' mod 2 \<noteq> 0
           then and_then (wad_mul E ret base') (\<lambda>ret'. wad_pow_loop E base' exponent' ret')
           else wad_pow_loop E base' exponent' ret))"
  by pat_completeness auto
termination
proof (relation "measure (\<lambda>(E, b, e, r). unat e)", goal_cases)
  case 1
  show ?case by simp
qed (auto simp: drop_bit_eq_div unat_div unat_eq_zero [symmetric])

declare wad_pow_loop.simps [simp del]

definition wad_pow :: "crates \<Rightarrow> wad \<Rightarrow> u64 \<Rightarrow> wad vres" where
  "wad_pow E base exponent =
     wad_pow_loop E base exponent (if exponent mod 2 \<noteq> 0 then base else WAD)"

section \<open>The reserve (\<open>state.rs\<close>)\<close>

record save_state =
  sv_last_update_slot :: u64
  sv_lending_market :: pubkey
  sv_mint_pubkey :: pubkey
  sv_supply_vault :: pubkey
  sv_pyth_oracle :: pubkey
  sv_switchboard_oracle :: pubkey
  sv_available_amount :: u64
  sv_borrowed_amount_wads :: wad
  sv_accumulated_protocol_fees_wads :: wad
  sv_collateral_mint_pubkey :: pubkey
  sv_collateral_supply_vault :: pubkey
  sv_collateral_mint_total_supply :: u64
  sv_optimal_utilization_rate :: u8
  sv_max_utilization_rate :: u8
  sv_min_borrow_rate :: u8
  sv_optimal_borrow_rate :: u8
  sv_max_borrow_rate :: u8
  sv_super_max_borrow_rate :: u64
  sv_protocol_take_rate :: u8
  sv_deposit_limit :: u64
  sv_extra_oracle_pubkey :: pubkey

definition SAVE_RESERVE_LEN :: nat where "SAVE_RESERVE_LEN = 619"

definition save_state_default :: save_state where
  "save_state_default =
     \<lparr> sv_last_update_slot = 0, sv_lending_market = pubkey_default,
       sv_mint_pubkey = pubkey_default, sv_supply_vault = pubkey_default,
       sv_pyth_oracle = pubkey_default, sv_switchboard_oracle = pubkey_default,
       sv_available_amount = 0, sv_borrowed_amount_wads = 0,
       sv_accumulated_protocol_fees_wads = 0, sv_collateral_mint_pubkey = pubkey_default,
       sv_collateral_supply_vault = pubkey_default, sv_collateral_mint_total_supply = 0,
       sv_optimal_utilization_rate = 0, sv_max_utilization_rate = 0, sv_min_borrow_rate = 0,
       sv_optimal_borrow_rate = 0, sv_max_borrow_rate = 0, sv_super_max_borrow_rate = 0,
       sv_protocol_take_rate = 0, sv_deposit_limit = 0, sv_extra_oracle_pubkey = pubkey_default \<rparr>"

definition save_decode :: "bytes \<Rightarrow> save_state vres" where
  "save_decode data =
     (if length data < SAVE_RESERVE_LEN then Err (deser_err ''save reserve: length'')
      else
        and_then (read_u64 data 1 ''save.last_update.slot'') (\<lambda>last_update_slot.
        and_then (read_pubkey data 10 ''save.lending_market'') (\<lambda>lending_market.
        and_then (read_pubkey data 42 ''save.liquidity.mint_pubkey'') (\<lambda>mint_pubkey.
        and_then (read_pubkey data 75 ''save.liquidity.supply_pubkey'') (\<lambda>supply_vault.
        and_then (read_pubkey data 107 ''save.liquidity.pyth_oracle'') (\<lambda>pyth_oracle.
        and_then (read_pubkey data 139 ''save.liquidity.switchboard_oracle'') (\<lambda>switchboard_oracle.
        and_then (read_u64 data 171 ''save.liquidity.available_amount'') (\<lambda>available_amount.
        and_then (read_u128 data 179 ''save.liquidity.borrowed_amount_wads'') (\<lambda>borrowed.
        and_then (read_u128 data 373 ''save.liquidity.accumulated_protocol_fees_wads'') (\<lambda>fees.
        and_then (read_pubkey data 227 ''save.collateral.mint_pubkey'') (\<lambda>collateral_mint.
        and_then (read_pubkey data 267 ''save.collateral.supply_pubkey'') (\<lambda>collateral_vault.
        and_then (read_u64 data 259 ''save.collateral.mint_total_supply'') (\<lambda>collateral_supply.
        and_then (index_at data 299) (\<lambda>optimal_utilization_rate.
        and_then (index_at data 303) (\<lambda>min_borrow_rate.
        and_then (index_at data 304) (\<lambda>optimal_borrow_rate.
        and_then (index_at data 305) (\<lambda>max_borrow_rate.
        and_then (read_u64 data 323 ''save.config.deposit_limit'') (\<lambda>deposit_limit.
        and_then (index_at data 372) (\<lambda>protocol_take_rate.
        and_then (index_at data 470) (\<lambda>max_utilization_rate.
        and_then (read_u64 data 471 ''save.config.super_max_borrow_rate'') (\<lambda>super_max_borrow_rate.
        and_then (read_pubkey data 489 ''save.config.extra_oracle_pubkey'') (\<lambda>extra_oracle.
        Ok \<lparr> sv_last_update_slot = last_update_slot, sv_lending_market = lending_market,
             sv_mint_pubkey = mint_pubkey, sv_supply_vault = supply_vault,
             sv_pyth_oracle = pyth_oracle, sv_switchboard_oracle = switchboard_oracle,
             sv_available_amount = available_amount, sv_borrowed_amount_wads = borrowed,
             sv_accumulated_protocol_fees_wads = fees,
             sv_collateral_mint_pubkey = collateral_mint,
             sv_collateral_supply_vault = collateral_vault,
             sv_collateral_mint_total_supply = collateral_supply,
             sv_optimal_utilization_rate = optimal_utilization_rate,
             sv_max_utilization_rate = max_utilization_rate, sv_min_borrow_rate = min_borrow_rate,
             sv_optimal_borrow_rate = optimal_borrow_rate, sv_max_borrow_rate = max_borrow_rate,
             sv_super_max_borrow_rate = super_max_borrow_rate,
             sv_protocol_take_rate = protocol_take_rate, sv_deposit_limit = deposit_limit,
             sv_extra_oracle_pubkey = extra_oracle \<rparr>))))))))))))))))))))))"

section \<open>Interest accrual (\<open>math.rs\<close>)\<close>

definition INITIAL_COLLATERAL_RATE :: wad where "INITIAL_COLLATERAL_RATE = WAD"

record accrued_save =
  as_borrowed_amount_wads :: wad
  as_accumulated_protocol_fees_wads :: wad

definition save_utilization_rate :: "crates \<Rightarrow> save_state \<Rightarrow> accrued_save \<Rightarrow> wad vres" where
  "save_utilization_rate E state accrued =
     (if as_borrowed_amount_wads accrued = 0 then Ok 0
      else
        let available_w = wad_from_u64 (sv_available_amount state)
        in and_then (ok_or (checked_add available_w (as_borrowed_amount_wads accrued))
                      (math_err ''utilization denom'')) (\<lambda>denom.
           if denom = 0 then Ok 0 else wad_div E (as_borrowed_amount_wads accrued) denom))"

definition save_current_borrow_rate :: "crates \<Rightarrow> save_state \<Rightarrow> wad vres" where
  "save_current_borrow_rate E state =
     (let pre = \<lparr> as_borrowed_amount_wads = sv_borrowed_amount_wads state,
                  as_accumulated_protocol_fees_wads = sv_accumulated_protocol_fees_wads state \<rparr>
      in and_then (save_utilization_rate E state pre) (\<lambda>utilization.
      let optimal_util = wad_from_percent (sv_optimal_utilization_rate state);
          max_util = wad_from_percent (sv_max_utilization_rate state);
          min_rate = wad_from_percent (sv_min_borrow_rate state);
          optimal_rate = wad_from_percent (sv_optimal_borrow_rate state);
          max_rate = wad_from_percent (sv_max_borrow_rate state)
      in if utilization \<le> optimal_util then
           if optimal_util = 0 then Ok min_rate
           else
             and_then (wad_div E utilization optimal_util) (\<lambda>normalized.
             let rate_range = saturating_sub optimal_rate min_rate
             in and_then (wad_mul E normalized rate_range) (\<lambda>segment.
                Ok (saturating_add min_rate segment)))
         else if utilization \<le> max_util then
           let span = saturating_sub max_util optimal_util
           in if span = 0 then Ok optimal_rate
              else
                and_then (wad_div E (saturating_sub utilization optimal_util) span) (\<lambda>normalized.
                let rate_range = saturating_sub max_rate optimal_rate
                in and_then (wad_mul E normalized rate_range) (\<lambda>segment.
                   Ok (saturating_add optimal_rate segment)))
         else
           let max_util_pct = ucast (sv_max_utilization_rate state) :: u128;
               denom_pct = saturating_sub 100 max_util_pct
           in if denom_pct = 0 then Ok max_rate
              else
                let denom = wad_from_percent (ucast denom_pct)
                in and_then (wad_div E (saturating_sub utilization max_util) denom) (\<lambda>normalized.
                   let super_max_rate =
                         saturating_mul (ucast (sv_super_max_borrow_rate state)) (WAD div 100);
                       rate_range = saturating_sub super_max_rate max_rate
                   in and_then (wad_mul E normalized rate_range) (\<lambda>segment.
                      Ok (saturating_add max_rate segment)))))"

definition save_accrue_interest :: "crates \<Rightarrow> save_state \<Rightarrow> u64 \<Rightarrow> accrued_save vres" where
  "save_accrue_interest E state current_slot =
     (let slots_elapsed = saturating_sub current_slot (sv_last_update_slot state)
      in if slots_elapsed = 0 \<or> sv_borrowed_amount_wads state = 0 then
           Ok \<lparr> as_borrowed_amount_wads = sv_borrowed_amount_wads state,
                as_accumulated_protocol_fees_wads = sv_accumulated_protocol_fees_wads state \<rparr>
         else
           and_then (save_current_borrow_rate E state) (\<lambda>borrow_rate.
           let slot_interest_rate = borrow_rate div ucast SAVE_SLOTS_PER_YEAR;
               one_plus_slot_rate = saturating_add WAD slot_interest_rate
           in and_then (wad_pow E one_plus_slot_rate slots_elapsed) (\<lambda>compounded.
              and_then (wad_mul E (sv_borrowed_amount_wads state) compounded) (\<lambda>new_borrowed.
              let net_new_debt = saturating_sub new_borrowed (sv_borrowed_amount_wads state);
                  take_rate = wad_from_percent (sv_protocol_take_rate state)
              in and_then (wad_mul E net_new_debt take_rate) (\<lambda>protocol_share.
                 let new_protocol_fees =
                       saturating_add (sv_accumulated_protocol_fees_wads state) protocol_share
                 in Ok \<lparr> as_borrowed_amount_wads = new_borrowed,
                         as_accumulated_protocol_fees_wads = new_protocol_fees \<rparr>)))))"

text \<open>\<open>pre_accrue\<close> changes the state only when the accrual succeeds.\<close>

definition save_pre_accrue :: "crates \<Rightarrow> save_state \<Rightarrow> u64 \<Rightarrow> save_state vres" where
  "save_pre_accrue E state current_slot =
     and_then (save_accrue_interest E state current_slot) (\<lambda>accrued.
     Ok (state\<lparr> sv_borrowed_amount_wads := as_borrowed_amount_wads accrued,
                sv_accumulated_protocol_fees_wads := as_accumulated_protocol_fees_wads accrued,
                sv_last_update_slot := current_slot \<rparr>))"

definition save_total_supply_wad :: "save_state \<Rightarrow> accrued_save \<Rightarrow> wad vres" where
  "save_total_supply_wad state accrued =
     (let available_w = wad_from_u64 (sv_available_amount state)
      in ok_or (case checked_add available_w (as_borrowed_amount_wads accrued) of
                  None \<Rightarrow> None
                | Some x \<Rightarrow> checked_sub x (as_accumulated_protocol_fees_wads accrued))
           (math_err ''total_supply_wad''))"

definition save_exchange_rate :: "crates \<Rightarrow> u64 \<Rightarrow> wad \<Rightarrow> wad vres" where
  "save_exchange_rate E collateral_supply total_supply_w =
     (if total_supply_w = 0 \<or> collateral_supply = 0 then Ok INITIAL_COLLATERAL_RATE
      else wad_div E (wad_from_u64 collateral_supply) total_supply_w)"

definition save_liquidity_to_collateral :: "crates \<Rightarrow> u64 \<Rightarrow> wad \<Rightarrow> u64 vres" where
  "save_liquidity_to_collateral E liquidity rate_w =
     and_then (wad_mul E (wad_from_u64 liquidity) rate_w) (\<lambda>product.
     Ok (wad_to_floor_u64 product))"

definition save_collateral_to_liquidity :: "crates \<Rightarrow> u64 \<Rightarrow> wad \<Rightarrow> u64 vres" where
  "save_collateral_to_liquidity E collateral rate_w =
     (if rate_w = 0 then Err (math_err ''rate_w=0'')
      else
        and_then (wad_div E (wad_from_u64 collateral) rate_w) (\<lambda>quot.
        Ok (wad_to_floor_u64 quot)))"

section \<open>Quotes (\<open>math.rs\<close>)\<close>

definition save_quote_deposit ::
    "crates \<Rightarrow> save_state \<Rightarrow> u64 \<Rightarrow> wrapper_vault \<Rightarrow> global_config \<Rightarrow> u64 \<Rightarrow> u64 vres" where
  "save_quote_deposit E state current_slot wv gc amount =
     (if amount = 0 then Err (math_err ''zero amount'')
      else
        and_then (save_accrue_interest E state current_slot) (\<lambda>accrued.
        and_then (save_total_supply_wad state accrued) (\<lambda>total_supply_w.
        and_then (save_exchange_rate E (sv_collateral_mint_total_supply state) total_supply_w)
          (\<lambda>exchange_rate_w.
        and_then (mul_bps amount (gc_protocol_deposit_fee_bps gc)) (\<lambda>protocol_fee.
        and_then (mul_bps amount (wv_creator_deposit_fee_bps wv)) (\<lambda>creator_fee.
        and_then (sub_fees amount protocol_fee creator_fee) (\<lambda>net_amount.
        if net_amount = 0 then Err (math_err ''net amount zero'')
        else
          and_then (ok_or (checked_add (wad_from_u64 net_amount) total_supply_w)
                      (math_err ''post supply'')) (\<lambda>post_supply_w.
          if sv_deposit_limit state < wad_to_floor_u64 post_supply_w
          then Err (math_err ''deposit limit exceeded'')
          else
            and_then (save_liquidity_to_collateral E net_amount exchange_rate_w)
              (\<lambda>collateral_received.
            if collateral_received = 0 then Err (math_err ''collateral zero'')
            else
              and_then (pro_rata_mint ''save: ctokens out of sync'' ''mint mul'' ''mint div''
                          (wv_wrapper_supply wv) (wv_intermediate_held wv) net_amount
                          collateral_received) (\<lambda>wrapper_to_mint.
              if wrapper_to_mint = 0 then Err (math_err ''mint zero'')
              else
                and_then (settle_deposit E ''new ctokens total'' (wv_intermediate_held wv)
                            (wv_intermediate_held wv) (ucast collateral_received)
                            (wv_wrapper_supply wv) wrapper_to_mint) (\<lambda>_.
                Ok wrapper_to_mint)))))))))))"

definition save_quote_withdraw ::
    "crates \<Rightarrow> save_state \<Rightarrow> u64 \<Rightarrow> wrapper_vault \<Rightarrow> u64 \<Rightarrow> u64 vres" where
  "save_quote_withdraw E state current_slot wv amount =
     (if amount = 0 then Err (math_err ''zero amount'')
      else if wv_wrapper_supply wv < amount then Err (math_err ''burn exceeds supply'')
      else if wv_intermediate_held wv = 0 then Err (math_err ''save: no cTokens'')
      else
        and_then (save_accrue_interest E state current_slot) (\<lambda>accrued.
        and_then (save_total_supply_wad state accrued) (\<lambda>total_supply_w.
        and_then (save_exchange_rate E (sv_collateral_mint_total_supply state) total_supply_w)
          (\<lambda>exchange_rate_w.
        and_then (pro_rata_redeem ''redeem mul'' ''redeem div'' amount (wv_intermediate_held wv)
                    (wv_wrapper_supply wv)) (\<lambda>ctokens_to_redeem.
        if ctokens_to_redeem = 0 then Err (math_err ''ctoken zero'')
        else
          and_then (save_collateral_to_liquidity E ctokens_to_redeem exchange_rate_w)
            (\<lambda>underlying_received.
          if underlying_received = 0 then Err (math_err ''underlying zero'')
          else if sv_available_amount state < underlying_received
          then Err (math_err ''insufficient liquidity'')
          else
            and_then (settle_withdraw E ''new ctokens total'' (wv_intermediate_held wv)
                        (wv_intermediate_held wv) (ucast ctokens_to_redeem)
                        (wv_wrapper_supply wv) amount) (\<lambda>_.
            Ok underlying_received)))))))"

section \<open>The refresh (\<open>update.rs\<close>)\<close>

definition save_required_pubkeys :: "crates \<Rightarrow> wrapper_vault \<Rightarrow> pubkey list" where
  "save_required_pubkeys E wv = [wv_source_pool wv, CLOCK_SYSVAR_ID E]"

text \<open>
  \<open>run\<close> writes the reserve, then the slot, then the accrued reserve: a failure leaves what was
  written before it.
\<close>

definition save_run ::
    "crates \<Rightarrow> wrapper_vault \<Rightarrow> accounts_cache \<Rightarrow> save_state \<Rightarrow> u64 \<Rightarrow>
      (save_state \<times> u64) \<times> unit vres" where
  "save_run E wv cache s current_slot =
     or_stop (get_accounts cache [wv_source_pool wv, CLOCK_SYSVAR_ID E]) (s, current_slot) (\<lambda>accounts.
     or_stop (ok_or (try_two accounts) FailedToFetchMultipleAccountData) (s, current_slot)
       (\<lambda>(reserve_opt, clock_opt).
     or_stop (ok_or reserve_opt (NoAccountFound (EPubkey (wv_source_pool wv)))) (s, current_slot)
       (\<lambda>reserve_acct.
     or_stop (ok_or clock_opt (NoAccountFound (EPubkey (CLOCK_SYSVAR_ID E)))) (s, current_slot)
       (\<lambda>clock_acct.
     or_stop (save_decode (acc_data reserve_acct)) (s, current_slot) (\<lambda>s1.
     or_stop (clock_field (acc_data clock_acct) 0 8 ''clock.slot'') (s1, current_slot) (\<lambda>slot.
     or_stop (save_pre_accrue E s1 slot) (s1, slot) (\<lambda>s2. ((s2, slot), Ok ()))))))))"

section \<open>Account lists (\<open>account_metas.rs\<close>)\<close>

definition SAVE_PROGRAM_ID :: "crates \<Rightarrow> pubkey" where
  "SAVE_PROGRAM_ID E = from_str_const E ''So1endDq2YkqhipRh3WViPa8hdiSpxWy6z3Z6tMCpAo''"

definition save_build_base ::
    "crates \<Rightarrow> save_state \<Rightarrow> wrapper_vault \<Rightarrow> pubkey \<Rightarrow> account_meta list vres" where
  "save_build_base E state wv user =
     (let wrapper_mint = wv_wrapper_mint wv;
          underlying_mint = wv_underlying_mint wv;
          collateral_mint = sv_collateral_mint_pubkey state;
          overpass = OVERPASS_PROGRAM_ID E;
          spl = SPL_TOKEN_PROGRAM_ID E
      in and_then (global_config_pda E overpass) (\<lambda>global_config.
         and_then (find_pda E [byte_str ''vault'', wrapper_mint] overpass) (\<lambda>wrapper_vault_pda.
         and_then (find_pda E [byte_str ''authority'', wrapper_mint] overpass) (\<lambda>vault_authority.
         and_then (find_pda E [sv_lending_market state] (SAVE_PROGRAM_ID E)) (\<lambda>market_authority.
         and_then (derive_ata E user underlying_mint spl) (\<lambda>user_underlying_ata.
         and_then (derive_ata E user wrapper_mint spl) (\<lambda>user_wrapper_ata.
         and_then (derive_ata E vault_authority underlying_mint spl) (\<lambda>vault_underlying_ata.
         and_then (derive_ata E vault_authority collateral_mint spl) (\<lambda>vault_collateral_ata.
         let metas =
           [meta_new user True,
            meta_new_readonly global_config False,
            meta_new wrapper_vault_pda False,
            meta_new_readonly vault_authority False,
            meta_new wrapper_mint False,
            meta_new underlying_mint False,
            meta_new collateral_mint False,
            meta_new user_wrapper_ata False,
            meta_new user_underlying_ata False,
            meta_new vault_underlying_ata False,
            meta_new vault_collateral_ata False,
            meta_new (wv_source_pool wv) False,
            meta_new (sv_lending_market state) False,
            meta_new_readonly market_authority False,
            meta_new (sv_supply_vault state) False,
            meta_new_readonly (sv_pyth_oracle state) False,
            meta_new_readonly (sv_switchboard_oracle state) False,
            meta_new_readonly (SAVE_PROGRAM_ID E) False,
            meta_new_readonly spl False,
            meta_new_readonly spl False,
            meta_new_readonly (ATA_PROGRAM_ID E) False,
            meta_new_readonly (SYSTEM_PROGRAM_ID E) False]
         in Ok (if sv_extra_oracle_pubkey state \<noteq> pubkey_default
                then metas @ [meta_new_readonly (sv_extra_oracle_pubkey state) False]
                else metas))))))))))"

definition save_build_deposit ::
    "crates \<Rightarrow> save_state \<Rightarrow> wrapper_vault \<Rightarrow> pubkey \<Rightarrow> account_meta list vres" where
  "save_build_deposit E state wv user = save_build_base E state wv user"

definition save_build_withdraw ::
    "crates \<Rightarrow> save_state \<Rightarrow> wrapper_vault \<Rightarrow> pubkey \<Rightarrow> account_meta list vres" where
  "save_build_withdraw E state wv user = save_build_base E state wv user"

section \<open>The backend (\<open>mod.rs\<close>)\<close>

record save =
  sb_state :: save_state
  sb_current_slot :: u64

definition SAVE_DEPOSIT_IX_DISCRIMINATOR :: bytes where
  "SAVE_DEPOSIT_IX_DISCRIMINATOR = [0xe4, 0x76, 0x53, 0x1d, 0xb1, 0xf3, 0x08, 0x78]"

definition SAVE_WITHDRAW_IX_DISCRIMINATOR :: bytes where
  "SAVE_WITHDRAW_IX_DISCRIMINATOR = [0x3c, 0x22, 0x09, 0x4d, 0x0c, 0x77, 0x42, 0x69]"

definition save_new :: save where
  "save_new = \<lparr> sb_state = save_state_default, sb_current_slot = 0 \<rparr>"

definition save_update ::
    "crates \<Rightarrow> save \<Rightarrow> wrapper_vault \<Rightarrow> accounts_cache \<Rightarrow> save \<times> unit vres" where
  "save_update E self wv cache =
     (let ((s, slot), res) = save_run E wv cache (sb_state self) (sb_current_slot self)
      in (\<lparr> sb_state = s, sb_current_slot = slot \<rparr>, res))"

definition save_deposit_quote ::
    "crates \<Rightarrow> save \<Rightarrow> wrapper_vault \<Rightarrow> global_config \<Rightarrow> u64 \<Rightarrow> u64 vres" where
  "save_deposit_quote E self wv gc amount =
     save_quote_deposit E (sb_state self) (sb_current_slot self) wv gc amount"

definition save_withdraw_quote :: "crates \<Rightarrow> save \<Rightarrow> wrapper_vault \<Rightarrow> u64 \<Rightarrow> u64 vres" where
  "save_withdraw_quote E self wv amount =
     save_quote_withdraw E (sb_state self) (sb_current_slot self) wv amount"

definition save_build_deposit_ix ::
    "crates \<Rightarrow> save \<Rightarrow> wrapper_vault \<Rightarrow> pubkey \<Rightarrow> u64 \<Rightarrow> u64 \<Rightarrow> instruction vres" where
  "save_build_deposit_ix E self wv user in_amount min_out =
     and_then (save_build_deposit E (sb_state self) wv user) (\<lambda>accounts.
     Ok \<lparr> ix_program_id = OVERPASS_PROGRAM_ID E, ix_accounts = accounts,
          ix_data = SAVE_DEPOSIT_IX_DISCRIMINATOR @ to_le_bytes 8 in_amount
            @ to_le_bytes 8 min_out \<rparr>)"

definition save_build_withdraw_ix ::
    "crates \<Rightarrow> save \<Rightarrow> wrapper_vault \<Rightarrow> pubkey \<Rightarrow> u64 \<Rightarrow> u64 \<Rightarrow> instruction vres" where
  "save_build_withdraw_ix E self wv user in_amount min_out =
     and_then (save_build_withdraw E (sb_state self) wv user) (\<lambda>accounts.
     Ok \<lparr> ix_program_id = OVERPASS_PROGRAM_ID E, ix_accounts = accounts,
          ix_data = SAVE_WITHDRAW_IX_DISCRIMINATOR @ to_le_bytes 8 in_amount
            @ to_le_bytes 8 min_out \<rparr>)"

definition save_lookup_table_keys :: "crates \<Rightarrow> save \<Rightarrow> wrapper_vault \<Rightarrow> pubkey list" where
  "save_lookup_table_keys E self wv =
     (let state = sb_state self;
          keys = [SAVE_PROGRAM_ID E, wv_source_pool wv, sv_lending_market state,
                  sv_supply_vault state, sv_pyth_oracle state, sv_switchboard_oracle state]
      in if sv_extra_oracle_pubkey state \<noteq> pubkey_default
         then keys @ [sv_extra_oracle_pubkey state] else keys)"

section \<open>WAD arithmetic is exact\<close>

lemma unat_WAD [simp]: "unat WAD = 1000000000000000000"
  by (simp add: WAD_def)

lemma WAD_neq_0 [simp]: "WAD \<noteq> 0" "u256_of WAD \<noteq> 0"
  by (simp_all add: WAD_def)

lemma unat_u256_of_WAD [simp]: "unat (u256_of WAD) = 1000000000000000000"
  by (simp add: WAD_def)

lemma u128_mul_fits: "unat (a :: u128) * unat (b :: u128) < 2 ^ 256"
proof -
  have "unat a * unat b < 2 ^ 128 * 2 ^ 128"
    using unat_lt_128 [of a] unat_lt_128 [of b] by (intro mult_strict_mono) auto
  then show ?thesis by simp
qed

lemma unat_wad_from_u64 [simp]: "unat (wad_from_u64 a) = unat a * 1000000000000000000"
proof -
  have "unat a * 1000000000000000000 \<le> 2 ^ 64 * 1000000000000000000"
    using unat_lt_64 [of a] by (intro mult_le_mono1) (simp del: unat_lt_64)
  then show ?thesis by (simp add: wad_from_u64_def unat_saturating_mul)
qed

lemma unat_wad_to_floor_u64:
  "unat (wad_to_floor_u64 w) = unat w div 1000000000000000000 mod 2 ^ 64"
  by (simp add: wad_to_floor_u64_def unsigned_ucast_eq take_bit_eq_mod unat_div)

lemma wad_to_floor_le: "unat (wad_to_floor_u64 w) * 1000000000000000000 \<le> unat w"
  unfolding unat_wad_to_floor_u64
  by (meson div_times_less_eq_dividend mod_less_eq_dividend mult_le_mono1 order.trans)

context uint_laws
begin

lemma u256_mul_u128:
  "u256_mul E (u256_of (a :: u128)) (u256_of (b :: u128)) = Some (u256_of a * u256_of b)"
  "unat (u256_of a * u256_of b :: u256) = unat a * unat b"
  using u128_mul_fits [of a b] by (simp_all add: mul_fits unat_word_ariths)

lemma wad_mul_Ok [checked_simps]:
  "wad_mul E a b = Ok r \<longleftrightarrow> unat r = unat a * unat b div 1000000000000000000"
  by (simp add: wad_mul_def u256_mul_u128 div checked_div_def u256_try_u128_Some unat_div)

lemma wad_mul_Err: "wad_mul E a b = Err e \<longleftrightarrow>
    2 ^ 128 \<le> unat a * unat b div 1000000000000000000 \<and> e = math_err ''wad_mul overflow''"
  by (auto simp: wad_mul_def u256_mul_u128 div checked_div_def u256_try_u128_None unat_div)

lemma wad_mul_no_panic [no_panic, simp]: "wad_mul E a b \<noteq> Panic"
  by (simp add: wad_mul_def u256_mul_u128 div checked_div_def)

lemma wad_div_Ok [checked_simps]:
  "wad_div E a b = Ok r \<longleftrightarrow> b \<noteq> 0 \<and> unat r = unat a * 1000000000000000000 div unat b"
  by (simp add: wad_div_def u256_mul_u128 div checked_div_def u256_try_u128_Some unat_div)

lemma wad_div_no_panic [no_panic, simp]: "wad_div E a b \<noteq> Panic"
  by (simp add: wad_div_def u256_mul_u128 div checked_div_def)

text \<open>Squaring and multiplying by a factor that is at least one never shrinks the result.\<close>

lemma wad_mul_ge:
  "wad_mul E a b = Ok r \<Longrightarrow> WAD \<le> b \<Longrightarrow> a \<le> r"
proof -
  assume "wad_mul E a b = Ok r" and b: "WAD \<le> b"
  then have r: "unat r = unat a * unat b div 1000000000000000000" by (simp add: wad_mul_Ok)
  have "unat a * 1000000000000000000 \<le> unat a * unat b"
    using b by (simp add: word_le_nat_alt)
  then have "unat a * 1000000000000000000 div 1000000000000000000 \<le> unat r"
    unfolding r by (rule div_le_mono)
  then show "a \<le> r" by (simp add: word_le_nat_alt)
qed

lemma half_exponent: "drop_bit 1 (e :: u64) \<noteq> 0 \<Longrightarrow> unat (drop_bit 1 e) < unat e"
  by (auto simp: drop_bit_eq_div unat_div unat_eq_zero [symmetric])

lemma wad_pow_loop_ge:
  "wad_pow_loop E base exponent ret = Ok r \<Longrightarrow> WAD \<le> base \<Longrightarrow> ret \<le> r"
proof (induction "unat exponent" arbitrary: base exponent ret rule: less_induct)
  case less
  define e where "e = drop_bit 1 exponent"
  note step = wad_pow_loop.simps [of E base exponent ret, folded e_def, unfolded Let_def]
  show ?case
  proof (cases "e = 0")
    case True
    with less.prems step show ?thesis by simp
  next
    case False
    then have smaller: "unat e < unat exponent" unfolding e_def by (rule half_exponent)
    from less.prems(1) False obtain base' where base': "wad_mul E base base = Ok base'"
      and rest: "(if e mod 2 \<noteq> 0
        then and_then (wad_mul E ret base') (\<lambda>ret'. wad_pow_loop E base' e ret')
        else wad_pow_loop E base' e ret) = Ok r"
      unfolding step by auto
    have WAD': "WAD \<le> base'" using wad_mul_ge [OF base' less.prems(2)] less.prems(2) by simp
    show ?thesis
    proof (cases "e mod 2 = 0")
      case True
      with rest less.hyps [OF smaller _ WAD'] show ?thesis by simp
    next
      case odd: False
      with rest obtain ret' where ret': "wad_mul E ret base' = Ok ret'"
        "wad_pow_loop E base' e ret' = Ok r" by auto
      from less.hyps [OF smaller ret'(2) WAD'] wad_mul_ge [OF ret'(1) WAD'] show ?thesis by simp
    qed
  qed
qed

lemma wad_pow_loop_no_panic: "wad_pow_loop E base exponent ret \<noteq> Panic"
proof (induction "unat exponent" arbitrary: base exponent ret rule: less_induct)
  case less
  show ?case
  proof (cases "drop_bit 1 exponent = 0")
    case True
    then show ?thesis by (subst wad_pow_loop.simps) simp
  next
    case False
    from less.hyps [OF half_exponent [OF False]] show ?thesis
      by (subst wad_pow_loop.simps) (simp add: Let_def)
  qed
qed

lemma wad_pow_no_panic [no_panic, simp]: "wad_pow E base exponent \<noteq> Panic"
  by (simp add: wad_pow_def wad_pow_loop_no_panic)

lemma wad_pow_ge: "wad_pow E base exponent = Ok r \<Longrightarrow> WAD \<le> base \<Longrightarrow> WAD \<le> r"
  using wad_pow_loop_ge [of base exponent "if exponent mod 2 \<noteq> 0 then base else WAD" r]
  by (auto simp: wad_pow_def split: if_splits)

end

section \<open>Accrual\<close>

context uint_laws
begin

lemma save_utilization_no_panic [no_panic, simp]: "save_utilization_rate E st ac \<noteq> Panic"
  by (simp add: save_utilization_rate_def Let_def)

lemma save_borrow_rate_no_panic [no_panic, simp]: "save_current_borrow_rate E st \<noteq> Panic"
  by (simp add: save_current_borrow_rate_def Let_def)

lemma save_accrue_no_panic [no_panic, simp]: "save_accrue_interest E st slot \<noteq> Panic"
  by (simp add: save_accrue_interest_def Let_def)

lemma save_accrue_mono:
  assumes "save_accrue_interest E st slot = Ok ac"
  shows "sv_borrowed_amount_wads st \<le> as_borrowed_amount_wads ac \<and>
    sv_accumulated_protocol_fees_wads st \<le> as_accumulated_protocol_fees_wads ac"
proof (cases "saturating_sub slot (sv_last_update_slot st) = 0 \<or> sv_borrowed_amount_wads st = 0")
  case True
  with assms show ?thesis by (auto simp: save_accrue_interest_def Let_def)
next
  case False
  with assms obtain rate compounded borrowed share where
      pow: "wad_pow E (saturating_add WAD rate) (saturating_sub slot (sv_last_update_slot st))
        = Ok compounded"
    and mul: "wad_mul E (sv_borrowed_amount_wads st) compounded = Ok borrowed"
    and ac: "ac = \<lparr> as_borrowed_amount_wads = borrowed,
        as_accumulated_protocol_fees_wads =
          saturating_add (sv_accumulated_protocol_fees_wads st) share \<rparr>"
    by (auto simp: save_accrue_interest_def Let_def)
  have "WAD \<le> compounded" using wad_pow_ge [OF pow saturating_add_ge] .
  from wad_mul_ge [OF mul this] show ?thesis
    by (simp add: ac)
qed

text \<open>Accruing twice to the same slot changes nothing more.\<close>

lemma save_pre_accrue_idem:
  "save_pre_accrue E st slot = Ok st' \<Longrightarrow> save_pre_accrue E st' slot = Ok st'"
  by (auto simp: save_pre_accrue_def save_accrue_interest_def saturating_sub_def Let_def)

lemma save_exchange_rate_no_panic [no_panic, simp]: "save_exchange_rate E cs ts \<noteq> Panic"
  by (simp add: save_exchange_rate_def)

lemma save_conversions_no_panic [no_panic, simp]:
  "save_liquidity_to_collateral E l r \<noteq> Panic" "save_collateral_to_liquidity E c r \<noteq> Panic"
  by (simp_all add: save_liquidity_to_collateral_def save_collateral_to_liquidity_def)

lemma save_total_supply_no_panic: "save_total_supply_wad st ac \<noteq> Panic"
  by (simp add: save_total_supply_wad_def Let_def)

lemma save_quotes_no_panic [no_panic, simp]:
  "save_quote_deposit E st slot wv gc a \<noteq> Panic" "save_quote_withdraw E st slot wv a \<noteq> Panic"
  unfolding save_quote_deposit_def save_quote_withdraw_def Let_def
  by (intro no_panic save_total_supply_no_panic checked_no_panic; simp)+

end

section \<open>What a successful quote went through\<close>

lemma save_quote_depositE:
  assumes "save_quote_deposit E st slot wv gc a = Ok m"
  obtains ac ts rate pf cf net coll post where
    "a \<noteq> 0" "save_accrue_interest E st slot = Ok ac" "save_total_supply_wad st ac = Ok ts"
    "save_exchange_rate E (sv_collateral_mint_total_supply st) ts = Ok rate"
    "mul_bps a (gc_protocol_deposit_fee_bps gc) = Ok pf"
    "mul_bps a (wv_creator_deposit_fee_bps wv) = Ok cf"
    "sub_fees a pf cf = Ok net" "net \<noteq> 0"
    "checked_add (wad_from_u64 net) ts = Some post"
    "wad_to_floor_u64 post \<le> sv_deposit_limit st"
    "save_liquidity_to_collateral E net rate = Ok coll" "coll \<noteq> 0"
    "pro_rata_mint ''save: ctokens out of sync'' ''mint mul'' ''mint div''
       (wv_wrapper_supply wv) (wv_intermediate_held wv) net coll = Ok m" "m \<noteq> 0"
    "settle_deposit E ''new ctokens total'' (wv_intermediate_held wv) (wv_intermediate_held wv)
       (ucast coll) (wv_wrapper_supply wv) m = Ok ()"
  using assms unfolding save_quote_deposit_def Let_def
  by (elim ok_elims) (rule that; simp add: not_less)

lemma save_quote_withdrawE:
  assumes "save_quote_withdraw E st slot wv a = Ok out"
  obtains ac ts rate redeem where
    "a \<noteq> 0" "a \<le> wv_wrapper_supply wv" "wv_intermediate_held wv \<noteq> 0"
    "save_accrue_interest E st slot = Ok ac" "save_total_supply_wad st ac = Ok ts"
    "save_exchange_rate E (sv_collateral_mint_total_supply st) ts = Ok rate"
    "pro_rata_redeem ''redeem mul'' ''redeem div'' a (wv_intermediate_held wv)
       (wv_wrapper_supply wv) = Ok redeem" "redeem \<noteq> 0"
    "save_collateral_to_liquidity E redeem rate = Ok out" "out \<noteq> 0"
    "out \<le> sv_available_amount st"
    "settle_withdraw E ''new ctokens total'' (wv_intermediate_held wv) (wv_intermediate_held wv)
       (ucast redeem) (wv_wrapper_supply wv) a = Ok ()"
  using assms unfolding save_quote_withdraw_def Let_def
  by (elim ok_elims) (rule that; simp add: not_less)

context uint_laws
begin

text \<open>Both conversions round down.\<close>

lemma save_liquidity_to_collateral_le:
  "save_liquidity_to_collateral E l rate = Ok c \<Longrightarrow>
    unat c * 10 ^ 18 \<le> unat l * unat rate"
proof -
  assume "save_liquidity_to_collateral E l rate = Ok c"
  then obtain w where w: "wad_mul E (wad_from_u64 l) rate = Ok w" "c = wad_to_floor_u64 w"
    by (auto simp: save_liquidity_to_collateral_def)
  then have "unat w = unat l * unat rate"
    by (simp add: wad_mul_Ok)
  with w(2) wad_to_floor_le [of w] show ?thesis by simp
qed

lemma save_collateral_to_liquidity_le:
  "save_collateral_to_liquidity E c rate = Ok l \<Longrightarrow>
    rate \<noteq> 0 \<and> unat l * unat rate \<le> unat c * 10 ^ 18"
proof -
  assume "save_collateral_to_liquidity E c rate = Ok l"
  then obtain w where w: "rate \<noteq> 0" "wad_div E (wad_from_u64 c) rate = Ok w"
    "l = wad_to_floor_u64 w"
    by (auto simp: save_collateral_to_liquidity_def split: if_splits)
  have "unat l * 10 ^ 18 * unat rate \<le> unat w * unat rate"
    using wad_to_floor_le [of w] w(3) by simp
  also have "\<dots> \<le> unat c * 10 ^ 18 * 10 ^ 18"
    using w(2) by (simp add: wad_div_Ok)
  finally show ?thesis using w(1) by (simp add: mult.commute)
qed

end

section \<open>The interface law and the properties\<close>

interpretation save_source: quoting_source "save_deposit_quote E self" "save_withdraw_quote E self"
  for E self
proof unfold_locales
  fix wv gc r a
  show "save_deposit_quote E self wv gc 0 \<noteq> Ok r"
    by (simp add: save_deposit_quote_def save_quote_deposit_def)
  show "save_withdraw_quote E self wv 0 \<noteq> Ok r"
    by (simp add: save_withdraw_quote_def save_quote_withdraw_def)
  show "r \<noteq> 0" if "save_deposit_quote E self wv gc a = Ok r"
    using that unfolding save_deposit_quote_def by (rule save_quote_depositE)
  show "r \<noteq> 0" if "save_withdraw_quote E self wv a = Ok r"
    using that unfolding save_withdraw_quote_def by (rule save_quote_withdrawE)
  show "unat (wv_wrapper_supply wv) + unat r < 2 ^ 64" if "save_deposit_quote E self wv gc a = Ok r"
    using that unfolding save_deposit_quote_def
    by (rule save_quote_depositE) (blast dest: settle_deposit_fits)
  show "r \<le> a" if "save_deposit_quote E self wv gc a = Ok r" "wv_wrapper_supply wv = 0"
    using that(1) unfolding save_deposit_quote_def
    by (rule save_quote_depositE) (use that(2) in \<open>auto simp: pro_rata_mint_Ok sub_fees_Ok word_le_nat_alt\<close>)
  show "a \<le> wv_wrapper_supply wv" if "save_withdraw_quote E self wv a = Ok r"
    using that unfolding save_withdraw_quote_def by (rule save_quote_withdrawE)
qed

lemma save_decode_no_panic [no_panic]: "save_decode data \<noteq> Panic"
  unfolding save_decode_def SAVE_RESERVE_LEN_def by (intro no_panic; simp)

text \<open>
  WAD multiplication and division are exact floors and never panic: the result is
  \<open>a * b / 10^18\<close> or \<open>a * 10^18 / b\<close> rounded down, when it fits 128 bits, and an error otherwise.
\<close>

theorem wad_arithmetic_exact:
  assumes "uint_laws E"
  shows "(wad_mul E a b = Ok r \<longleftrightarrow> unat r = unat a * unat b div 10 ^ 18) \<and>
    (wad_div E a b = Ok r \<longleftrightarrow> b \<noteq> 0 \<and> unat r = unat a * 10 ^ 18 div unat b) \<and>
    wad_mul E a b \<noteq> Panic \<and> wad_div E a b \<noteq> Panic"
  using uint_laws.wad_mul_Ok [OF assms, of a b r] uint_laws.wad_div_Ok [OF assms, of a b r]
    uint_laws.wad_mul_no_panic [OF assms] uint_laws.wad_div_no_panic [OF assms]
  by simp

lemma wad_arithmetic_exact_witness:
  "wad_mul std_crates (3 * WAD) (WAD div 2) = Ok (WAD + WAD div 2)"
  using wad_arithmetic_exact [OF std_uint.uint_laws_axioms, of "3 * WAD" "WAD div 2" "WAD + WAD div 2"]
  by (simp add: WAD_def)

text \<open>
  Interest never shrinks what borrowers owe or the protocol's fees: whatever the rate curve and
  the number of slots, an accrual that succeeds returns a debt and fees at least as large as before.
\<close>

theorem save_accrual_monotone:
  assumes "uint_laws E" "save_accrue_interest E st slot = Ok ac"
  shows "sv_borrowed_amount_wads st \<le> as_borrowed_amount_wads ac \<and>
    sv_accumulated_protocol_fees_wads st \<le> as_accumulated_protocol_fees_wads ac"
  using uint_laws.save_accrue_mono [OF assms] .

text \<open>
  A quote after a refresh charges no interest twice: once \<open>update\<close> has succeeded, accruing the
  stored reserve to the stored slot again returns the stored debt and fees.
\<close>

theorem save_refresh_accrues_once:
  assumes "save_update E self wv cache = (self', Ok ())"
  shows "save_accrue_interest E (sb_state self') (sb_current_slot self') =
    Ok \<lparr> as_borrowed_amount_wads = sv_borrowed_amount_wads (sb_state self'),
         as_accumulated_protocol_fees_wads =
           sv_accumulated_protocol_fees_wads (sb_state self') \<rparr>"
  using assms
  by (auto simp: save_update_def save_run_def save_pre_accrue_def save_accrue_interest_def
      saturating_sub_def Let_def split: prod.splits)

text \<open>Decoding a reserve and quoting on any reserve state never panic.\<close>

theorem save_never_panics:
  assumes "uint_laws E"
  shows "save_decode data \<noteq> Panic \<and> save_quote_deposit E st slot wv gc a \<noteq> Panic \<and>
    save_quote_withdraw E st slot wv a \<noteq> Panic"
  using uint_laws.save_quotes_no_panic [OF assms] save_decode_no_panic by simp

text \<open>The instructions of the backend have the shape of a swap.\<close>

interpretation save_builder: swap_builder "OVERPASS_PROGRAM_ID E" SAVE_DEPOSIT_IX_DISCRIMINATOR
    SAVE_WITHDRAW_IX_DISCRIMINATOR "save_build_deposit_ix E self" "save_build_withdraw_ix E self" for E self
  by unfold_locales
    (auto simp: is_swap_ix_def SAVE_DEPOSIT_IX_DISCRIMINATOR_def SAVE_WITHDRAW_IX_DISCRIMINATOR_def
      save_build_deposit_ix_def save_build_withdraw_ix_def save_build_deposit_def
      save_build_withdraw_def save_build_base_def Let_def)

section \<open>Round trips and concrete reserves\<close>

text \<open>
  C4. A deposit followed by a withdrawal of everything it minted never gives back more than the
  deposit after its fees: the collateral \<open>c\<close> the vault receives is the one the deposit computes
  (the net amount at the exchange rate of the accrued reserve), and at the same reserve state and
  slot a withdrawal of the minted \<open>m\<close>, quoted on the vault that holds \<open>m\<close> and \<open>c\<close> more, pays at
  most the net amount, which with the two fees makes up \<open>a\<close> (the vault holds no shares while it
  has no supply).
\<close>

theorem save_round_trip:
  assumes "uint_laws E" and dep: "save_quote_deposit E st slot wv gc a = Ok m"
    and first: "wv_wrapper_supply wv = 0 \<Longrightarrow> wv_intermediate_held wv = 0"
  shows "\<exists>ac ts rate net c. save_accrue_interest E st slot = Ok ac \<and>
    save_total_supply_wad st ac = Ok ts \<and>
    save_exchange_rate E (sv_collateral_mint_total_supply st) ts = Ok rate \<and>
    unat net + unat a * unat (gc_protocol_deposit_fee_bps gc) div 10000
      + unat a * unat (wv_creator_deposit_fee_bps wv) div 10000 = unat a \<and>
    save_liquidity_to_collateral E net rate = Ok c \<and> c \<noteq> 0 \<and>
    (\<forall>out. save_quote_withdraw E st slot (deposited wv m c) m = Ok out \<longrightarrow> out \<le> net)"
  using dep
proof (rule save_quote_depositE)
  fix ac ts rate pf cf net coll post
  assume acc: "save_accrue_interest E st slot = Ok ac" "save_total_supply_wad st ac = Ok ts"
      "save_exchange_rate E (sv_collateral_mint_total_supply st) ts = Ok rate"
    and fees: "mul_bps a (gc_protocol_deposit_fee_bps gc) = Ok pf"
      "mul_bps a (wv_creator_deposit_fee_bps wv) = Ok cf"
    and net: "sub_fees a pf cf = Ok net"
    and coll: "save_liquidity_to_collateral E net rate = Ok coll" "coll \<noteq> 0"
    and mint: "pro_rata_mint ''save: ctokens out of sync'' ''mint mul'' ''mint div''
        (wv_wrapper_supply wv) (wv_intermediate_held wv) net coll = Ok m" "m \<noteq> 0"
    and settle: "settle_deposit E ''new ctokens total'' (wv_intermediate_held wv)
        (wv_intermediate_held wv) (ucast coll) (wv_wrapper_supply wv) m = Ok ()"
  note fits = settle_deposit_fits [OF settle, simplified unat_ucast_64_128]
  have "out \<le> net" if "save_quote_withdraw E st slot (deposited wv m coll) m = Ok out" for out
    using that
  proof (rule save_quote_withdrawE)
    fix ac' ts' rate' redeem
    assume "save_accrue_interest E st slot = Ok ac'" "save_total_supply_wad st ac' = Ok ts'"
      "save_exchange_rate E (sv_collateral_mint_total_supply st) ts' = Ok rate'"
    with acc have rate: "rate' = rate" by simp
    assume redeem: "pro_rata_redeem ''redeem mul'' ''redeem div'' m
        (wv_intermediate_held (deposited wv m coll)) (wv_wrapper_supply (deposited wv m coll))
        = Ok redeem"
      and out: "save_collateral_to_liquidity E redeem rate' = Ok out"
    have "unat redeem \<le> unat coll"
      by (rule deposited_redeem_le [OF mint fits [THEN conjunct1] fits [THEN conjunct2] first redeem])
    then have "unat redeem * 10 ^ 18 \<le> unat coll * 10 ^ 18" by simp
    also note uint_laws.save_liquidity_to_collateral_le [OF assms(1) coll(1)]
    finally have net_ge: "unat redeem * 10 ^ 18 \<le> unat net * unat rate" .
    have "unat out * unat rate \<le> unat redeem * 10 ^ 18" "0 < unat rate"
      using uint_laws.save_collateral_to_liquidity_le [OF assms(1) out]
      by (simp_all add: rate unat_gt_0)
    with net_ge have "unat out * unat rate \<le> unat net * unat rate" "0 < unat rate" by linarith+
    then show "out \<le> net" by (simp add: word_le_nat_alt)
  qed
  moreover from net fees have "unat net + unat a * unat (gc_protocol_deposit_fee_bps gc) div 10000
      + unat a * unat (wv_creator_deposit_fee_bps wv) div 10000 = unat a"
    by (simp add: sub_fees_Ok mul_bps_Ok)
  ultimately show ?thesis using acc coll by blast
qed

definition save_sample :: save_state where
  "save_sample = save_state_default\<lparr> sv_last_update_slot := 5, sv_available_amount := 3000000,
     sv_borrowed_amount_wads := 1000000 * WAD, sv_collateral_mint_total_supply := 2000000,
     sv_optimal_utilization_rate := 80, sv_max_utilization_rate := 90, sv_min_borrow_rate := 1,
     sv_optimal_borrow_rate := 10, sv_max_borrow_rate := 50, sv_super_max_borrow_rate := 100,
     sv_protocol_take_rate := 20, sv_deposit_limit := 1000000000 \<rparr>"

lemmas save_eval = save_state_default_def WAD_def wad_mul_def wad_div_def wad_pow_def
  wad_pow_loop.simps save_accrue_interest_def save_current_borrow_rate_def
  save_utilization_rate_def wad_from_u64_def wad_from_percent_def SAVE_SLOTS_PER_YEAR_def
  save_total_supply_wad_def save_exchange_rate_def INITIAL_COLLATERAL_RATE_def
  save_liquidity_to_collateral_def save_collateral_to_liquidity_def wad_to_floor_u64_def
  save_quote_deposit_def save_quote_withdraw_def

lemma save_sample_accrues: "\<exists>ac. save_accrue_interest std_crates save_sample 8 = Ok ac"
  by (simp add: save_eval arith_eval save_sample_def)

lemma save_accrual_monotone_witness:
  "\<exists>ac. save_accrue_interest std_crates save_sample 8 = Ok ac \<and>
    1000000 * WAD \<le> as_borrowed_amount_wads ac"
  using save_sample_accrues save_accrual_monotone [OF std_uint.uint_laws_axioms, of save_sample 8]
  by (auto simp: save_sample_def)

definition cache_sample :: accounts_cache where
  "cache_sample =
     (let acc = \<lparr> acc_data = replicate 619 0, acc_owner = pubkey_default \<rparr>
      in \<lparr> get_account = (\<lambda>k. Ok (Some acc)), get_accounts = (\<lambda>ks. Ok (map (\<lambda>k. Some acc) ks)) \<rparr>)"

lemma save_refresh_accrues_once_witness:
  "\<exists>self'. save_update std_crates save_new vault_sample cache_sample = (self', Ok ()) \<and>
    is_ok (save_accrue_interest std_crates (sb_state self') (sb_current_slot self'))"
proof -
  have "\<exists>self'. save_update std_crates save_new vault_sample cache_sample = (self', Ok ())"
    by (simp add: save_update_def save_run_def cache_sample_def try_two_def save_decode_def
        SAVE_RESERVE_LEN_def read_eqs index_at_def clock_field_def get_slice_def try_array_def
        save_pre_accrue_def save_accrue_interest_def saturating_sub_def min_def Let_def)
  then obtain self' where u: "save_update std_crates save_new vault_sample cache_sample = (self', Ok ())"
    by blast
  with save_refresh_accrues_once [OF u] show ?thesis by auto
qed

lemma save_never_panics_witness:
  "save_quote_deposit std_crates save_sample 8 vault_sample config_sample 1000 \<noteq> Panic"
  using save_never_panics [OF std_uint.uint_laws_axioms] by blast

lemma save_sample_deposit:
  "save_quote_deposit std_crates save_sample 5 vault_sample config_sample 100000 = Ok 99800"
  by (simp add: save_eval arith_eval save_sample_def vault_sample_def config_sample_def)

definition save_vault_sample :: wrapper_vault where
  "save_vault_sample = vault_sample\<lparr> wv_wrapper_supply := 5000, wv_intermediate_held := 4000 \<rparr>"

lemma save_live_deposit:
  "save_quote_deposit std_crates save_sample 5 save_vault_sample config_sample 100000 = Ok 62375"
  by (simp add: save_eval arith_eval save_sample_def vault_sample_def save_vault_sample_def
      config_sample_def)

lemma save_live_withdraw:
  "save_quote_withdraw std_crates save_sample 5 (deposited save_vault_sample 62375 49900) 62375
    = Ok 99800"
  by (simp add: save_eval arith_eval save_sample_def vault_sample_def save_vault_sample_def
      deposited_def)

lemma save_live_collateral:
  assumes "save_accrue_interest std_crates save_sample 5 = Ok ac"
    and "save_total_supply_wad save_sample ac = Ok ts"
    and "save_exchange_rate std_crates (sv_collateral_mint_total_supply save_sample) ts = Ok rate"
    and "unat net + 200 = 100000" "save_liquidity_to_collateral std_crates net rate = Ok c"
  shows "net = 99800 \<and> c = 49900"
proof -
  have net: "net = 99800"
    by (rule word_unat_eq_iff [THEN iffD2]) (use assms(4) in simp)
  have "rate = 500000000000000000"
    using assms(1-3) by (auto simp: save_eval arith_eval save_sample_def)
  with assms(5) net show ?thesis by (simp add: save_eval arith_eval)
qed

lemma save_round_trip_witness:
  "\<exists>net out. save_quote_withdraw std_crates save_sample 5
      (deposited save_vault_sample 62375 49900) 62375 = Ok out \<and> net = 99800 \<and> out \<le> net"
proof -
  from save_round_trip [OF std_uint.uint_laws_axioms save_live_deposit] obtain ac ts rate net c where
      c: "save_accrue_interest std_crates save_sample 5 = Ok ac"
        "save_total_supply_wad save_sample ac = Ok ts"
        "save_exchange_rate std_crates (sv_collateral_mint_total_supply save_sample) ts = Ok rate"
        "unat net + 200 = 100000" "save_liquidity_to_collateral std_crates net rate = Ok c"
    and all: "\<forall>out. save_quote_withdraw std_crates save_sample 5
        (deposited save_vault_sample 62375 c) 62375 = Ok out \<longrightarrow> out \<le> net"
    by (auto simp: save_vault_sample_def vault_sample_def config_sample_def)
  from save_live_collateral [OF c] all save_live_withdraw show ?thesis by blast
qed

text \<open>
  The output of a deposit is not monotone in its amount: with protocol and creator fees of 10
  basis points each and an empty vault, a deposit of 1999 gives 1997 wrapper tokens and a deposit
  of 2000 gives 1996, because each fee is rounded down on its own.
\<close>

theorem deposit_output_not_monotone:
  "save_quote_deposit std_crates save_sample 5 vault_sample config_sample 1999 = Ok 1997 \<and>
   save_quote_deposit std_crates save_sample 5 vault_sample config_sample 2000 = Ok 1996"
  by (simp add: save_eval arith_eval save_sample_def vault_sample_def config_sample_def)

end
