(* ===== verification/Klend_Fixed.thy ===== *)
theory Klend_Fixed
  imports Share_Math
begin

text \<open>
  The fixed-point layer of the Klend backend: \<open>src/src/your_venue/klend/fraction.rs\<close> (fractions with
  60 fraction bits over a 128-bit and a 256-bit integer, and the compounding approximation) and
  \<open>withdrawal_caps.rs\<close>. A fraction operator that panics or a native \<open>U256\<close> operator that panics is
  the outcome \<open>Panic\<close>.
\<close>

section \<open>Wide fractions (\<open>fraction.rs\<close>)\<close>

definition FRACTION_BITS_SHIFT :: nat where "FRACTION_BITS_SHIFT = 60"

datatype big_fraction = BigFraction (big_bits: u256)

definition big_from_fraction :: "fraction \<Rightarrow> big_fraction" where
  "big_from_fraction f = BigFraction (u256_of (to_bits f))"

definition big_checked_shl :: "crates \<Rightarrow> u256 \<Rightarrow> nat \<Rightarrow> u256 option" where
  "big_checked_shl E number bit_count =
     (let result = u256_shl E number bit_count
      in if u256_shr E result bit_count = number then Some result else None)"

definition big_from_num :: "crates \<Rightarrow> u128 \<Rightarrow> big_fraction option" where
  "big_from_num E num =
     map_option BigFraction (big_checked_shl E (u256_of num) FRACTION_BITS_SHIFT)"

definition big_try_into_fraction :: "big_fraction \<Rightarrow> fraction option" where
  "big_try_into_fraction b = map_option Fraction (u256_try_u128 (big_bits b))"

definition big_checked_div ::
    "crates \<Rightarrow> big_fraction \<Rightarrow> big_fraction \<Rightarrow> ('e, big_fraction option) outcome" where
  "big_checked_div E a rhs =
     (if big_bits rhs = 0 then Ok None
      else case big_checked_shl E (big_bits a) FRACTION_BITS_SHIFT of
             None \<Rightarrow> Ok None
           | Some extra_scaled \<Rightarrow>
               and_then (or_panic (u256_div E extra_scaled (big_bits rhs))) (\<lambda>q.
               Ok (Some (BigFraction q))))"

definition big_mul :: "crates \<Rightarrow> big_fraction \<Rightarrow> big_fraction \<Rightarrow> ('e, big_fraction) outcome" where
  "big_mul E a b =
     and_then (or_panic (u256_mul E (big_bits a) (big_bits b))) (\<lambda>extra_scaled.
     Ok (BigFraction (u256_shr E extra_scaled FRACTION_BITS_SHIFT)))"

definition big_add :: "crates \<Rightarrow> big_fraction \<Rightarrow> big_fraction \<Rightarrow> ('e, big_fraction) outcome" where
  "big_add E a b =
     and_then (or_panic (u256_add E (big_bits a) (big_bits b))) (\<lambda>s. Ok (BigFraction s))"

definition big_sub :: "crates \<Rightarrow> big_fraction \<Rightarrow> big_fraction \<Rightarrow> ('e, big_fraction) outcome" where
  "big_sub E a b =
     and_then (or_panic (u256_sub E (big_bits a) (big_bits b))) (\<lambda>d. Ok (BigFraction d))"

section \<open>Interest (\<open>fraction.rs\<close>)\<close>

text \<open>\<open>Fraction::ONE + base\<close>, \<open>a * b\<close>, ... as steps that may panic.\<close>

abbreviation f_add :: "crates \<Rightarrow> fraction \<Rightarrow> fraction \<Rightarrow> ('e, fraction) outcome" where
  "f_add E a b \<equiv> or_panic (fr_add E a b)"
abbreviation f_sub :: "crates \<Rightarrow> fraction \<Rightarrow> fraction \<Rightarrow> ('e, fraction) outcome" where
  "f_sub E a b \<equiv> or_panic (fr_sub E a b)"
abbreviation f_mul :: "crates \<Rightarrow> fraction \<Rightarrow> fraction \<Rightarrow> ('e, fraction) outcome" where
  "f_mul E a b \<equiv> or_panic (fr_mul E a b)"
abbreviation f_div :: "crates \<Rightarrow> fraction \<Rightarrow> fraction \<Rightarrow> ('e, fraction) outcome" where
  "f_div E a b \<equiv> or_panic (fr_div E a b)"
abbreviation f_mul_int :: "crates \<Rightarrow> fraction \<Rightarrow> u128 \<Rightarrow> ('e, fraction) outcome" where
  "f_mul_int E a n \<equiv> or_panic (fr_mul_int E a n)"
abbreviation f_div_int :: "crates \<Rightarrow> fraction \<Rightarrow> u128 \<Rightarrow> ('e, fraction) outcome" where
  "f_div_int E a n \<equiv> or_panic (fr_div_int E a n)"
abbreviation f_from_num :: "crates \<Rightarrow> u128 \<Rightarrow> ('e, fraction) outcome" where
  "f_from_num E n \<equiv> or_panic (fr_from_num E n)"

definition approximate_compounded_interest ::
    "crates \<Rightarrow> fraction \<Rightarrow> u64 \<Rightarrow> u128 \<Rightarrow> ('e, fraction) outcome" where
  "approximate_compounded_interest E rate elapsed_units units_per_year =
     and_then (f_div_int E rate units_per_year) (\<lambda>base.
     if elapsed_units = 0 then Ok frac_one
     else if elapsed_units = 1 then f_add E frac_one base
     else if elapsed_units = 2 then
       and_then (f_add E frac_one base) (\<lambda>a.
       and_then (f_add E frac_one base) (\<lambda>b. f_mul E a b))
     else if elapsed_units = 3 then
       and_then (f_add E frac_one base) (\<lambda>a.
       and_then (f_add E frac_one base) (\<lambda>b.
       and_then (f_mul E a b) (\<lambda>ab.
       and_then (f_add E frac_one base) (\<lambda>c. f_mul E ab c))))
     else if elapsed_units = 4 then
       and_then (f_add E frac_one base) (\<lambda>a.
       and_then (f_add E frac_one base) (\<lambda>b.
       and_then (f_mul E a b) (\<lambda>pow_two. f_mul E pow_two pow_two)))
     else
       let expo = ucast elapsed_units :: u128;
           exp_minus_one = expo - 1;
           exp_minus_two = expo - 2
       in and_then (f_mul_int E base expo) (\<lambda>first_term.
          and_then (f_mul E first_term base) (\<lambda>t1.
          and_then (f_mul_int E t1 exp_minus_one) (\<lambda>t2.
          and_then (f_div_int E t2 2) (\<lambda>second_term.
          and_then (f_mul E second_term base) (\<lambda>t3.
          and_then (f_mul_int E t3 exp_minus_two) (\<lambda>t4.
          and_then (f_div_int E t4 3) (\<lambda>third_term.
          and_then (f_add E frac_one first_term) (\<lambda>s1.
          and_then (f_add E s1 second_term) (\<lambda>s2. f_add E s2 third_term))))))))))"

definition klend_bps_to_fraction :: "crates \<Rightarrow> u32 \<Rightarrow> ('e, fraction) outcome" where
  "klend_bps_to_fraction E bps =
     and_then (f_from_num E (ucast bps)) (\<lambda>n. f_div_int E n 10000)"

definition percent_to_fraction :: "crates \<Rightarrow> u8 \<Rightarrow> ('e, fraction) outcome" where
  "percent_to_fraction E pct =
     and_then (f_from_num E (ucast pct)) (\<lambda>n. f_div_int E n 100)"

section \<open>Withdrawal caps (\<open>withdrawal_caps.rs\<close>)\<close>

record withdrawal_caps =
  config_capacity :: i64
  current_total :: i64
  last_interval_start_timestamp :: u64
  config_interval_length_seconds :: u64

definition withdrawal_caps_default :: withdrawal_caps where
  "withdrawal_caps_default = \<lparr> config_capacity = 0, current_total = 0,
     last_interval_start_timestamp = 0, config_interval_length_seconds = 0 \<rparr>"

definition WITHDRAWAL_CAPS_LEN :: nat where "WITHDRAWAL_CAPS_LEN = 32"

text \<open>\<open>T::from_le_bytes(slice[a..b].try_into().map_err(..)?)\<close> for 8-byte integers.\<close>

definition le_u64_at :: "bytes \<Rightarrow> nat \<Rightarrow> nat \<Rightarrow> tv_error \<Rightarrow> u64 vres" where
  "le_u64_at data a b err =
     and_then (slice data a b) (\<lambda>bs.
     and_then (ok_or (try_array 8 bs) err) (\<lambda>arr. Ok (from_le_bytes arr)))"

definition withdrawal_caps_decode :: "bytes \<Rightarrow> withdrawal_caps vres" where
  "withdrawal_caps_decode data =
     (if length data < WITHDRAWAL_CAPS_LEN then Err (deser_err ''klend withdrawal_caps: length'')
      else
        let cap_err = deser_err ''klend withdrawal_caps: field''
        in and_then (le_u64_at data 0 8 cap_err) (\<lambda>capacity.
           and_then (le_u64_at data 8 16 cap_err) (\<lambda>total.
           and_then (le_u64_at data 16 24 cap_err) (\<lambda>start.
           and_then (le_u64_at data 24 32 cap_err) (\<lambda>interval.
           Ok \<lparr> config_capacity = capacity, current_total = total,
                last_interval_start_timestamp = start,
                config_interval_length_seconds = interval \<rparr>)))))"

definition remaining_amount :: "withdrawal_caps \<Rightarrow> u64 \<Rightarrow> u64" where
  "remaining_amount caps timestamp =
     (if config_interval_length_seconds caps = 0 then u64_max
      else if sint (config_capacity caps) < 0 then 0
      else
        let time_spent = saturating_sub timestamp (last_interval_start_timestamp caps);
            interval_elapsed = config_interval_length_seconds caps \<le> time_spent;
            total = (if interval_elapsed then 0 else sint (current_total caps))
        in if total \<le> sint (config_capacity caps) then
             let remaining = sint (config_capacity caps) - total
             in if 0 \<le> remaining \<and> remaining < 2 ^ 64 then word_of_int remaining else 0
           else 0)"

section \<open>Lemmas\<close>

lemma withdrawal_caps_decode_eq:
  "length data = 32 \<Longrightarrow> withdrawal_caps_decode data =
     Ok \<lparr> config_capacity = from_le_bytes (field data 0 8),
          current_total = from_le_bytes (field data 8 8),
          last_interval_start_timestamp = from_le_bytes (field data 16 8),
          config_interval_length_seconds = from_le_bytes (field data 24 8) \<rparr>"
  by (simp add: withdrawal_caps_decode_def WITHDRAWAL_CAPS_LEN_def le_u64_at_def slice_def
      get_slice_def try_array_def)

lemma withdrawal_caps_decode_no_panic [no_panic]: "withdrawal_caps_decode data \<noteq> Panic"
  by (simp add: withdrawal_caps_decode_def WITHDRAWAL_CAPS_LEN_def le_u64_at_def Let_def)

lemma sint_i64_bounds: "- (2 ^ 63) \<le> sint (x :: i64)" "sint (x :: i64) < 2 ^ 63"
  using sint_ge [of x] sint_lt [of x] by simp_all

context uint_laws
begin

text \<open>The shift reports exactly the numbers whose shifted value does not fit 256 bits.\<close>

lemma big_checked_shl_Some:
  "big_checked_shl E number 60 = Some r \<longleftrightarrow>
     unat number * 2 ^ 60 < 2 ^ 256 \<and> unat r = unat number * 2 ^ 60"
proof -
  have n: "unat (push_bit 60 number) = unat number * 2 ^ 60 mod 2 ^ 256"
    by (simp add: push_bit_eq_mult unat_word_ariths)
  have down: "unat (drop_bit 60 w :: u256) = unat w div 2 ^ 60" for w :: u256
    by (simp add: drop_bit_eq_div unat_div)
  have "drop_bit 60 (push_bit 60 number) = number \<longleftrightarrow>
      unat (drop_bit 60 (push_bit 60 number)) = unat number"
    by (metis unsigned_word_eqI)
  also have "\<dots> \<longleftrightarrow> unat number * 2 ^ 60 < 2 ^ 256"
  proof
    assume "unat (drop_bit 60 (push_bit 60 number)) = unat number"
    then have "unat number = unat number * 2 ^ 60 mod 2 ^ 256 div 2 ^ 60" by (simp add: down n)
    then have "unat number * 2 ^ 60 \<le> unat number * 2 ^ 60 mod 2 ^ 256"
      by (metis div_times_less_eq_dividend)
    also have "\<dots> < 2 ^ 256" by simp
    finally show "unat number * 2 ^ 60 < 2 ^ 256" .
  next
    assume "unat number * 2 ^ 60 < 2 ^ 256"
    then show "unat (drop_bit 60 (push_bit 60 number)) = unat number" by (simp add: down n)
  qed
  finally have fits: "drop_bit 60 (push_bit 60 number) = number \<longleftrightarrow> unat number * 2 ^ 60 < 2 ^ 256" .
  have "push_bit 60 number = r \<longleftrightarrow> unat r = unat (push_bit 60 number)"
    by (metis unsigned_word_eqI)
  with fits n show ?thesis by (auto simp: big_checked_shl_def shl shr Let_def)
qed

lemma big_from_num_Some:
  "big_from_num E n = Some b \<longleftrightarrow>
     unat n * 2 ^ 60 < 2 ^ 256 \<and> unat (big_bits b) = unat n * 2 ^ 60"
  by (cases b) (auto simp: big_from_num_def FRACTION_BITS_SHIFT_def big_checked_shl_Some)

lemma big_checked_div_Some:
  "big_checked_div E a b = Ok (Some r) \<longleftrightarrow>
     big_bits b \<noteq> 0 \<and> unat (big_bits a) * 2 ^ 60 < 2 ^ 256 \<and>
     unat (big_bits r) = unat (big_bits a) * 2 ^ 60 div unat (big_bits b)"
proof (cases "big_checked_shl E (big_bits a) 60")
  case None
  have "\<not> unat (big_bits a) * 2 ^ 60 < 2 ^ 256"
  proof
    assume lt: "unat (big_bits a) * 2 ^ 60 < 2 ^ 256"
    obtain w :: u256 where "unat w = unat (big_bits a) * 2 ^ 60"
      using obtain_word [where 'a = 256, of "unat (big_bits a) * 2 ^ 60"] lt by auto
    with lt None show False using big_checked_shl_Some by (metis option.distinct(1))
  qed
  with None show ?thesis by (simp add: big_checked_div_def FRACTION_BITS_SHIFT_def)
next
  case (Some s)
  have s: "unat (big_bits a) * 2 ^ 60 < 2 ^ 256 \<and> unat s = unat (big_bits a) * 2 ^ 60"
    using Some by (simp only: big_checked_shl_Some)
  show ?thesis
    by (cases r) (use s in \<open>auto simp: big_checked_div_def FRACTION_BITS_SHIFT_def Some div
        checked_div_def unat_div unat_eq_0_iff intro!: word_eq_unatI\<close>)
qed

lemma big_try_into_fraction_Some:
  "big_try_into_fraction b = Some f \<longleftrightarrow> unat (to_bits f) = unat (big_bits b)"
  by (cases f) (auto simp: big_try_into_fraction_def u256_try_u128_Some)

end

text \<open>
  The remaining withdrawal amount is exact: unlimited with no interval, otherwise the capacity
  less what the current interval has used (nothing, once the interval has passed), and 0 when that
  is negative. The subtraction of signed values never leaves the range of the result.
\<close>

theorem remaining_amount_exact:
  "int (unat (remaining_amount caps now)) =
    (if config_interval_length_seconds caps = 0 then 2 ^ 64 - 1
     else if sint (config_capacity caps) < 0 then 0
     else max 0 (sint (config_capacity caps) -
       (if unat (last_interval_start_timestamp caps) + unat (config_interval_length_seconds caps)
           \<le> unat now
        then 0 else sint (current_total caps))))"
proof -
  define c where "c = sint (config_capacity caps)"
  define u where "u = sint (current_total caps)"
  have bounds: "c < 2 ^ 63" "- (2 ^ 63) \<le> u"
    using sint_i64_bounds unfolding c_def u_def by blast+
  have elapsed: "config_interval_length_seconds caps
      \<le> saturating_sub now (last_interval_start_timestamp caps) \<longleftrightarrow>
    unat (last_interval_start_timestamp caps) + unat (config_interval_length_seconds caps) \<le> unat now"
    if "config_interval_length_seconds caps \<noteq> 0"
    using that by (auto simp: word_le_nat_alt unat_saturating_sub unat_eq_0_iff [symmetric])
  have word: "int (unat (word_of_int n :: u64)) = n" if "0 \<le> n" "n < 2 ^ 64" for n
    using that by (simp add: unsigned_of_int take_bit_int_eq_self)
  have max: "int (unat u64_max) = 2 ^ 64 - 1" by (simp add: unat_minus_one del: of_nat_unat)
  show ?thesis
    unfolding remaining_amount_def Let_def c_def [symmetric] u_def [symmetric]
    using bounds elapsed word [of c] word [of "c - u"] max by (auto simp del: of_nat_unat)
qed

end
