(* ===== verification/Klend.thy ===== *)
theory Klend
  imports Klend_Fixed
begin

text \<open>
  The Klend backend, \<open>src/src/your_venue/klend/\<close>: the reserve and its decoder (\<open>state.rs\<close>), the
  borrow-rate curve, interest accrual, the conversions between collateral and liquidity and the two
  quotes (\<open>math.rs\<close>), the refresh (\<open>update.rs\<close>), the account lists (\<open>account_metas.rs\<close>) and the
  backend (\<open>mod.rs\<close>).
\<close>

section \<open>The reserve (\<open>state.rs\<close>)\<close>

definition KLEND_RESERVE_LEN :: nat where "KLEND_RESERVE_LEN = 8624"
definition KLEND_RESERVE_DISCRIMINATOR :: bytes where
  "KLEND_RESERVE_DISCRIMINATOR = [43, 242, 204, 202, 26, 247, 59, 127]"
definition BORROW_RATE_CURVE_LEN :: nat where "BORROW_RATE_CURVE_LEN = 88"

record klend_state =
  kl_version :: u64
  kl_last_update_slot :: u64
  kl_last_update_timestamp :: u64
  kl_lending_market :: pubkey
  kl_mint_pubkey :: pubkey
  kl_supply_vault :: pubkey
  kl_total_available_amount :: u64
  kl_borrowed_amount_sf :: u128
  kl_market_price_last_updated_ts :: u64
  kl_mint_decimals :: u64
  kl_cumulative_borrow_rate_bsf :: "u64 list"
  kl_accumulated_protocol_fees_sf :: u128
  kl_accumulated_referrer_fees_sf :: u128
  kl_pending_referrer_fees_sf :: u128
  kl_absolute_referral_rate_sf :: u128
  kl_liquidity_token_program :: pubkey
  kl_collateral_mint_pubkey :: pubkey
  kl_collateral_mint_total_supply :: u64
  kl_status :: u8
  kl_block_ctoken_usage :: bool
  kl_emergency_mode :: bool
  kl_host_fixed_interest_rate_bps :: u16
  kl_protocol_take_rate_pct :: u8
  kl_interest_rate_basis :: u8
  kl_borrow_rate_curve :: bytes
  kl_deposit_limit :: u64
  kl_max_age_price_seconds :: u64
  kl_deposit_withdrawal_cap :: withdrawal_caps
  kl_debt_withdrawal_cap :: withdrawal_caps
  kl_queued_collateral_amount :: u64
  kl_scope_price_feed :: pubkey
  kl_switchboard_price_aggregator :: pubkey
  kl_switchboard_twap_aggregator :: pubkey
  kl_pyth_price :: pubkey

definition klend_state_default :: klend_state where
  "klend_state_default =
     \<lparr> kl_version = 0,
       kl_last_update_slot = 0,
       kl_last_update_timestamp = 0,
       kl_lending_market = pubkey_default,
       kl_mint_pubkey = pubkey_default,
       kl_supply_vault = pubkey_default,
       kl_total_available_amount = 0,
       kl_borrowed_amount_sf = 0,
       kl_market_price_last_updated_ts = 0,
       kl_mint_decimals = 0,
       kl_cumulative_borrow_rate_bsf = replicate 6 0,
       kl_accumulated_protocol_fees_sf = 0,
       kl_accumulated_referrer_fees_sf = 0,
       kl_pending_referrer_fees_sf = 0,
       kl_absolute_referral_rate_sf = 0,
       kl_liquidity_token_program = pubkey_default,
       kl_collateral_mint_pubkey = pubkey_default,
       kl_collateral_mint_total_supply = 0,
       kl_status = 0,
       kl_block_ctoken_usage = False,
       kl_emergency_mode = False,
       kl_host_fixed_interest_rate_bps = 0,
       kl_protocol_take_rate_pct = 0,
       kl_interest_rate_basis = 0,
       kl_borrow_rate_curve = replicate 88 0,
       kl_deposit_limit = 0,
       kl_max_age_price_seconds = 0,
       kl_deposit_withdrawal_cap = withdrawal_caps_default,
       kl_debt_withdrawal_cap = withdrawal_caps_default,
       kl_queued_collateral_amount = 0,
       kl_scope_price_feed = pubkey_default,
       kl_switchboard_price_aggregator = pubkey_default,
       kl_switchboard_twap_aggregator = pubkey_default,
       kl_pyth_price = pubkey_default \<rparr>"

definition klend_decode :: "bytes \<Rightarrow> klend_state vres" where
  "klend_decode data =
     (if length data < KLEND_RESERVE_LEN then Err (deser_err ''klend reserve: length'')
      else and_then (slice data 0 8) (\<lambda>disc.
      if disc \<noteq> KLEND_RESERVE_DISCRIMINATOR then Err (deser_err ''klend reserve: discriminator'')
      else
        and_then (read_u64 data 8 ''klend.version'')
          (\<lambda>version.
        and_then (read_u64 data 16 ''klend.last_update.slot'')
          (\<lambda>last_update_slot.
        and_then (slice data 28 32) (\<lambda>ts.
        and_then (ok_or (try_array 4 ts) (deser_err ''klend.last_update.timestamp'')) (\<lambda>ts4.
        let last_update_timestamp = ucast (from_le_bytes ts4 :: u32) in
        and_then (read_pubkey data 32 ''klend.lending_market'')
          (\<lambda>lending_market.
        and_then (read_pubkey data 128 ''klend.liquidity.mint_pubkey'')
          (\<lambda>mint_pubkey.
        and_then (read_pubkey data 160 ''klend.liquidity.supply_vault'')
          (\<lambda>supply_vault.
        and_then (read_u64 data 224 ''klend.total_available_amount'')
          (\<lambda>total_available_amount.
        and_then (read_u128 data 232 ''klend.borrowed_amount_sf'')
          (\<lambda>borrowed_amount_sf.
        and_then (read_u64 data 264 ''klend.market_price_last_updated_ts'')
          (\<lambda>market_price_last_updated_ts.
        and_then (read_u64 data 272 ''klend.mint_decimals'')
          (\<lambda>mint_decimals.
        and_then (map_outcome (\<lambda>i. read_u64 data (296 + i * 8) ''klend.cumulative_borrow_rate_bsf'') [0..<6])
          (\<lambda>cumulative_borrow_rate_bsf.
        and_then (read_u128 data 344 ''klend.accumulated_protocol_fees_sf'')
          (\<lambda>accumulated_protocol_fees_sf.
        and_then (read_u128 data 360 ''klend.accumulated_referrer_fees_sf'')
          (\<lambda>accumulated_referrer_fees_sf.
        and_then (read_u128 data 376 ''klend.pending_referrer_fees_sf'')
          (\<lambda>pending_referrer_fees_sf.
        and_then (read_u128 data 392 ''klend.absolute_referral_rate_sf'')
          (\<lambda>absolute_referral_rate_sf.
        and_then (read_pubkey data 408 ''klend.liquidity.token_program'')
          (\<lambda>liquidity_token_program.
        and_then (read_pubkey data 2560 ''klend.collateral.mint_pubkey'')
          (\<lambda>collateral_mint_pubkey.
        and_then (read_u64 data 2592 ''klend.collateral.mint_total_supply'')
          (\<lambda>collateral_mint_total_supply.
        and_then (index_at data 4856)
          (\<lambda>status.
        and_then (slice data 4858 4860) (\<lambda>hf.
        and_then (ok_or (try_array 2 hf) (deser_err ''host_fixed_rate'')) (\<lambda>hf2.
        let host_fixed_interest_rate_bps = from_le_bytes hf2 in
        and_then (index_at data 4862) (\<lambda>block_byte.
        let block_ctoken_usage = block_byte \<noteq> 0 in
        and_then (index_at data 4864) (\<lambda>emergency_byte.
        let emergency_mode = emergency_byte \<noteq> 0 in
        and_then (index_at data 4865)
          (\<lambda>interest_rate_basis.
        and_then (index_at data 4870)
          (\<lambda>protocol_take_rate_pct.
        and_then (slice data 4920 5008) (\<lambda>curve.
        and_then (ok_or (try_array BORROW_RATE_CURVE_LEN curve) (deser_err ''borrow_rate_curve''))
          (\<lambda>borrow_rate_curve.
        and_then (read_u64 data 5016 ''klend.config.deposit_limit'')
          (\<lambda>deposit_limit.
        and_then (read_u64 data 5096 ''klend.token_info.max_age_price_seconds'')
          (\<lambda>max_age_price_seconds.
        and_then (read_pubkey data 5112 ''klend.token_info.scope_price_feed'')
          (\<lambda>scope_price_feed.
        and_then (read_pubkey data 5160 ''klend.token_info.switchboard_price_aggregator'')
          (\<lambda>switchboard_price_aggregator.
        and_then (read_pubkey data 5192 ''klend.token_info.switchboard_twap_aggregator'')
          (\<lambda>switchboard_twap_aggregator.
        and_then (read_pubkey data 5224 ''klend.token_info.pyth_price'')
          (\<lambda>pyth_price.
        and_then (slice data 5416 5448) (\<lambda>cap1.
        and_then (withdrawal_caps_decode cap1) (\<lambda>deposit_withdrawal_cap.
        and_then (slice data 5448 5480) (\<lambda>cap2.
        and_then (withdrawal_caps_decode cap2) (\<lambda>debt_withdrawal_cap.
        and_then (read_u64 data 6968 ''klend.withdraw_queue.queued_collateral_amount'')
          (\<lambda>queued_collateral_amount.
        Ok \<lparr> kl_version = version,
             kl_last_update_slot = last_update_slot,
             kl_last_update_timestamp = last_update_timestamp,
             kl_lending_market = lending_market,
             kl_mint_pubkey = mint_pubkey,
             kl_supply_vault = supply_vault,
             kl_total_available_amount = total_available_amount,
             kl_borrowed_amount_sf = borrowed_amount_sf,
             kl_market_price_last_updated_ts = market_price_last_updated_ts,
             kl_mint_decimals = mint_decimals,
             kl_cumulative_borrow_rate_bsf = cumulative_borrow_rate_bsf,
             kl_accumulated_protocol_fees_sf = accumulated_protocol_fees_sf,
             kl_accumulated_referrer_fees_sf = accumulated_referrer_fees_sf,
             kl_pending_referrer_fees_sf = pending_referrer_fees_sf,
             kl_absolute_referral_rate_sf = absolute_referral_rate_sf,
             kl_liquidity_token_program = liquidity_token_program,
             kl_collateral_mint_pubkey = collateral_mint_pubkey,
             kl_collateral_mint_total_supply = collateral_mint_total_supply,
             kl_status = status,
             kl_block_ctoken_usage = block_ctoken_usage,
             kl_emergency_mode = emergency_mode,
             kl_host_fixed_interest_rate_bps = host_fixed_interest_rate_bps,
             kl_protocol_take_rate_pct = protocol_take_rate_pct,
             kl_interest_rate_basis = interest_rate_basis,
             kl_borrow_rate_curve = borrow_rate_curve,
             kl_deposit_limit = deposit_limit,
             kl_max_age_price_seconds = max_age_price_seconds,
             kl_deposit_withdrawal_cap = deposit_withdrawal_cap,
             kl_debt_withdrawal_cap = debt_withdrawal_cap,
             kl_queued_collateral_amount = queued_collateral_amount,
             kl_scope_price_feed = scope_price_feed,
             kl_switchboard_price_aggregator = switchboard_price_aggregator,
             kl_switchboard_twap_aggregator = switchboard_twap_aggregator,
             kl_pyth_price = pyth_price \<rparr>)))))))))))))))))))))))))))))))))))))))))"

section \<open>The borrow-rate curve (\<open>math.rs\<close>)\<close>

definition POINTS_IN_CURVE :: nat where "POINTS_IN_CURVE = 11"
definition POINT_SIZE :: nat where "POINT_SIZE = 8"
definition KLEND_SLOTS_PER_YEAR :: u64 where "KLEND_SLOTS_PER_YEAR = 63072000"
definition KLEND_SECONDS_PER_YEAR :: u64 where "KLEND_SECONDS_PER_YEAR = 31536000"
definition PROGRAM_VERSION :: u64 where "PROGRAM_VERSION = 1"
definition INTEREST_RATE_BASIS_LEGACY :: u8 where "INTEREST_RATE_BASIS_LEGACY = 0"
definition INTEREST_RATE_BASIS_TRUE_APR :: u8 where "INTEREST_RATE_BASIS_TRUE_APR = 1"

text \<open>The closure \<open>point\<close>: utilization and rate of the i-th point, in basis points.\<close>

definition curve_point :: "bytes \<Rightarrow> nat \<Rightarrow> ('e, u32 \<times> u32) outcome" where
  "curve_point curve i =
     (let off = i * POINT_SIZE
      in and_then (slice curve off (off + 4)) (\<lambda>util.
         and_then (slice curve (off + 4) (off + 8)) (\<lambda>rate.
         Ok (from_le_bytes util, from_le_bytes rate))))"

text \<open>The loop over the points; the last argument lists the indices still to visit.\<close>

fun curve_loop ::
    "crates \<Rightarrow> bytes \<Rightarrow> fraction \<Rightarrow> u32 \<Rightarrow> u32 \<Rightarrow> u32 \<Rightarrow> nat list \<Rightarrow> ('e, fraction) outcome" where
  "curve_loop E curve utilization util_bps prev_util prev_rate [] =
     klend_bps_to_fraction E prev_rate"
| "curve_loop E curve utilization util_bps prev_util prev_rate (i # is) =
     and_then (curve_point curve i) (\<lambda>(cur_util, cur_rate).
     if util_bps = cur_util then klend_bps_to_fraction E cur_rate
     else if prev_util < util_bps \<and> util_bps < cur_util then
       let slope_nom = saturating_sub cur_rate prev_rate
       in and_then (plain_sub (overflow_checks E) cur_util prev_util) (\<lambda>slope_denom.
          and_then (klend_bps_to_fraction E prev_util) (\<lambda>start_util_f.
          and_then (f_sub E utilization start_util_f) (\<lambda>coef.
          and_then (f_mul_int E coef (ucast slope_nom)) (\<lambda>nom.
          and_then (f_div_int E nom (ucast slope_denom)) (\<lambda>base_rate.
          and_then (klend_bps_to_fraction E prev_rate) (\<lambda>offset.
          f_add E base_rate offset))))))
     else curve_loop E curve utilization util_bps cur_util cur_rate is)"

definition lookup_borrow_rate :: "crates \<Rightarrow> bytes \<Rightarrow> fraction \<Rightarrow> ('e, fraction) outcome" where
  "lookup_borrow_rate E curve utilization0 =
     (let utilization = (if frac_one < utilization0 then frac_one else utilization0)
      in and_then (f_from_num E (ucast full_bps)) (\<lambda>full.
         and_then (f_mul E utilization full) (\<lambda>scaled.
         and_then (or_panic (fr_round E scaled)) (\<lambda>rounded.
         and_then (or_panic (fr_to_u32 E rounded)) (\<lambda>util_bps_u32.
         let util_bps = min util_bps_u32 full_bps
         in and_then (curve_point curve 0) (\<lambda>(prev_util, prev_rate).
            if util_bps = prev_util then klend_bps_to_fraction E prev_rate
            else curve_loop E curve utilization util_bps prev_util prev_rate
                   [1..<POINTS_IN_CURVE]))))))"

section \<open>Accrual (\<open>math.rs\<close>)\<close>

record accrued_klend =
  ak_borrowed_amount_sf :: u128
  ak_accumulated_protocol_fees_sf :: u128
  ak_pending_referrer_fees_sf :: u128
  ak_accumulated_referrer_fees_sf :: u128

definition total_supply_core ::
    "crates \<Rightarrow> u64 \<Rightarrow> u128 \<Rightarrow> u128 \<Rightarrow> u128 \<Rightarrow> u128 \<Rightarrow> ('e, fraction) outcome" where
  "total_supply_core E available borrowed protocol_fees referrer_fees pending_fees =
     and_then (f_from_num E (ucast available)) (\<lambda>a.
     and_then (f_add E a (Fraction borrowed)) (\<lambda>s1.
     and_then (f_sub E s1 (Fraction protocol_fees)) (\<lambda>s2.
     and_then (f_sub E s2 (Fraction referrer_fees)) (\<lambda>s3.
     f_sub E s3 (Fraction pending_fees)))))"

definition total_supply_fraction_pre :: "crates \<Rightarrow> klend_state \<Rightarrow> ('e, fraction) outcome" where
  "total_supply_fraction_pre E state =
     total_supply_core E (kl_total_available_amount state) (kl_borrowed_amount_sf state)
       (kl_accumulated_protocol_fees_sf state) (kl_accumulated_referrer_fees_sf state)
       (kl_pending_referrer_fees_sf state)"

definition total_supply_fraction ::
    "crates \<Rightarrow> klend_state \<Rightarrow> accrued_klend \<Rightarrow> ('e, fraction) outcome" where
  "total_supply_fraction E state accrued =
     total_supply_core E (kl_total_available_amount state) (ak_borrowed_amount_sf accrued)
       (ak_accumulated_protocol_fees_sf accrued) (ak_accumulated_referrer_fees_sf accrued)
       (ak_pending_referrer_fees_sf accrued)"

definition klend_utilization_rate :: "crates \<Rightarrow> u128 \<Rightarrow> fraction \<Rightarrow> ('e, fraction) outcome" where
  "klend_utilization_rate E borrowed_sf total_supply =
     (if total_supply = frac_zero then Ok frac_zero
      else f_div E (Fraction borrowed_sf) total_supply)"

text \<open>\<open>unix_timestamp.max(0) as u64\<close>.\<close>

definition clamp_timestamp :: "i64 \<Rightarrow> u64" where
  "clamp_timestamp ts = (if sint ts < 0 then 0 else ts)"

record accrual_duration =
  ad_elapsed_units :: u64
  ad_units_per_year :: u128

definition accrual_duration_since ::
    "u8 \<Rightarrow> u64 \<Rightarrow> u64 \<Rightarrow> u64 \<Rightarrow> i64 \<Rightarrow> accrual_duration vres" where
  "accrual_duration_since basis last_update_slot last_update_timestamp current_slot unix_timestamp =
     (if basis = INTEREST_RATE_BASIS_LEGACY then
        Ok \<lparr> ad_elapsed_units = saturating_sub current_slot last_update_slot,
             ad_units_per_year = ucast KLEND_SLOTS_PER_YEAR \<rparr>
      else if basis = INTEREST_RATE_BASIS_TRUE_APR then
        let now = clamp_timestamp unix_timestamp;
            elapsed_units =
              (if last_update_timestamp = 0 then 0 else saturating_sub now last_update_timestamp)
        in Ok \<lparr> ad_elapsed_units = elapsed_units,
                ad_units_per_year = ucast KLEND_SECONDS_PER_YEAR \<rparr>
      else Err (math_err ''unknown interest rate basis''))"

definition accrual_duration_is_zero :: "accrual_duration \<Rightarrow> bool" where
  "accrual_duration_is_zero d \<longleftrightarrow> ad_elapsed_units d = 0"

definition klend_accrue_interest ::
    "crates \<Rightarrow> klend_state \<Rightarrow> u64 \<Rightarrow> i64 \<Rightarrow> accrued_klend vres" where
  "klend_accrue_interest E state current_slot unix_timestamp =
     and_then (accrual_duration_since (kl_interest_rate_basis state) (kl_last_update_slot state)
                 (kl_last_update_timestamp state) current_slot unix_timestamp) (\<lambda>duration.
     if accrual_duration_is_zero duration then
       Ok \<lparr> ak_borrowed_amount_sf = kl_borrowed_amount_sf state,
            ak_accumulated_protocol_fees_sf = kl_accumulated_protocol_fees_sf state,
            ak_pending_referrer_fees_sf = kl_pending_referrer_fees_sf state,
            ak_accumulated_referrer_fees_sf = kl_accumulated_referrer_fees_sf state \<rparr>
     else
       and_then (total_supply_fraction_pre E state) (\<lambda>pre_total_supply.
       and_then (klend_utilization_rate E (kl_borrowed_amount_sf state) pre_total_supply)
         (\<lambda>utilization.
       and_then (lookup_borrow_rate E (kl_borrow_rate_curve state) utilization)
         (\<lambda>current_borrow_rate.
       and_then (klend_bps_to_fraction E (ucast (kl_host_fixed_interest_rate_bps state)))
         (\<lambda>host_fixed_interest_rate.
       and_then (percent_to_fraction E (kl_protocol_take_rate_pct state)) (\<lambda>protocol_take_rate.
       let referral_rate = frac_zero
       in and_then (f_add E current_borrow_rate host_fixed_interest_rate) (\<lambda>sum_rate.
          and_then (approximate_compounded_interest E sum_rate (ad_elapsed_units duration)
                      (ad_units_per_year duration)) (\<lambda>compounded_interest_rate.
          and_then (approximate_compounded_interest E host_fixed_interest_rate
                      (ad_elapsed_units duration) (ad_units_per_year duration))
            (\<lambda>compounded_fixed_rate.
          let previous_debt_f = Fraction (kl_borrowed_amount_sf state);
              acc_protocol_fees_f = Fraction (kl_accumulated_protocol_fees_sf state)
          in and_then (f_mul E previous_debt_f compounded_interest_rate) (\<lambda>new_debt_f.
             and_then (f_mul E previous_debt_f compounded_fixed_rate) (\<lambda>fixed_debt.
             and_then (f_sub E fixed_debt previous_debt_f) (\<lambda>fixed_host_fee.
             and_then (f_sub E new_debt_f previous_debt_f) (\<lambda>net1.
             and_then (f_sub E net1 fixed_host_fee) (\<lambda>net_new_variable_debt_f.
             and_then (f_mul E net_new_variable_debt_f protocol_take_rate)
               (\<lambda>variable_protocol_fee_f.
             and_then (f_mul E protocol_take_rate referral_rate) (\<lambda>absolute_referral_rate.
             and_then (f_mul E net_new_variable_debt_f absolute_referral_rate)
               (\<lambda>max_referrers_fees_f.
             and_then (f_add E acc_protocol_fees_f fixed_host_fee) (\<lambda>f1.
             and_then (f_add E f1 variable_protocol_fee_f) (\<lambda>f2.
             and_then (f_sub E f2 max_referrers_fees_f) (\<lambda>new_acc_protocol_fees_f.
             and_then (plain_add (overflow_checks E) (kl_pending_referrer_fees_sf state)
                         (to_bits max_referrers_fees_f)) (\<lambda>pending.
             Ok \<lparr> ak_borrowed_amount_sf = to_bits new_debt_f,
                  ak_accumulated_protocol_fees_sf = to_bits new_acc_protocol_fees_f,
                  ak_pending_referrer_fees_sf = pending,
                  ak_accumulated_referrer_fees_sf = kl_accumulated_referrer_fees_sf state \<rparr>)))))))))))))))))))))"

definition klend_pre_accrue ::
    "crates \<Rightarrow> klend_state \<Rightarrow> u64 \<Rightarrow> i64 \<Rightarrow> klend_state vres" where
  "klend_pre_accrue E state current_slot unix_timestamp =
     and_then (klend_accrue_interest E state current_slot unix_timestamp) (\<lambda>accrued.
     Ok (state\<lparr> kl_borrowed_amount_sf := ak_borrowed_amount_sf accrued,
                kl_accumulated_protocol_fees_sf := ak_accumulated_protocol_fees_sf accrued,
                kl_pending_referrer_fees_sf := ak_pending_referrer_fees_sf accrued,
                kl_accumulated_referrer_fees_sf := ak_accumulated_referrer_fees_sf accrued,
                kl_last_update_slot := current_slot,
                kl_last_update_timestamp := clamp_timestamp unix_timestamp \<rparr>))"

section \<open>Conversions (\<open>math.rs\<close>)\<close>

definition exchange_rate_pair :: "u64 \<Rightarrow> fraction \<Rightarrow> u128 \<times> fraction" where
  "exchange_rate_pair collateral_supply total_supply =
     (if collateral_supply = 0 \<or> total_supply = frac_zero then (1, frac_one)
      else (ucast collateral_supply, total_supply))"

text \<open>\<open>u128_to_u64(fraction.floor().to_num())\<close>.\<close>

definition frac_floor_u64 :: "crates \<Rightarrow> fraction \<Rightarrow> u64 vres" where
  "frac_floor_u64 E f =
     and_then (or_panic (fr_floor E f)) (\<lambda>floored. u128_to_u64 (fr_to_u128 E floored))"

definition klend_liquidity_to_collateral ::
    "crates \<Rightarrow> u64 \<Rightarrow> u128 \<Rightarrow> fraction \<Rightarrow> u64 vres" where
  "klend_liquidity_to_collateral E liquidity_amount collateral_supply total_supply =
     and_then (ok_or (checked_mul collateral_supply (ucast liquidity_amount))
                 (math_err ''liq_to_col mul'')) (\<lambda>lhs.
     and_then (ok_or (big_from_num E lhs) (math_err ''liq_to_col from_num'')) (\<lambda>big.
     let rhs = big_from_fraction total_supply
     in and_then (big_checked_div E big rhs) (\<lambda>quot_opt.
        and_then (ok_or quot_opt (math_err ''liq_to_col div'')) (\<lambda>result.
        and_then (ok_or (big_try_into_fraction result) (math_err ''liq_to_col convert''))
          (frac_floor_u64 E)))))"

definition collateral_to_liquidity_ceil ::
    "crates \<Rightarrow> u64 \<Rightarrow> u128 \<Rightarrow> fraction \<Rightarrow> u64 vres" where
  "collateral_to_liquidity_ceil E collateral_amount collateral_supply total_supply =
     (if collateral_supply = 0 then Err (math_err ''cs=0'')
      else
        let coll = u256_of collateral_amount;
            liquidity_sbf = u256_of (to_bits total_supply);
            cs = u256_of collateral_supply
        in and_then (ok_or (u256_checked_mul E coll liquidity_sbf) (math_err ''ceil mul''))
             (\<lambda>product.
           and_then (or_panic (u256_sub E cs 1)) (\<lambda>cs1.
           and_then (ok_or (u256_checked_add E product cs1) (math_err ''ceil add'')) (\<lambda>numerator.
           and_then (or_panic (u256_div E numerator cs)) (\<lambda>quotient.
           and_then (ok_or (u256_try_u128 quotient) (math_err ''ceil convert'')) (\<lambda>bits.
           and_then (or_panic (fr_ceil E (Fraction bits))) (\<lambda>ceiled.
           u128_to_u64 (fr_to_u128 E ceiled))))))))"

definition fraction_collateral_to_liquidity ::
    "crates \<Rightarrow> u64 \<Rightarrow> u128 \<Rightarrow> fraction \<Rightarrow> fraction vres" where
  "fraction_collateral_to_liquidity E collateral_amount collateral_supply total_supply =
     (if collateral_supply = 0 then Err (math_err ''cs=0'')
      else
        let coll = u256_of collateral_amount;
            liquidity_sbf = u256_of (to_bits total_supply);
            cs = u256_of collateral_supply
        in and_then (ok_or (u256_checked_mul E coll liquidity_sbf) (math_err ''frac mul''))
             (\<lambda>product.
           and_then (or_panic (u256_div E product cs)) (\<lambda>quotient.
           and_then (ok_or (u256_try_u128 quotient) (math_err ''frac convert'')) (\<lambda>bits.
           Ok (Fraction bits)))))"

definition klend_collateral_to_liquidity ::
    "crates \<Rightarrow> u64 \<Rightarrow> u128 \<Rightarrow> fraction \<Rightarrow> u64 vres" where
  "klend_collateral_to_liquidity E collateral_amount collateral_supply total_supply =
     (if collateral_supply = 0 then Err (math_err ''cs=0'')
      else
        let coll = u256_of collateral_amount;
            liquidity_sbf = u256_of (to_bits total_supply);
            cs = u256_of collateral_supply
        in and_then (ok_or (u256_checked_mul E coll liquidity_sbf) (math_err ''col_to_liq mul''))
             (\<lambda>product.
           and_then (or_panic (u256_div E product cs)) (\<lambda>quotient.
           and_then (ok_or (u256_try_u128 quotient) (math_err ''col_to_liq convert'')) (\<lambda>bits.
           frac_floor_u64 E (Fraction bits)))))"

definition fraction_liquidity_to_collateral_ceil ::
    "crates \<Rightarrow> u64 \<Rightarrow> u128 \<Rightarrow> fraction \<Rightarrow> u64 vres" where
  "fraction_liquidity_to_collateral_ceil E liquidity_amount collateral_supply total_supply =
     (if collateral_supply = 0 then Err (math_err ''cs=0'')
      else
        let den = u256_of (to_bits total_supply)
        in if den = 0 then Err (math_err ''ts=0'')
           else
             and_then (ok_or (u256_checked_mul E (u256_of liquidity_amount)
                                (u256_of collateral_supply)) (math_err ''l2c mul'')) (\<lambda>p1.
             and_then (ok_or (u256_checked_mul E p1 (u256_of (2 ^ 60 :: u128)))
                         (math_err ''l2c shift'')) (\<lambda>num.
             and_then (or_panic (u256_add E num den)) (\<lambda>n1.
             and_then (or_panic (u256_sub E n1 1)) (\<lambda>n2.
             and_then (or_panic (u256_div E n2 den)) (\<lambda>quotient.
             and_then (ok_or (u256_try_u128 quotient) (math_err ''l2c convert'')) u128_to_u64))))))"

section \<open>Quotes (\<open>math.rs\<close>)\<close>

definition klend_quote_deposit ::
    "crates \<Rightarrow> klend_state \<Rightarrow> u64 \<Rightarrow> i64 \<Rightarrow> wrapper_vault \<Rightarrow> global_config \<Rightarrow> u64 \<Rightarrow> u64 vres" where
  "klend_quote_deposit E state current_slot unix_timestamp wv gc amount =
     (if amount = 0 then Err (math_err ''zero amount'')
      else if kl_emergency_mode state then Err (math_err ''emergency mode'')
      else if kl_version state \<noteq> PROGRAM_VERSION then Err (math_err ''reserve deprecated'')
      else if kl_status state \<noteq> 0 then Err (math_err ''reserve obsolete'')
      else if kl_block_ctoken_usage state then Err (math_err ''ctoken usage blocked'')
      else
        and_then (klend_accrue_interest E state current_slot unix_timestamp) (\<lambda>accrued.
        and_then (total_supply_fraction E state accrued) (\<lambda>total_supply_f.
        and_then (mul_bps amount (gc_protocol_deposit_fee_bps gc)) (\<lambda>protocol_fee.
        and_then (mul_bps amount (wv_creator_deposit_fee_bps wv)) (\<lambda>creator_fee.
        and_then (sub_fees amount protocol_fee creator_fee) (\<lambda>net_amount.
        if net_amount = 0 then Err (math_err ''net zero'')
        else
          let (cs, ts) = exchange_rate_pair (kl_collateral_mint_total_supply state) total_supply_f
          in and_then (klend_liquidity_to_collateral E net_amount cs ts) (\<lambda>collateral_amount.
             if collateral_amount = 0 then Err (math_err ''collateral zero'')
             else
               and_then (collateral_to_liquidity_ceil E collateral_amount cs ts)
                 (\<lambda>liquidity_amount_to_deposit.
               if net_amount < liquidity_amount_to_deposit then Err (math_err ''deposit > net'')
               else
                 and_then (f_from_num E (ucast liquidity_amount_to_deposit)) (\<lambda>dep_f.
                 and_then (f_add E dep_f total_supply_f) (\<lambda>new_supply_f.
                 and_then (f_from_num E (ucast (kl_deposit_limit state))) (\<lambda>limit_f.
                 if limit_f < new_supply_f then Err (math_err ''deposit limit'')
                 else
                   and_then (pro_rata_mint ''klend ctokens out of sync'' ''wrap mul'' ''wrap div''
                               (wv_wrapper_supply wv) (wv_intermediate_held wv) net_amount
                               collateral_amount) (\<lambda>wrapper_to_mint.
                   if wrapper_to_mint = 0 then Err (math_err ''mint zero'')
                   else
                     and_then (settle_deposit E ''new ctokens total'' (wv_intermediate_held wv)
                                 (wv_intermediate_held wv) (ucast collateral_amount)
                                 (wv_wrapper_supply wv) wrapper_to_mint) (\<lambda>_.
                     Ok wrapper_to_mint)))))))))))))"

definition klend_quote_withdraw ::
    "crates \<Rightarrow> klend_state \<Rightarrow> u64 \<Rightarrow> i64 \<Rightarrow> wrapper_vault \<Rightarrow> u64 \<Rightarrow> u64 vres" where
  "klend_quote_withdraw E state current_slot unix_timestamp wv amount =
     (if amount = 0 then Err (math_err ''zero amount'')
      else if kl_emergency_mode state then Err (math_err ''emergency mode'')
      else if kl_version state \<noteq> PROGRAM_VERSION then Err (math_err ''reserve deprecated'')
      else if wv_wrapper_supply wv < amount then Err (math_err ''burn exceeds supply'')
      else if wv_intermediate_held wv = 0 then Err (math_err ''no ctokens'')
      else
        and_then (pro_rata_redeem ''redeem mul'' ''redeem div'' amount (wv_intermediate_held wv)
                    (wv_wrapper_supply wv)) (\<lambda>ctokens_to_redeem.
        if ctokens_to_redeem = 0 then Err (math_err ''ctoken zero'')
        else
          and_then (klend_accrue_interest E state current_slot unix_timestamp) (\<lambda>accrued.
          and_then (total_supply_fraction E state accrued) (\<lambda>total_supply_f.
          let (cs, ts) = exchange_rate_pair (kl_collateral_mint_total_supply state) total_supply_f
          in and_then (klend_collateral_to_liquidity E ctokens_to_redeem cs ts)
               (\<lambda>underlying_received.
             if underlying_received = 0 then Err (math_err ''underlying zero'')
             else
               and_then
                 (if kl_queued_collateral_amount state = 0 then Ok 0
                  else klend_collateral_to_liquidity E (kl_queued_collateral_amount state) cs ts)
                 (\<lambda>queued_liquidity.
               let freely_available =
                     saturating_sub (kl_total_available_amount state) queued_liquidity
               in if freely_available < underlying_received
                  then Err (math_err ''insufficient liquidity'')
                  else
                    let remaining = remaining_amount (kl_deposit_withdrawal_cap state)
                                      (clamp_timestamp unix_timestamp)
                    in if remaining < underlying_received then Err (math_err ''withdrawal cap'')
                       else
                         and_then (settle_withdraw E ''new ctokens total''
                                     (wv_intermediate_held wv) (wv_intermediate_held wv)
                                     (ucast ctokens_to_redeem) (wv_wrapper_supply wv) amount) (\<lambda>_.
                         Ok underlying_received)))))))"

section \<open>The refresh (\<open>update.rs\<close>)\<close>

definition klend_required_pubkeys :: "crates \<Rightarrow> wrapper_vault \<Rightarrow> pubkey list" where
  "klend_required_pubkeys E wv = [wv_source_pool wv, CLOCK_SYSVAR_ID E]"

definition klend_run ::
    "crates \<Rightarrow> wrapper_vault \<Rightarrow> accounts_cache \<Rightarrow> klend_state \<Rightarrow> u64 \<Rightarrow> i64 \<Rightarrow>
      (klend_state \<times> u64 \<times> i64) \<times> unit vres" where
  "klend_run E wv cache s current_slot unix_timestamp =
     (let st0 = (s, current_slot, unix_timestamp)
      in or_stop (get_accounts cache [wv_source_pool wv, CLOCK_SYSVAR_ID E]) st0 (\<lambda>accounts.
         or_stop (ok_or (try_two accounts) FailedToFetchMultipleAccountData) st0
           (\<lambda>(reserve_opt, clock_opt).
         or_stop (ok_or reserve_opt (NoAccountFound (EPubkey (wv_source_pool wv)))) st0
           (\<lambda>reserve_acct.
         or_stop (ok_or clock_opt (NoAccountFound (EPubkey (CLOCK_SYSVAR_ID E)))) st0
           (\<lambda>clock_acct.
         or_stop (klend_decode (acc_data reserve_acct)) st0 (\<lambda>s1.
         or_stop (clock_field (acc_data clock_acct) 0 8 ''clock.slot'')
           (s1, current_slot, unix_timestamp) (\<lambda>slot.
         or_stop (clock_field (acc_data clock_acct) 32 40 ''clock.unix_timestamp'')
           (s1, slot, unix_timestamp) (\<lambda>ts.
         or_stop (klend_pre_accrue E s1 slot ts) (s1, slot, ts) (\<lambda>s2.
         ((s2, slot, ts), Ok ()))))))))))"

section \<open>Account lists (\<open>account_metas.rs\<close>)\<close>

definition KLEND_PROGRAM_ID :: "crates \<Rightarrow> pubkey" where
  "KLEND_PROGRAM_ID E = from_str_const E ''KLend2g3cP87fffoy8q1mQqGKjrxjC8boSyAYavgmjD''"

definition SYSVAR_INSTRUCTIONS_ID :: "crates \<Rightarrow> pubkey" where
  "SYSVAR_INSTRUCTIONS_ID E = from_str_const E ''Sysvar1nstructions1111111111111111111111111''"

definition KLEND_NULL_PUBKEY :: "crates \<Rightarrow> pubkey" where
  "KLEND_NULL_PUBKEY E = from_str_const E ''nu11111111111111111111111111111111111111111''"

definition oracle_or_placeholder :: "crates \<Rightarrow> pubkey \<Rightarrow> account_meta" where
  "oracle_or_placeholder E key =
     (if key = pubkey_default \<or> key = KLEND_NULL_PUBKEY E
      then meta_new_readonly (KLEND_PROGRAM_ID E) False else meta_new_readonly key False)"

definition resolve_token_program :: "crates \<Rightarrow> pubkey \<Rightarrow> pubkey" where
  "resolve_token_program E stored =
     (if stored = TOKEN_2022_PROGRAM_ID E then TOKEN_2022_PROGRAM_ID E else SPL_TOKEN_PROGRAM_ID E)"

definition klend_build_base ::
    "crates \<Rightarrow> klend_state \<Rightarrow> wrapper_vault \<Rightarrow> pubkey \<Rightarrow> account_meta list vres" where
  "klend_build_base E state wv user =
     (let wrapper_mint = wv_wrapper_mint wv;
          underlying_mint = wv_underlying_mint wv;
          collateral_mint = kl_collateral_mint_pubkey state;
          overpass = OVERPASS_PROGRAM_ID E;
          spl = SPL_TOKEN_PROGRAM_ID E
      in and_then (global_config_pda E overpass) (\<lambda>global_config.
         and_then (find_pda E [byte_str ''vault'', wrapper_mint] overpass) (\<lambda>wrapper_vault_pda.
         and_then (find_pda E [byte_str ''authority'', wrapper_mint] overpass) (\<lambda>vault_authority.
         and_then (find_pda E [byte_str ''lma'', kl_lending_market state] (KLEND_PROGRAM_ID E))
           (\<lambda>lending_market_authority.
         let underlying_token_program = resolve_token_program E (kl_liquidity_token_program state)
         in and_then (derive_ata E user underlying_mint underlying_token_program)
              (\<lambda>user_underlying_ata.
            and_then (derive_ata E user wrapper_mint spl) (\<lambda>user_wrapper_ata.
            and_then (derive_ata E vault_authority underlying_mint underlying_token_program)
              (\<lambda>vault_underlying_ata.
            and_then (derive_ata E vault_authority collateral_mint spl) (\<lambda>vault_collateral_ata.
            Ok [meta_new user True,
                meta_new_readonly global_config False,
                meta_new wrapper_vault_pda False,
                meta_new_readonly vault_authority False,
                meta_new wrapper_mint False,
                meta_new underlying_mint False,
                meta_new collateral_mint False,
                meta_new user_wrapper_ata False,
                meta_new user_underlying_ata False,
                meta_new vault_underlying_ata False,
                meta_new vault_collateral_ata False,
                meta_new (wv_source_pool wv) False,
                meta_new_readonly (kl_lending_market state) False,
                meta_new_readonly lending_market_authority False,
                meta_new (kl_supply_vault state) False,
                meta_new_readonly (SYSVAR_INSTRUCTIONS_ID E) False,
                meta_new_readonly (KLEND_PROGRAM_ID E) False,
                meta_new_readonly underlying_token_program False,
                meta_new_readonly spl False,
                meta_new_readonly spl False,
                meta_new_readonly (ATA_PROGRAM_ID E) False,
                meta_new_readonly (SYSTEM_PROGRAM_ID E) False,
                oracle_or_placeholder E (kl_pyth_price state),
                oracle_or_placeholder E (kl_switchboard_price_aggregator state),
                oracle_or_placeholder E (kl_switchboard_twap_aggregator state),
                oracle_or_placeholder E (kl_scope_price_feed state)])))))))))"

definition klend_build_deposit ::
    "crates \<Rightarrow> klend_state \<Rightarrow> wrapper_vault \<Rightarrow> pubkey \<Rightarrow> account_meta list vres" where
  "klend_build_deposit E state wv user = klend_build_base E state wv user"

definition klend_build_withdraw ::
    "crates \<Rightarrow> klend_state \<Rightarrow> wrapper_vault \<Rightarrow> pubkey \<Rightarrow> account_meta list vres" where
  "klend_build_withdraw E state wv user = klend_build_base E state wv user"

section \<open>The backend (\<open>mod.rs\<close>)\<close>

record klend =
  kb_state :: klend_state
  kb_current_slot :: u64
  kb_unix_timestamp :: i64

definition KLEND_DEPOSIT_IX_DISCRIMINATOR :: bytes where
  "KLEND_DEPOSIT_IX_DISCRIMINATOR = [0x63, 0xd5, 0x64, 0x24, 0xeb, 0xa4, 0x87, 0x42]"

definition KLEND_WITHDRAW_IX_DISCRIMINATOR :: bytes where
  "KLEND_WITHDRAW_IX_DISCRIMINATOR = [0x9a, 0xa6, 0x06, 0x52, 0xdd, 0xc0, 0xc5, 0x9e]"

definition klend_new :: klend where
  "klend_new = \<lparr> kb_state = klend_state_default, kb_current_slot = 0, kb_unix_timestamp = 0 \<rparr>"

definition klend_update ::
    "crates \<Rightarrow> klend \<Rightarrow> wrapper_vault \<Rightarrow> accounts_cache \<Rightarrow> klend \<times> unit vres" where
  "klend_update E self wv cache =
     (let ((s, slot, ts), res) =
        klend_run E wv cache (kb_state self) (kb_current_slot self) (kb_unix_timestamp self)
      in (\<lparr> kb_state = s, kb_current_slot = slot, kb_unix_timestamp = ts \<rparr>, res))"

definition klend_deposit_quote ::
    "crates \<Rightarrow> klend \<Rightarrow> wrapper_vault \<Rightarrow> global_config \<Rightarrow> u64 \<Rightarrow> u64 vres" where
  "klend_deposit_quote E self wv gc amount =
     klend_quote_deposit E (kb_state self) (kb_current_slot self) (kb_unix_timestamp self)
       wv gc amount"

definition klend_withdraw_quote :: "crates \<Rightarrow> klend \<Rightarrow> wrapper_vault \<Rightarrow> u64 \<Rightarrow> u64 vres" where
  "klend_withdraw_quote E self wv amount =
     klend_quote_withdraw E (kb_state self) (kb_current_slot self) (kb_unix_timestamp self)
       wv amount"

definition klend_build_deposit_ix ::
    "crates \<Rightarrow> klend \<Rightarrow> wrapper_vault \<Rightarrow> pubkey \<Rightarrow> u64 \<Rightarrow> u64 \<Rightarrow> instruction vres" where
  "klend_build_deposit_ix E self wv user in_amount min_out =
     and_then (klend_build_deposit E (kb_state self) wv user) (\<lambda>accounts.
     Ok \<lparr> ix_program_id = OVERPASS_PROGRAM_ID E, ix_accounts = accounts,
          ix_data = KLEND_DEPOSIT_IX_DISCRIMINATOR @ to_le_bytes 8 in_amount
            @ to_le_bytes 8 min_out \<rparr>)"

definition klend_build_withdraw_ix ::
    "crates \<Rightarrow> klend \<Rightarrow> wrapper_vault \<Rightarrow> pubkey \<Rightarrow> u64 \<Rightarrow> u64 \<Rightarrow> instruction vres" where
  "klend_build_withdraw_ix E self wv user in_amount min_out =
     and_then (klend_build_withdraw E (kb_state self) wv user) (\<lambda>accounts.
     Ok \<lparr> ix_program_id = OVERPASS_PROGRAM_ID E, ix_accounts = accounts,
          ix_data = KLEND_WITHDRAW_IX_DISCRIMINATOR @ to_le_bytes 8 in_amount
            @ to_le_bytes 8 min_out \<rparr>)"

definition klend_lookup_table_keys :: "crates \<Rightarrow> klend \<Rightarrow> wrapper_vault \<Rightarrow> pubkey list" where
  "klend_lookup_table_keys E self wv =
     (let state = kb_state self
      in [KLEND_PROGRAM_ID E, wv_source_pool wv, kl_lending_market state, kl_supply_vault state]
         @ filter (\<lambda>k. k \<noteq> pubkey_default)
             [kl_pyth_price state, kl_switchboard_price_aggregator state,
              kl_switchboard_twap_aggregator state, kl_scope_price_feed state])"

section \<open>The conversions are exact floors and ceilings\<close>

context num_laws
begin

lemma frac_floor_u64_Ok:
  "frac_floor_u64 E (Fraction b) = Ok r \<longleftrightarrow> unat r = unat b div 2 ^ 60"
  using fr.floor_total [of b] fr.unat_floor_to_u128 [of "Fraction b"]
  by (auto simp: frac_floor_u64_def u128_to_u64_Ok)

lemma frac_floor_u64_no_panic [no_panic, simp]: "frac_floor_u64 E f \<noteq> Panic"
  using fr.floor_total [of "to_bits f"] by (cases f) (auto simp: frac_floor_u64_def u128_to_u64_def)

lemma klend_liquidity_to_collateral_Ok:
  "klend_liquidity_to_collateral E l cs (Fraction t) = Ok c \<Longrightarrow>
     unat t \<noteq> 0 \<and> unat c = unat cs * unat l * 2 ^ 60 div unat t"
proof -
  assume "klend_liquidity_to_collateral E l cs (Fraction t) = Ok c"
  then obtain lhs big qo q f where lhs: "checked_mul cs (ucast l) = Some lhs"
    and big: "big_from_num E lhs = Some big"
    and qo: "big_checked_div E big (big_from_fraction (Fraction t))
        = (Ok qo :: big_fraction option vres)"
    and q': "qo = Some q"
    and f: "big_try_into_fraction q = Some f" and c: "frac_floor_u64 E f = Ok c"
    unfolding klend_liquidity_to_collateral_def Let_def
    by (elim ok_elims) blast
  note q = qo [unfolded q']
  have t: "t \<noteq> 0" using q by (simp add: big_checked_div_Some big_from_fraction_def)
  have "unat (to_bits f) = unat cs * unat l * 2 ^ 60 * 2 ^ 60 div unat t"
    using lhs big q f
    by (simp add: checked_mul_Some big_from_num_Some big_checked_div_Some big_try_into_fraction_Some
        big_from_fraction_def)
  with c have c': "unat c = unat cs * unat l * 2 ^ 60 * 2 ^ 60 div unat t div 2 ^ 60"
    by (cases f) (simp add: frac_floor_u64_Ok)
  then have "unat c = unat cs * unat l * 2 ^ 60 * 2 ^ 60 div (unat t * 2 ^ 60)"
    by (simp only: c' div_mult2_eq)
  also have "\<dots> = unat cs * unat l * 2 ^ 60 div unat t" by (rule div_mult_mult2) simp
  finally show ?thesis using t by (simp add: unat_eq_zero)
qed

lemma klend_liquidity_to_collateral_no_panic [no_panic, simp]:
  "klend_liquidity_to_collateral E l cs ts \<noteq> Panic"
  by (auto simp: klend_liquidity_to_collateral_def Let_def big_checked_div_def div
      checked_div_def split: option.splits)

lemma klend_collateral_to_liquidity_Ok:
  "klend_collateral_to_liquidity E c cs (Fraction t) = Ok l \<Longrightarrow>
     unat cs \<noteq> 0 \<and> unat l = unat c * unat t div unat cs div 2 ^ 60"
  by (auto simp: klend_collateral_to_liquidity_def Let_def chk_mul div checked_mul_Some
      checked_div_Some u256_try_u128_Some frac_floor_u64_Ok split: if_splits)

lemma klend_collateral_to_liquidity_no_panic [no_panic, simp]:
  "klend_collateral_to_liquidity E c cs ts \<noteq> Panic"
  by (auto simp: klend_collateral_to_liquidity_def Let_def div checked_div_def)

text \<open>The ceiling conversion of what a deposit buys never asks for more than the deposit.\<close>

lemma ceil_le_floor_inverse:
  fixes l cs t :: nat
  assumes "0 < cs" "0 < t" "c = cs * l * 2 ^ 60 div t" "q = (c * t + (cs - 1)) div cs"
  shows "(q + 2 ^ 60 - 1) div 2 ^ 60 \<le> l"
proof -
  have "c * t \<le> cs * l * 2 ^ 60" using assms(3) by simp
  then have "c * t + (cs - 1) \<le> cs * (l * 2 ^ 60) + (cs - 1)" by (simp add: mult.assoc)
  then have "q \<le> (cs * (l * 2 ^ 60) + (cs - 1)) div cs"
    unfolding assms(4) by (rule div_le_mono)
  also have "\<dots> = l * 2 ^ 60" by (subst div_mult_self4) (use assms(1) in simp_all)
  finally have "q + (2 ^ 60 - 1) \<le> l * 2 ^ 60 + (2 ^ 60 - 1)" by simp
  then have "(q + (2 ^ 60 - 1)) div 2 ^ 60 \<le> (l * 2 ^ 60 + (2 ^ 60 - 1)) div 2 ^ 60"
    by (rule div_le_mono)
  then show ?thesis by simp
qed

end

section \<open>What a successful quote went through\<close>

lemma klend_quote_depositE:
  assumes "klend_quote_deposit E st slot ts wv gc a = Ok m"
  obtains ac total pf cf net coll dep where
    "a \<noteq> 0" "kl_version st = PROGRAM_VERSION" "kl_status st = 0"
    "\<not> kl_emergency_mode st" "\<not> kl_block_ctoken_usage st"
    "klend_accrue_interest E st slot ts = Ok ac"
    "total_supply_fraction E st ac = (Ok total :: fraction vres)"
    "mul_bps a (gc_protocol_deposit_fee_bps gc) = Ok pf"
    "mul_bps a (wv_creator_deposit_fee_bps wv) = Ok cf"
    "sub_fees a pf cf = Ok net" "net \<noteq> 0"
    "klend_liquidity_to_collateral E net
       (fst (exchange_rate_pair (kl_collateral_mint_total_supply st) total))
       (snd (exchange_rate_pair (kl_collateral_mint_total_supply st) total)) = Ok coll" "coll \<noteq> 0"
    "pro_rata_mint ''klend ctokens out of sync'' ''wrap mul'' ''wrap div''
       (wv_wrapper_supply wv) (wv_intermediate_held wv) net coll = Ok m" "m \<noteq> 0"
    "settle_deposit E ''new ctokens total'' (wv_intermediate_held wv) (wv_intermediate_held wv)
       (ucast coll) (wv_wrapper_supply wv) m = Ok ()"
  using assms unfolding klend_quote_deposit_def Let_def case_prod_unfold
  by (elim ok_elims) (rule that; (assumption | simp))

lemma klend_quote_withdrawE:
  assumes "klend_quote_withdraw E st slot ts wv a = Ok out"
  obtains ac total redeem where
    "a \<noteq> 0" "a \<le> wv_wrapper_supply wv" "wv_intermediate_held wv \<noteq> 0"
    "klend_accrue_interest E st slot ts = Ok ac"
    "total_supply_fraction E st ac = (Ok total :: fraction vres)"
    "pro_rata_redeem ''redeem mul'' ''redeem div'' a (wv_intermediate_held wv)
       (wv_wrapper_supply wv) = Ok redeem" "redeem \<noteq> 0"
    "klend_collateral_to_liquidity E redeem
       (fst (exchange_rate_pair (kl_collateral_mint_total_supply st) total))
       (snd (exchange_rate_pair (kl_collateral_mint_total_supply st) total)) = Ok out" "out \<noteq> 0"
    "out \<le> kl_total_available_amount st"
    "out \<le> remaining_amount (kl_deposit_withdrawal_cap st) (clamp_timestamp ts)"
    "settle_withdraw E ''new ctokens total'' (wv_intermediate_held wv) (wv_intermediate_held wv)
       (ucast redeem) (wv_wrapper_supply wv) a = Ok ()"
proof -
  have le: "\<not> saturating_sub x y < z \<Longrightarrow> z \<le> x" for x y z :: u64
    by (rule order.trans [OF _ saturating_sub_le]) (simp add: not_less)
  show thesis
    using assms unfolding klend_quote_withdraw_def Let_def case_prod_unfold
    by (elim ok_elims) (rule that; (assumption | (hypsubst, erule le) | simp))
qed

lemma exchange_rate_pair_cs: "fst (exchange_rate_pair cs t) \<noteq> 0"
  by (simp add: exchange_rate_pair_def)

interpretation klend_source: quoting_source "klend_deposit_quote E self" "klend_withdraw_quote E self"
  for E self
proof unfold_locales
  fix wv gc r a
  show "klend_deposit_quote E self wv gc 0 \<noteq> Ok r"
    by (simp add: klend_deposit_quote_def klend_quote_deposit_def)
  show "klend_withdraw_quote E self wv 0 \<noteq> Ok r"
    by (simp add: klend_withdraw_quote_def klend_quote_withdraw_def)
  show "r \<noteq> 0" if "klend_deposit_quote E self wv gc a = Ok r"
    using that unfolding klend_deposit_quote_def by (rule klend_quote_depositE)
  show "r \<noteq> 0" if "klend_withdraw_quote E self wv a = Ok r"
    using that unfolding klend_withdraw_quote_def by (rule klend_quote_withdrawE)
  show "unat (wv_wrapper_supply wv) + unat r < 2 ^ 64" if "klend_deposit_quote E self wv gc a = Ok r"
    using that unfolding klend_deposit_quote_def
    by (rule klend_quote_depositE) (blast dest: settle_deposit_fits)
  show "r \<le> a" if "klend_deposit_quote E self wv gc a = Ok r" "wv_wrapper_supply wv = 0"
    using that(1) unfolding klend_deposit_quote_def
    by (rule klend_quote_depositE)
      (use that(2) in \<open>auto simp: pro_rata_mint_Ok sub_fees_Ok word_le_nat_alt\<close>)
  show "a \<le> wv_wrapper_supply wv" if "klend_withdraw_quote E self wv a = Ok r"
    using that unfolding klend_withdraw_quote_def by (rule klend_quote_withdrawE)
qed

text \<open>The instructions of the backend have the shape of a swap.\<close>

lemma oracle_no_signer [simp]: "\<not> am_is_signer (oracle_or_placeholder E key)"
  by (simp add: oracle_or_placeholder_def)

interpretation klend_builder: swap_builder "OVERPASS_PROGRAM_ID E" KLEND_DEPOSIT_IX_DISCRIMINATOR
    KLEND_WITHDRAW_IX_DISCRIMINATOR "klend_build_deposit_ix E self" "klend_build_withdraw_ix E self" for E self
  by unfold_locales
    (auto simp: is_swap_ix_def KLEND_DEPOSIT_IX_DISCRIMINATOR_def KLEND_WITHDRAW_IX_DISCRIMINATOR_def
      klend_build_deposit_ix_def klend_build_withdraw_ix_def klend_build_deposit_def
      klend_build_withdraw_def klend_build_base_def Let_def)

section \<open>Properties\<close>

text \<open>
  The "deposit > net" error of a Klend deposit is unreachable: the liquidity that the ceiling
  conversion asks for the collateral bought is never more than the liquidity deposited.
\<close>

theorem klend_ceil_within_deposit:
  assumes "num_laws E"
    and "klend_liquidity_to_collateral E net cs (Fraction t) = Ok c"
    and "collateral_to_liquidity_ceil E c cs (Fraction t) = Ok l"
  shows "l \<le> net"
proof -
  note laws = num_laws.axioms(1) [OF assms(1)]
  have c: "unat t \<noteq> 0" "unat c = unat cs * unat net * 2 ^ 60 div unat t"
    using num_laws.klend_liquidity_to_collateral_Ok [OF assms(1,2)] by blast+
  obtain product cs1 numer quotient bits ceiled where
      cs0: "cs \<noteq> 0" and product: "u256_checked_mul E (u256_of c) (u256_of t) = Some product"
    and cs1: "u256_sub E (u256_of cs) 1 = Some cs1"
    and numer: "u256_checked_add E product cs1 = Some numer"
    and quotient: "u256_div E numer (u256_of cs) = Some quotient"
    and bits: "u256_try_u128 quotient = Some bits"
    and ceiled: "fr_ceil E (Fraction bits) = Some ceiled"
    and l: "u128_to_u64 (fr_to_u128 E ceiled) = Ok l"
    using assms(3) unfolding collateral_to_liquidity_ceil_def Let_def
    by (elim ok_elims) (auto intro: that)
  have q: "unat bits = (unat c * unat t + (unat cs - 1)) div unat cs"
    using product cs1 numer quotient bits
    by (simp add: uint_laws.chk_mul [OF laws] uint_laws.sub [OF laws] uint_laws.chk_add [OF laws]
        uint_laws.div [OF laws] checked_mul_Some checked_add_Some checked_sub_Some checked_div_Some
        u256_try_u128_Some)
  have cs_pos: "0 < unat cs" "0 < unat t" using cs0 c(1) by (simp_all add: unat_gt_0)
  note le = num_laws.ceil_le_floor_inverse [OF assms(1) cs_pos c(2) q]
  then have "(unat bits + 2 ^ 60 - 1) div 2 ^ 60 * 2 ^ 60 \<le> unat net * 2 ^ 60" by simp
  also have "\<dots> < 2 ^ 128" using unat_lt_64 [of net] by (simp del: unat_lt_64)
  finally obtain w :: u128 where w: "unat w = (unat bits + 2 ^ 60 - 1) div 2 ^ 60 * 2 ^ 60"
    using obtain_word [where 'a = 128, of "(unat bits + 2 ^ 60 - 1) div 2 ^ 60 * 2 ^ 60"] by auto
  have "ceiled = Fraction w"
    using frac_laws.ceil [OF num_laws.axioms(2) [OF assms(1)] w] ceiled by simp
  with l have "unat l = unat w div 2 ^ 60"
    by (simp add: frac_laws.to_u128 [OF num_laws.axioms(2) [OF assms(1)]] u128_to_u64_Ok unat_div)
  with w le show ?thesis by (simp add: word_le_nat_alt)
qed

text \<open>
  C2. A Klend deposit followed by a withdrawal of everything it minted never gives back more than
  the deposit after its fees: the collateral \<open>c\<close> the vault receives is the one the deposit
  computes (the net amount at the exchange rate of the accrued reserve), and at the same reserve
  state and time a withdrawal of the minted \<open>m\<close>, quoted on the vault that holds \<open>m\<close> and \<open>c\<close>
  more, pays at most the net amount, which with the two fees makes up \<open>a\<close> (the vault holds no
  shares while it has no supply).
\<close>

theorem klend_round_trip:
  assumes "num_laws E" and dep: "klend_quote_deposit E st slot ts wv gc a = Ok m"
    and first: "wv_wrapper_supply wv = 0 \<Longrightarrow> wv_intermediate_held wv = 0"
  shows "\<exists>ac total net c. klend_accrue_interest E st slot ts = Ok ac \<and>
    total_supply_fraction E st ac = (Ok total :: fraction vres) \<and>
    unat net + unat a * unat (gc_protocol_deposit_fee_bps gc) div 10000
      + unat a * unat (wv_creator_deposit_fee_bps wv) div 10000 = unat a \<and>
    klend_liquidity_to_collateral E net
      (fst (exchange_rate_pair (kl_collateral_mint_total_supply st) total))
      (snd (exchange_rate_pair (kl_collateral_mint_total_supply st) total)) = Ok c \<and> c \<noteq> 0 \<and>
    (\<forall>out. klend_quote_withdraw E st slot ts (deposited wv m c) m = Ok out \<longrightarrow> out \<le> net)"
  using dep
proof (rule klend_quote_depositE)
  fix ac total pf cf net coll dep
  assume acc: "klend_accrue_interest E st slot ts = Ok ac"
      "total_supply_fraction E st ac = (Ok total :: fraction vres)"
    and fees: "mul_bps a (gc_protocol_deposit_fee_bps gc) = Ok pf"
      "mul_bps a (wv_creator_deposit_fee_bps wv) = Ok cf"
    and net: "sub_fees a pf cf = Ok net"
    and coll: "klend_liquidity_to_collateral E net
        (fst (exchange_rate_pair (kl_collateral_mint_total_supply st) total))
        (snd (exchange_rate_pair (kl_collateral_mint_total_supply st) total)) = Ok coll" "coll \<noteq> 0"
    and mint: "pro_rata_mint ''klend ctokens out of sync'' ''wrap mul'' ''wrap div''
        (wv_wrapper_supply wv) (wv_intermediate_held wv) net coll = Ok m" "m \<noteq> 0"
    and settle: "settle_deposit E ''new ctokens total'' (wv_intermediate_held wv)
        (wv_intermediate_held wv) (ucast coll) (wv_wrapper_supply wv) m = Ok ()"
  note fits = settle_deposit_fits [OF settle, simplified unat_ucast_64_128]
  obtain cs t where pair: "exchange_rate_pair (kl_collateral_mint_total_supply st) total
      = (cs, Fraction t)"
    by (metis fraction.exhaust surj_pair)
  have t: "0 < unat t" "unat coll * unat t \<le> unat cs * unat net * 2 ^ 60"
    using num_laws.klend_liquidity_to_collateral_Ok [OF assms(1) coll(1) [unfolded pair fst_conv snd_conv]]
    by simp_all
  have "out \<le> net" if "klend_quote_withdraw E st slot ts (deposited wv m coll) m = Ok out" for out
    using that
  proof (rule klend_quote_withdrawE)
    fix ac' total' redeem
    assume "klend_accrue_interest E st slot ts = Ok ac'"
      "total_supply_fraction E st ac' = (Ok total' :: fraction vres)"
    with acc have eq: "total' = total" by simp
    assume redeem: "pro_rata_redeem ''redeem mul'' ''redeem div'' m
        (wv_intermediate_held (deposited wv m coll)) (wv_wrapper_supply (deposited wv m coll))
        = Ok redeem"
      and out: "klend_collateral_to_liquidity E redeem
        (fst (exchange_rate_pair (kl_collateral_mint_total_supply st) total'))
        (snd (exchange_rate_pair (kl_collateral_mint_total_supply st) total')) = Ok out"
    have le: "unat redeem \<le> unat coll"
      by (rule deposited_redeem_le [OF mint fits [THEN conjunct1] fits [THEN conjunct2] first redeem])
    have cs: "0 < unat cs" and l: "unat out = unat redeem * unat t div unat cs div 2 ^ 60"
      using num_laws.klend_collateral_to_liquidity_Ok
        [OF assms(1) out [unfolded eq pair fst_conv snd_conv]] by simp_all
    have "unat redeem * unat t \<le> unat coll * unat t" using le by (rule mult_le_mono1)
    also note t(2)
    finally have "unat redeem * unat t div unat cs \<le> unat cs * (unat net * 2 ^ 60) div unat cs"
      by (intro div_le_mono) (simp only: mult.assoc)
    also have "\<dots> = unat net * 2 ^ 60" using cs by simp
    finally have "unat redeem * unat t div unat cs div 2 ^ 60 \<le> unat net * 2 ^ 60 div 2 ^ 60"
      by (rule div_le_mono)
    then show "out \<le> net" by (simp add: l word_le_nat_alt)
  qed
  moreover from net fees have "unat net + unat a * unat (gc_protocol_deposit_fee_bps gc) div 10000
      + unat a * unat (wv_creator_deposit_fee_bps wv) div 10000 = unat a"
    by (simp add: sub_fees_Ok mul_bps_Ok)
  ultimately show ?thesis using acc coll by blast
qed

lemma klend_pre_accrue_idem:
  assumes "klend_pre_accrue E s1 slot ts = Ok s2"
  shows "klend_pre_accrue E s2 slot ts = Ok s2"
proof -
  obtain ac where ac: "klend_accrue_interest E s1 slot ts = Ok ac"
    and s2: "s2 = s1\<lparr> kl_borrowed_amount_sf := ak_borrowed_amount_sf ac,
      kl_accumulated_protocol_fees_sf := ak_accumulated_protocol_fees_sf ac,
      kl_pending_referrer_fees_sf := ak_pending_referrer_fees_sf ac,
      kl_accumulated_referrer_fees_sf := ak_accumulated_referrer_fees_sf ac,
      kl_last_update_slot := slot, kl_last_update_timestamp := clamp_timestamp ts \<rparr>"
    using assms by (auto simp: klend_pre_accrue_def)
  obtain d where "accrual_duration_since (kl_interest_rate_basis s1) (kl_last_update_slot s1)
      (kl_last_update_timestamp s1) slot ts = Ok d"
    using ac by (auto simp: klend_accrue_interest_def)
  then obtain d' where "accrual_duration_since (kl_interest_rate_basis s1) slot
      (clamp_timestamp ts) slot ts = Ok d'" "accrual_duration_is_zero d'"
    by (auto simp: accrual_duration_since_def accrual_duration_is_zero_def saturating_sub_def
        Let_def split: if_splits)
  then have "klend_accrue_interest E s2 slot ts = Ok \<lparr> ak_borrowed_amount_sf = kl_borrowed_amount_sf s2,
      ak_accumulated_protocol_fees_sf = kl_accumulated_protocol_fees_sf s2,
      ak_pending_referrer_fees_sf = kl_pending_referrer_fees_sf s2,
      ak_accumulated_referrer_fees_sf = kl_accumulated_referrer_fees_sf s2 \<rparr>"
    by (simp add: klend_accrue_interest_def s2)
  then show ?thesis by (simp add: klend_pre_accrue_def s2)
qed

text \<open>
  C35. A Klend refresh charges interest once: after a successful \<open>update\<close>, accruing the stored
  reserve to the stored slot and time again returns it unchanged, on both interest bases.
\<close>

theorem klend_refresh_accrues_once:
  assumes "klend_update E self wv cache = (self', Ok ())"
  shows "klend_pre_accrue E (kb_state self') (kb_current_slot self') (kb_unix_timestamp self')
    = Ok (kb_state self')"
proof -
  obtain s1 s2 slot ts where "klend_pre_accrue E s1 slot ts = Ok s2"
    "self' = \<lparr> kb_state = s2, kb_current_slot = slot, kb_unix_timestamp = ts \<rparr>"
    using assms by (auto simp: klend_update_def klend_run_def Let_def split: prod.splits)
  then show ?thesis by (simp add: klend_pre_accrue_idem)
qed

lemma klend_decode_no_panic [no_panic]: "klend_decode data \<noteq> Panic"
  unfolding klend_decode_def KLEND_RESERVE_LEN_def Let_def
  by (intro if_no_panic and_then_no_panic' Err_no_panic Ok_no_panic read_no_panic ok_or_no_panic
      withdrawal_caps_decode_no_panic map_outcome_no_panic; simp)

section \<open>The borrow-rate curve is total and bounded\<close>

abbreviation curve_util :: "bytes \<Rightarrow> nat \<Rightarrow> u32" where
  "curve_util curve i \<equiv> from_le_bytes (field curve (i * 8) 4)"

abbreviation curve_rate :: "bytes \<Rightarrow> nat \<Rightarrow> u32" where
  "curve_rate curve i \<equiv> from_le_bytes (field curve (i * 8 + 4) 4)"

lemma curve_point_eq:
  "length curve = 88 \<Longrightarrow> i < 11 \<Longrightarrow> curve_point curve i = Ok (curve_util curve i, curve_rate curve i)"
  by (simp add: curve_point_def POINT_SIZE_def slice_def get_slice_def Let_def)

text \<open>The arithmetic of one interpolation, over the bits (\<open>p\<close>, \<open>q\<close>: utilization in basis points).\<close>

lemma interpolation_bounds:
  fixes u p q :: nat
  assumes ub: "b = (u * 10000 + 2 ^ 59) div 2 ^ 60" and "p < b" "b < q"
  shows "p * 2 ^ 60 div 10000 \<le> u"
    and "(u - p * 2 ^ 60 div 10000) * 10000 \<le> (q - p) * 2 ^ 60"
proof -
  have "b * 2 ^ 60 \<le> u * 10000 + 2 ^ 59" unfolding ub by (rule div_times_less_eq_dividend)
  moreover have "u * 10000 + 2 ^ 59 < (b + 1) * 2 ^ 60"
    unfolding ub by (simp add: dividend_less_times_div [of "2 ^ 60", simplified])
  moreover have "(p + 1) * 2 ^ 60 \<le> b * 2 ^ 60" "(b + 1) * 2 ^ 60 \<le> q * 2 ^ 60"
    using assms(2,3) by simp_all
  ultimately have lo: "p * 2 ^ 60 + 2 ^ 59 \<le> u * 10000" and hi: "u * 10000 + 2 ^ 59 < q * 2 ^ 60"
    by (simp_all add: algebra_simps)
  have floor: "p * 2 ^ 60 < (p * 2 ^ 60 div 10000) * 10000 + 10000"
    "(p * 2 ^ 60 div 10000) * 10000 \<le> p * 2 ^ 60" by linarith+
  from lo floor show le: "p * 2 ^ 60 div 10000 \<le> u" by linarith
  have "(10000 :: nat) \<le> 2 ^ 59" by simp
  then have "u * 10000 - (p * 2 ^ 60 div 10000) * 10000 \<le> q * 2 ^ 60 - p * 2 ^ 60"
    using hi floor by linarith
  then show "(u - p * 2 ^ 60 div 10000) * 10000 \<le> (q - p) * 2 ^ 60"
    by (simp only: diff_mult_distrib)
qed

lemma interpolated_rate_bound:
  fixes c s d r cr :: nat
  assumes "c * 10000 \<le> d * 2 ^ 60" "0 < d" "s = cr - r"
  shows "(c * s div d + r * 2 ^ 60 div 10000) * 10000 \<le> max r cr * 2 ^ 60"
proof -
  have "c * s div d * d * 10000 \<le> c * s * 10000" by simp
  also have "\<dots> \<le> d * 2 ^ 60 * s" using mult_le_mono1 [OF assms(1), of s] by (simp add: mult.commute mult.left_commute)
  finally have "(c * s div d * 10000) * d \<le> (2 ^ 60 * s) * d" by (simp only: ac_simps)
  then have "c * s div d * 10000 \<le> 2 ^ 60 * s" using assms(2) by simp
  moreover have "r * 2 ^ 60 div 10000 * 10000 \<le> r * 2 ^ 60" by (rule div_times_less_eq_dividend)
  moreover have "2 ^ 60 * s + r * 2 ^ 60 = max r cr * 2 ^ 60" using assms(3) by (auto simp: max_def)
  ultimately show ?thesis by (simp only: add_mult_distrib)
qed

context frac_laws
begin

lemma from_num_small: "n < 2 ^ 68 \<Longrightarrow> unat x = n \<Longrightarrow> \<exists>w. fr_from_num E x = Some (Fraction w) \<and> unat w = n * 2 ^ 60"
proof -
  assume n: "n < 2 ^ 68" "unat x = n"
  then have "n * 2 ^ 60 < 2 ^ 128" by simp
  then obtain w :: u128 where "unat w = n * 2 ^ 60"
    using obtain_word [where 'a = 128, of "n * 2 ^ 60"] by auto
  with n from_num [of w x] show ?thesis by auto
qed

lemma bps_to_fraction_eq:
  "\<exists>w. klend_bps_to_fraction E b = Ok (Fraction w) \<and> unat w = unat b * 2 ^ 60 div 10000"
proof -
  have "unat b < 2 ^ 68" using unat_lt_32 [of b] by simp
  from from_num_small [OF this, of "ucast b"] obtain w where
      w: "fr_from_num E (ucast b) = Some (Fraction w)" "unat w = unat b * 2 ^ 60" by auto
  have "klend_bps_to_fraction E b = Ok (Fraction (w div 10000))"
    using div_int [of 10000 w] by (simp add: klend_bps_to_fraction_def w)
  moreover have "unat (w div 10000) = unat b * 2 ^ 60 div 10000" by (simp add: unat_div w)
  ultimately show ?thesis by blast
qed

lemma curve_interpolation:
  assumes util: "unat u \<le> 2 ^ 60" "unat b = (unat u * 10000 + 2 ^ 59) div 2 ^ 60"
    and between: "p < b" "b < q"
  shows "\<exists>w. and_then (plain_sub (overflow_checks E) q p) (\<lambda>slope_denom.
      and_then (klend_bps_to_fraction E p) (\<lambda>start_util_f.
      and_then (f_sub E (Fraction u) start_util_f) (\<lambda>coef.
      and_then (f_mul_int E coef (ucast (saturating_sub cr r))) (\<lambda>nom.
      and_then (f_div_int E nom (ucast slope_denom)) (\<lambda>base_rate.
      and_then (klend_bps_to_fraction E r) (\<lambda>offset. f_add E base_rate offset))))))
      = (Ok (Fraction w) :: ('b, fraction) outcome) \<and>
      unat w * 10000 \<le> max (unat r) (unat cr) * 2 ^ 60"
proof -
  have pq: "p \<le> q" "p \<noteq> q" using between by auto
  define d where "d = q - p"
  have d: "plain_sub (overflow_checks E) q p = (Ok d :: ('b, u32) outcome)" "unat d = unat q - unat p"
    "0 < unat d"
    using pq between by (simp_all add: plain_sub_def d_def unat_sub word_le_nat_alt word_less_nat_alt)
  have bounds: "unat p * 2 ^ 60 div 10000 \<le> unat u"
    "(unat u - unat p * 2 ^ 60 div 10000) * 10000 \<le> unat d * 2 ^ 60"
    using interpolation_bounds [OF util(2), of "unat p" "unat q"] between
    by (simp_all add: word_less_nat_alt d(2))
  obtain s where s: "klend_bps_to_fraction E p = (Ok (Fraction s) :: ('b, fraction) outcome)"
    "unat s = unat p * 2 ^ 60 div 10000" using bps_to_fraction_eq by blast
  define c where "c = u - s"
  have c: "unat c = unat u - unat s" "fr_sub E (Fraction u) (Fraction s) = Some (Fraction c)"
    using sub [of u s c] bounds(1) by (simp_all add: c_def unat_sub word_le_nat_alt s(2))
  define sl where "sl = saturating_sub cr r"
  have "unat c * unat sl \<le> 2 ^ 60 * 2 ^ 32"
    using util(1) c(1) unat_lt_32 [of sl] by (intro mult_le_mono) auto
  also have "\<dots> < 2 ^ 128" by simp
  finally obtain nom where nom: "fr_mul_int E (Fraction c) (ucast sl) = Some (Fraction nom)"
    "unat nom = unat c * unat sl"
    using obtain_word [where 'a = 128, of "unat c * unat sl"] mul_int [of _ c "ucast sl"] by auto
  have d0: "(ucast d :: u128) \<noteq> 0" using d(3) by (metis unat_0 unat_ucast_32_128 less_not_refl)
  obtain o1 where o1: "klend_bps_to_fraction E r = (Ok (Fraction o1) :: ('b, fraction) outcome)"
    "unat o1 = unat r * 2 ^ 60 div 10000" using bps_to_fraction_eq by blast
  have base: "unat (nom div ucast d) = unat c * unat sl div unat d" by (simp add: unat_div nom)
  have sum: "(unat (nom div ucast d) + unat o1) * 10000 \<le> max (unat r) (unat cr) * 2 ^ 60"
    unfolding base o1(2)
    by (rule interpolated_rate_bound)
      (use bounds(2) d(3) in \<open>simp_all add: c(1) s(2) sl_def unat_saturating_sub\<close>)
  also have "\<dots> < 2 ^ 32 * 2 ^ 60"
    using unat_lt_32 [of r] unat_lt_32 [of cr] by (intro mult_strict_right_mono) auto
  also have "(2 :: nat) ^ 32 * 2 ^ 60 < 2 ^ 128 * 10000" by simp
  finally have "unat (nom div ucast d) + unat o1 < 2 ^ 128" by (simp only: mult_less_cancel2)
  then obtain w :: u128 where w: "unat w = unat (nom div ucast d) + unat o1"
    using obtain_word [where 'a = 128, of "unat (nom div ucast d) + unat o1"] by auto
  from add [OF w] w show ?thesis
    using sum by (simp add: d(1) s(1) c(2) nom(1) div_int [OF d0] o1(1) flip: sl_def)
qed

lemma curve_loop_bound:
  assumes curve: "length curve = 88" and "set is \<subseteq> {..<11}"
    and util: "unat u \<le> 2 ^ 60" "unat b = (unat u * 10000 + 2 ^ 59) div 2 ^ 60"
  shows "\<exists>w. curve_loop E curve (Fraction u) b p r is = (Ok (Fraction w) :: ('b, fraction) outcome) \<and>
    (unat w * 10000 \<le> unat r * 2 ^ 60 \<or>
     (\<exists>i \<in> set is. unat w * 10000 \<le> unat (curve_rate curve i) * 2 ^ 60))"
  using assms(2)
proof (induction "is" arbitrary: p r)
  case Nil
  obtain w where "klend_bps_to_fraction E r = (Ok (Fraction w) :: ('b, fraction) outcome)"
    "unat w = unat r * 2 ^ 60 div 10000" using bps_to_fraction_eq by blast
  then show ?case by (auto intro!: exI [of _ w] div_times_less_eq_dividend)
next
  case (Cons i "is")
  let ?q = "curve_util curve i" and ?cr = "curve_rate curve i"
  have point: "curve_point curve i = (Ok (?q, ?cr) :: ('b, u32 \<times> u32) outcome)"
    using Cons.prems by (simp add: curve_point_eq curve)
  consider "b = ?q" | "b \<noteq> ?q" "p < b" "b < ?q" | "b \<noteq> ?q" "\<not> (p < b \<and> b < ?q)" by blast
  then show ?case
  proof cases
    case 1
    obtain w where "klend_bps_to_fraction E ?cr = (Ok (Fraction w) :: ('b, fraction) outcome)"
      "unat w = unat ?cr * 2 ^ 60 div 10000" using bps_to_fraction_eq by blast
    with 1 point show ?thesis
      by (auto intro!: exI [of _ w] div_times_less_eq_dividend)
  next
    case 2
    obtain w where w: "curve_loop E curve (Fraction u) b p r (i # is)
        = (Ok (Fraction w) :: ('b, fraction) outcome)"
      "unat w * 10000 \<le> max (unat r) (unat ?cr) * 2 ^ 60"
      using curve_interpolation [OF util 2(2,3), of ?cr r, where ?'b = 'b]
      by (simp only: curve_loop.simps point and_then.simps prod.case 2 if_False if_True Let_def
          simp_thms) blast
    then have "unat w * 10000 \<le> unat r * 2 ^ 60 \<or> unat w * 10000 \<le> unat ?cr * 2 ^ 60"
      unfolding max_def by presburger
    with w(1) show ?thesis by (meson list.set_intros(1))
  next
    case 3
    have "curve_loop E curve (Fraction u) b p r (i # is) =
        (curve_loop E curve (Fraction u) b ?q ?cr is :: ('b, fraction) outcome)"
      using 3 point by auto
    moreover from Cons obtain w where "curve_loop E curve (Fraction u) b ?q ?cr is
        = (Ok (Fraction w) :: ('b, fraction) outcome)"
      "unat w * 10000 \<le> unat ?cr * 2 ^ 60 \<or>
       (\<exists>j \<in> set is. unat w * 10000 \<le> unat (curve_rate curve j) * 2 ^ 60)" by force
    ultimately show ?thesis by (metis list.set_intros)
  qed
qed

lemma lookup_borrow_rate_bound:
  assumes curve: "length curve = 88"
  shows "\<exists>w. lookup_borrow_rate E curve f = (Ok (Fraction w) :: ('b, fraction) outcome) \<and>
    (\<exists>i < 11. unat w * 10000 \<le> unat (curve_rate curve i) * 2 ^ 60)"
proof -
  define g where "g = (if frac_one < f then frac_one else f)"
  obtain u where u: "g = Fraction u" by (cases g)
  have one: "unat (2 ^ 60 :: u128) = 2 ^ 60" by simp
  have le: "unat u \<le> 2 ^ 60"
    using u by (cases f) (auto simp: g_def less_fraction_unat not_less split: if_splits)
  obtain full where full: "fr_from_num E (ucast full_bps) = Some (Fraction full)"
    "unat full = 10000 * 2 ^ 60"
    using from_num_small [of 10000 "ucast full_bps"] by (auto simp: full_bps_def)
  have "unat u * 10000 \<le> 2 ^ 60 * 10000" using le by (rule mult_le_mono1)
  also have "\<dots> < 2 ^ 128" by simp
  finally obtain sc :: u128 where sc: "unat sc = unat u * 10000"
    using obtain_word [where 'a = 128, of "unat u * 10000"] by auto
  have mul: "fr_mul E (Fraction u) (Fraction full) = Some (Fraction sc)"
    by (rule mul) (simp add: sc full(2))
  define n where "n = (unat u * 10000 + 2 ^ 59) div 2 ^ 60"
  have n: "n \<le> 10000" using le unfolding n_def by simp
  then have "n * 2 ^ 60 < 2 ^ 128" by simp
  then obtain rd :: u128 where rd: "unat rd = n * 2 ^ 60"
    using obtain_word [where 'a = 128, of "n * 2 ^ 60"] by auto
  have round: "fr_round E (Fraction sc) = Some (Fraction rd)"
    by (rule round) (simp add: rd sc n_def)
  obtain b :: u32 where b: "unat b = n"
    using n obtain_word [where 'a = 32, of n] by auto
  have to_u32: "fr_to_u32 E (Fraction rd) = Some b" by (rule to_u32) (simp add: rd b)
  have min: "min b full_bps = b"
    using n by (simp add: min_def full_bps_def word_le_nat_alt b)
  have point: "curve_point curve 0 = (Ok (curve_util curve 0, curve_rate curve 0) :: ('b, u32 \<times> u32) outcome)"
    using curve_point_eq [OF curve, of 0] by simp
  have lookup: "lookup_borrow_rate E curve f =
      (if b = curve_util curve 0 then klend_bps_to_fraction E (curve_rate curve 0)
       else curve_loop E curve (Fraction u) b (curve_util curve 0) (curve_rate curve 0) [1..<11]
       :: ('b, fraction) outcome)"
    unfolding lookup_borrow_rate_def Let_def g_def [symmetric] u
    by (simp only: full mul round to_u32 min point POINTS_IN_CURVE_def and_then.simps
        or_panic.simps prod.case)
  show ?thesis
  proof (cases "b = curve_util curve 0")
    case True
    obtain w where w: "klend_bps_to_fraction E (curve_rate curve 0) = (Ok (Fraction w) :: ('b, fraction) outcome)"
      "unat w = unat (curve_rate curve 0) * 2 ^ 60 div 10000" using bps_to_fraction_eq by blast
    have "unat w * 10000 \<le> unat (curve_rate curve 0) * 2 ^ 60"
      unfolding w(2) by (rule div_times_less_eq_dividend)
    moreover have "(0 :: nat) < 11" by simp
    ultimately have "\<exists>i < 11. unat w * 10000 \<le> unat (curve_rate curve i) * 2 ^ 60" by blast
    with True w(1) show ?thesis unfolding lookup by metis
  next
    case False
    have "set [1..<11] \<subseteq> {..<11 :: nat}" by auto
    from curve_loop_bound [OF curve this le, of b "curve_util curve 0" "curve_rate curve 0", where ?'b = 'b]
    obtain w where w: "curve_loop E curve (Fraction u) b (curve_util curve 0) (curve_rate curve 0) [1..<11]
        = (Ok (Fraction w) :: ('b, fraction) outcome)"
      "unat w * 10000 \<le> unat (curve_rate curve 0) * 2 ^ 60 \<or>
       (\<exists>i \<in> set [1..<11]. unat w * 10000 \<le> unat (curve_rate curve i) * 2 ^ 60)"
      by (auto simp: b n_def)
    moreover have "\<exists>i < 11. unat w * 10000 \<le> unat (curve_rate curve i) * 2 ^ 60"
      using w(2)
    proof
      assume "unat w * 10000 \<le> unat (curve_rate curve 0) * 2 ^ 60"
      moreover have "(0 :: nat) < 11" by simp
      ultimately show ?thesis by blast
    qed auto
    ultimately show ?thesis using False by (auto simp: lookup simp del: upt_rec_numeral)
  qed
qed

end

text \<open>
  The borrow-rate lookup is total on every stored curve, whatever its points (sorted or not) and
  whatever the utilization: it returns a rate, without panic, and never one above the highest of the
  eleven points.
\<close>

theorem klend_borrow_rate_bounded:
  assumes "frac_laws E" "length curve = 88"
  shows "\<exists>w. lookup_borrow_rate E curve u = (Ok (Fraction w) :: ('e, fraction) outcome) \<and>
    (\<exists>i < 11. unat w * 10000 \<le> unat (from_le_bytes (field curve (i * 8 + 4) 4) :: u32) * 2 ^ 60)"
  using frac_laws.lookup_borrow_rate_bound [OF assms] .

section \<open>Concrete reserves\<close>

definition klend_sample :: klend_state where
  "klend_sample = klend_state_default\<lparr> kl_version := 1, kl_total_available_amount := 1000000,
     kl_collateral_mint_total_supply := 500000, kl_deposit_limit := 1000000000000,
     kl_last_update_slot := 5, kl_borrow_rate_curve := replicate 88 7 \<rparr>"

lemmas klend_eval = klend_quote_deposit_def klend_quote_withdraw_def klend_accrue_interest_def
  accrual_duration_since_def accrual_duration_is_zero_def INTEREST_RATE_BASIS_LEGACY_def
  total_supply_fraction_def total_supply_core_def PROGRAM_VERSION_def exchange_rate_pair_def
  klend_liquidity_to_collateral_def collateral_to_liquidity_ceil_def frac_floor_u64_def
  klend_collateral_to_liquidity_def big_from_num_def big_checked_shl_def big_checked_div_def
  big_from_fraction_def big_try_into_fraction_def FRACTION_BITS_SHIFT_def less_fraction_unat

lemma klend_sample_deposit:
  "klend_quote_deposit std_crates klend_sample 5 0 vault_sample config_sample 100000 = Ok 99800"
  by (simp add: klend_eval arith_eval klend_sample_def klend_state_default_def vault_sample_def
      config_sample_def)

definition klend_vault_sample :: wrapper_vault where
  "klend_vault_sample = vault_sample\<lparr> wv_wrapper_supply := 5000, wv_intermediate_held := 4000 \<rparr>"

lemma klend_live_deposit:
  "klend_quote_deposit std_crates klend_sample 5 0 klend_vault_sample config_sample 100000 = Ok 62375"
  by (simp add: klend_eval arith_eval klend_sample_def klend_state_default_def vault_sample_def
      klend_vault_sample_def config_sample_def)

lemma klend_live_withdraw:
  "klend_quote_withdraw std_crates klend_sample 5 0 (deposited klend_vault_sample 62375 49900) 62375
    = Ok 99800"
  by (simp add: klend_eval arith_eval klend_sample_def klend_state_default_def vault_sample_def
      klend_vault_sample_def deposited_def remaining_amount_def withdrawal_caps_default_def
      clamp_timestamp_def unat_minus_one)

lemma klend_live_collateral:
  assumes "klend_accrue_interest std_crates klend_sample 5 0 = Ok ac"
    and "total_supply_fraction std_crates klend_sample ac = (Ok tsf :: fraction vres)"
    and "unat net + 200 = 100000"
    and "klend_liquidity_to_collateral std_crates net
      (fst (exchange_rate_pair (kl_collateral_mint_total_supply klend_sample) tsf))
      (snd (exchange_rate_pair (kl_collateral_mint_total_supply klend_sample) tsf)) = Ok c"
  shows "net = 99800 \<and> c = 49900"
proof -
  have net: "net = 99800"
    by (rule word_unat_eq_iff [THEN iffD2]) (use assms(3) in simp)
  have "tsf = Fraction (1000000 * 2 ^ 60)"
    using assms(1,2) by (auto simp: klend_eval arith_eval klend_sample_def klend_state_default_def)
  with assms(4) net show ?thesis
    by (simp add: klend_eval arith_eval klend_sample_def klend_state_default_def)
qed

lemma klend_round_trip_witness:
  "\<exists>net out. klend_quote_withdraw std_crates klend_sample 5 0
      (deposited klend_vault_sample 62375 49900) 62375 = Ok out \<and> net = 99800 \<and> out \<le> net"
proof -
  from klend_round_trip [OF std_num.num_laws_axioms klend_live_deposit] obtain ac tsf net c where
      c: "klend_accrue_interest std_crates klend_sample 5 0 = Ok ac"
        "total_supply_fraction std_crates klend_sample ac = (Ok tsf :: fraction vres)"
        "unat net + 200 = 100000"
        "klend_liquidity_to_collateral std_crates net
          (fst (exchange_rate_pair (kl_collateral_mint_total_supply klend_sample) tsf))
          (snd (exchange_rate_pair (kl_collateral_mint_total_supply klend_sample) tsf)) = Ok c"
    and all: "\<forall>out. klend_quote_withdraw std_crates klend_sample 5 0
        (deposited klend_vault_sample 62375 c) 62375 = Ok out \<longrightarrow> out \<le> net"
    by (auto simp: klend_vault_sample_def vault_sample_def config_sample_def)
  from klend_live_collateral [OF c] all klend_live_withdraw show ?thesis by blast
qed

lemma klend_ceil_within_deposit_witness:
  "(10 :: u64) \<le> 11 \<and> collateral_to_liquidity_ceil std_crates 3 3 (Fraction (10 * 2 ^ 60)) = Ok 10"
proof -
  have coll: "klend_liquidity_to_collateral std_crates 11 3 (Fraction (10 * 2 ^ 60)) = Ok 3"
    by (simp add: klend_eval arith_eval)
  have ceil: "collateral_to_liquidity_ceil std_crates 3 3 (Fraction (10 * 2 ^ 60)) = Ok 10"
    by (simp add: klend_eval arith_eval)
  from klend_ceil_within_deposit [OF std_num.num_laws_axioms coll ceil] ceil show ?thesis by simp
qed

definition klend_cache_sample :: accounts_cache where
  "klend_cache_sample =
     (let reserve = \<lparr> acc_data = KLEND_RESERVE_DISCRIMINATOR @ replicate 8616 0,
                       acc_owner = pubkey_default \<rparr>;
          clock = \<lparr> acc_data = replicate 40 0, acc_owner = pubkey_default \<rparr>
      in \<lparr> get_account = (\<lambda>k. Ok None), get_accounts = (\<lambda>ks. Ok [Some reserve, Some clock]) \<rparr>)"

lemma klend_refresh_accrues_once_witness:
  "\<exists>self'. klend_update std_crates klend_new vault_sample klend_cache_sample = (self', Ok ()) \<and>
    is_ok (klend_pre_accrue std_crates (kb_state self') (kb_current_slot self')
      (kb_unix_timestamp self'))"
proof -
  have "\<exists>self'. klend_update std_crates klend_new vault_sample klend_cache_sample = (self', Ok ())"
    by (simp add: klend_update_def klend_run_def klend_cache_sample_def try_two_def klend_decode_def
        KLEND_RESERVE_LEN_def KLEND_RESERVE_DISCRIMINATOR_def read_eqs slice_def index_at_def
        clock_field_def get_slice_def try_array_def withdrawal_caps_decode_def WITHDRAWAL_CAPS_LEN_def
        le_u64_at_def BORROW_RATE_CURVE_LEN_def
        klend_pre_accrue_def klend_accrue_interest_def accrual_duration_since_def
        INTEREST_RATE_BASIS_LEGACY_def accrual_duration_is_zero_def saturating_sub_def Let_def
        upt_conv_Cons)
  then obtain self' where
      u: "klend_update std_crates klend_new vault_sample klend_cache_sample = (self', Ok ())"
    by blast
  with klend_refresh_accrues_once [OF u] show ?thesis by auto
qed

lemma klend_borrow_rate_bounded_witness:
  "\<exists>w. lookup_borrow_rate std_crates (replicate 88 0) frac_one = (Ok (Fraction w) :: fraction vres)"
  using klend_borrow_rate_bounded [OF std_frac.frac_laws_axioms, of "replicate 88 0" frac_one, where 'e = tv_error]
  by auto

text \<open>
  A Klend quote is not panic free: where the accrued protocol fees exceed what the reserve holds
  and lends, and the fixed-point subtraction traps (its documented behaviour when overflow checks are
  on), the quote panics instead of returning an error.
\<close>

theorem klend_quote_can_panic:
  "klend_quote_deposit std_crates (klend_sample\<lparr> kl_accumulated_protocol_fees_sf := 2 ^ 120 \<rparr>) 5 0
     vault_sample config_sample 100000 = Panic"
  by (simp add: klend_eval arith_eval klend_sample_def klend_state_default_def)

end
