(* ===== verification/Kvault.thy ===== *)
theory Kvault
  imports Klend
begin

text \<open>
  The Kvault backend, \<open>src/src/your_venue/kvault/\<close>: the vault state, its allocations over Klend
  reserves, the farm state and their decoders (\<open>state.rs\<close>), the assets under management and the two
  quotes (\<open>math.rs\<close>), the refresh over all the accounts it needs (\<open>update.rs\<close>), the account lists
  (\<open>account_metas.rs\<close>) and the backend (\<open>mod.rs\<close>).
\<close>

section \<open>The vault state (\<open>state.rs\<close>)\<close>

definition VAULT_STATE_LEN :: nat where "VAULT_STATE_LEN = 62552"
definition MAX_RESERVES :: nat where "MAX_RESERVES = 25"
definition VAULT_ALLOCATION_SIZE :: nat where "VAULT_ALLOCATION_SIZE = 2160"
definition OFF_VAULT_ALLOCATION_STRATEGY :: nat where "OFF_VAULT_ALLOCATION_STRATEGY = 312"
definition VAULT_STATE_DISCRIMINATOR :: bytes where
  "VAULT_STATE_DISCRIMINATOR = [228, 196, 82, 165, 98, 210, 235, 152]"
definition KVAULT_GLOBAL_CONFIG_LEN :: nat where "KVAULT_GLOBAL_CONFIG_LEN = 1032"
definition FARM_MIN_LEN :: nat where "FARM_MIN_LEN = 7568"

record active_allocation =
  al_reserve :: pubkey
  al_ctoken_vault :: pubkey
  al_target_allocation_weight :: u64
  al_token_allocation_cap :: u64
  al_ctoken_allocation :: u64
  al_slot_index :: nat

record farm_state_minimal =
  fs_farm_vault :: pubkey
  fs_farm_vaults_authority :: pubkey
  fs_scope_prices :: "pubkey option"
  fs_total_active_stake_scaled :: u128
  fs_total_staked_amount :: u64

record kvault_state =
  kv_token_mint :: pubkey
  kv_token_mint_decimals :: u8
  kv_token_vault :: pubkey
  kv_shares_mint :: pubkey
  kv_base_vault_authority :: pubkey
  kv_token_available :: u64
  kv_shares_issued :: u64
  kv_crank_fund_fee_per_reserve :: u64
  kv_performance_fee_bps :: u64
  kv_management_fee_bps :: u64
  kv_last_fee_charge_timestamp :: u64
  kv_prev_aum_sf :: u128
  kv_pending_fees_sf :: u128
  kv_min_deposit_amount :: u64
  kv_min_withdraw_amount :: u64
  kv_vault_withdrawal_penalty_lamports :: u64
  kv_vault_withdrawal_penalty_bps :: u64
  kv_active_allocations :: "active_allocation list"
  kv_global_withdrawal_penalty_lamports :: u64
  kv_global_withdrawal_penalty_bps :: u64
  kv_cached_reserves :: "(pubkey \<times> klend_state) list"
  kv_cached_farm_state :: "farm_state_minimal option"
  kv_underlying_token_program :: pubkey
  kv_position_kvault_shares :: u128
  kv_cached_aum_sf :: "u128 option"
  kv_cached_max_deposit :: u64
  kv_deposit_cap :: u64

definition kvault_state_default :: "crates \<Rightarrow> kvault_state" where
  "kvault_state_default E =
     \<lparr> kv_token_mint = pubkey_default,
       kv_token_mint_decimals = 0,
       kv_token_vault = pubkey_default,
       kv_shares_mint = pubkey_default,
       kv_base_vault_authority = pubkey_default,
       kv_token_available = 0,
       kv_shares_issued = 0,
       kv_crank_fund_fee_per_reserve = 0,
       kv_performance_fee_bps = 0,
       kv_management_fee_bps = 0,
       kv_last_fee_charge_timestamp = 0,
       kv_prev_aum_sf = 0,
       kv_pending_fees_sf = 0,
       kv_min_deposit_amount = 0,
       kv_min_withdraw_amount = 0,
       kv_vault_withdrawal_penalty_lamports = 0,
       kv_vault_withdrawal_penalty_bps = 0,
       kv_active_allocations = [],
       kv_global_withdrawal_penalty_lamports = 0,
       kv_global_withdrawal_penalty_bps = 0,
       kv_cached_reserves = [],
       kv_cached_farm_state = None,
       kv_underlying_token_program = SPL_TOKEN_PROGRAM_ID E,
       kv_position_kvault_shares = 0,
       kv_cached_aum_sf = None,
       kv_cached_max_deposit = u64_max,
       kv_deposit_cap = 0 \<rparr>"

text \<open>The loop over the allocation slots: empty slots are skipped.\<close>

fun kvault_decode_allocations :: "bytes \<Rightarrow> nat list \<Rightarrow> active_allocation list vres" where
  "kvault_decode_allocations data [] = Ok []"
| "kvault_decode_allocations data (i # is) =
     (let base = OFF_VAULT_ALLOCATION_STRATEGY + i * VAULT_ALLOCATION_SIZE
      in and_then (read_pubkey data base ''kvault.allocation.reserve'') (\<lambda>reserve.
         if reserve = pubkey_default then kvault_decode_allocations data is
         else
           and_then (read_pubkey data (base + 32) ''kvault.allocation.ctoken_vault'')
             (\<lambda>ctoken_vault.
           and_then (read_u64 data (base + 64) ''kvault.allocation.target_weight'')
             (\<lambda>target_allocation_weight.
           and_then (read_u64 data (base + 72) ''kvault.allocation.token_cap'')
             (\<lambda>token_allocation_cap.
           and_then (read_u64 data (base + 1104) ''kvault.allocation.ctoken_allocation'')
             (\<lambda>ctoken_allocation.
           and_then (kvault_decode_allocations data is) (\<lambda>rest.
           Ok (\<lparr> al_reserve = reserve, al_ctoken_vault = ctoken_vault,
                 al_target_allocation_weight = target_allocation_weight,
                 al_token_allocation_cap = token_allocation_cap,
                 al_ctoken_allocation = ctoken_allocation, al_slot_index = i \<rparr> # rest))))))))"

definition kvault_decode :: "crates \<Rightarrow> bytes \<Rightarrow> kvault_state vres" where
  "kvault_decode E data =
     (if length data < VAULT_STATE_LEN then Err (deser_err ''kvault state: length'')
      else and_then (slice data 0 8) (\<lambda>disc.
      if disc \<noteq> VAULT_STATE_DISCRIMINATOR then Err (deser_err ''kvault state: discriminator'')
      else
        and_then (read_pubkey data 80 ''kvault.token_mint'') (\<lambda>token_mint.
        and_then (read_u64 data 112 ''kvault.token_mint_decimals'')
          (\<lambda>token_mint_decimals_u64.
        let token_mint_decimals = ucast token_mint_decimals_u64 in
        and_then (read_pubkey data 120 ''kvault.token_vault'') (\<lambda>token_vault.
        and_then (read_pubkey data 184 ''kvault.shares_mint'') (\<lambda>shares_mint.
        and_then (read_pubkey data 40 ''kvault.base_vault_authority'') (\<lambda>base_vault_authority.
        and_then (read_u64 data 224 ''kvault.token_available'') (\<lambda>token_available.
        and_then (read_u64 data 232 ''kvault.shares_issued'') (\<lambda>shares_issued.
        and_then (read_u64 data 58440 ''kvault.crank_fund_fee'') (\<lambda>crank_fund_fee_per_reserve.
        and_then (read_u64 data 256 ''kvault.performance_fee_bps'') (\<lambda>performance_fee_bps.
        and_then (read_u64 data 264 ''kvault.management_fee_bps'') (\<lambda>management_fee_bps.
        and_then (read_u64 data 272 ''kvault.last_fee_charge_timestamp'') (\<lambda>last_fee_charge_timestamp.
        and_then (read_u128 data 280 ''kvault.prev_aum_sf'') (\<lambda>prev_aum_sf.
        and_then (read_u128 data 296 ''kvault.pending_fees_sf'') (\<lambda>pending_fees_sf.
        and_then (read_u64 data 58408 ''kvault.min_deposit_amount'') (\<lambda>min_deposit_amount.
        and_then (read_u64 data 58416 ''kvault.min_withdraw_amount'') (\<lambda>min_withdraw_amount.
        and_then (read_u64 data 58680 ''kvault.withdrawal_penalty_lamports'') (\<lambda>vault_withdrawal_penalty_lamports.
        and_then (read_u64 data 58688 ''kvault.withdrawal_penalty_bps'') (\<lambda>vault_withdrawal_penalty_bps.
        and_then (read_u64 data 58736 ''kvault.deposit_cap'') (\<lambda>deposit_cap.
        and_then (kvault_decode_allocations data [0..<MAX_RESERVES]) (\<lambda>active_allocations.
        Ok \<lparr> kv_token_mint = token_mint,
             kv_token_mint_decimals = token_mint_decimals,
             kv_token_vault = token_vault,
             kv_shares_mint = shares_mint,
             kv_base_vault_authority = base_vault_authority,
             kv_token_available = token_available,
             kv_shares_issued = shares_issued,
             kv_crank_fund_fee_per_reserve = crank_fund_fee_per_reserve,
             kv_performance_fee_bps = performance_fee_bps,
             kv_management_fee_bps = management_fee_bps,
             kv_last_fee_charge_timestamp = last_fee_charge_timestamp,
             kv_prev_aum_sf = prev_aum_sf,
             kv_pending_fees_sf = pending_fees_sf,
             kv_min_deposit_amount = min_deposit_amount,
             kv_min_withdraw_amount = min_withdraw_amount,
             kv_vault_withdrawal_penalty_lamports = vault_withdrawal_penalty_lamports,
             kv_vault_withdrawal_penalty_bps = vault_withdrawal_penalty_bps,
             kv_active_allocations = active_allocations,
             kv_global_withdrawal_penalty_lamports = 0,
             kv_global_withdrawal_penalty_bps = 0,
             kv_cached_reserves = [],
             kv_cached_farm_state = None,
             kv_underlying_token_program = SPL_TOKEN_PROGRAM_ID E,
             kv_position_kvault_shares = 0,
             kv_cached_aum_sf = None,
             kv_cached_max_deposit = u64_max,
             kv_deposit_cap = deposit_cap \<rparr>)))))))))))))))))))))"

definition decode_farm_state_minimal :: "bytes \<Rightarrow> farm_state_minimal vres" where
  "decode_farm_state_minimal data =
     (if length data < FARM_MIN_LEN then Err (deser_err ''kfarms FarmState: length'')
      else
        and_then (read_pubkey data 7256 ''kfarms.farm_vault'') (\<lambda>farm_vault.
        and_then (read_pubkey data 7288 ''kfarms.farm_vaults_authority'') (\<lambda>farm_vaults_authority.
        and_then (read_pubkey data 7536 ''kfarms.scope_prices'') (\<lambda>scope_raw.
        let scope_prices = (if scope_raw = pubkey_default then None else Some scope_raw)
        in and_then (read_u128 data 7408 ''kfarms.total_active_stake_scaled'')
             (\<lambda>total_active_stake_scaled.
           and_then (read_u64 data 7248 ''kfarms.total_staked_amount'') (\<lambda>total_staked_amount.
           Ok \<lparr> fs_farm_vault = farm_vault, fs_farm_vaults_authority = farm_vaults_authority,
                fs_scope_prices = scope_prices,
                fs_total_active_stake_scaled = total_active_stake_scaled,
                fs_total_staked_amount = total_staked_amount \<rparr>))))))"

definition convert_stake_to_amount :: "crates \<Rightarrow> u128 \<Rightarrow> u128 \<Rightarrow> u64 \<Rightarrow> u64 vres" where
  "convert_stake_to_amount E stake_scaled total_stake_scaled total_amount =
     (let wad = 1000000000000000000 :: u128
      in if stake_scaled = 0 then Ok 0
         else if total_stake_scaled = 0 then Ok total_amount
         else
           and_then
             (ok_or
                (case u256_checked_mul E (u256_of stake_scaled) (u256_of wad) of
                   None \<Rightarrow> None
                 | Some x \<Rightarrow>
                     (case u256_checked_mul E x (u256_of total_amount) of
                        None \<Rightarrow> None
                      | Some n \<Rightarrow> u256_checked_div E n (u256_of total_stake_scaled)))
                (math_err ''farm convert'')) (\<lambda>result_scaled.
           and_then (or_panic (u256_sub E (u256_shl E 1 192) 1)) (\<lambda>max_u192.
           if max_u192 < result_scaled then Err (math_err ''farm convert u192'')
           else
             and_then (ok_or (u256_checked_div E result_scaled (u256_of wad))
                         (math_err ''farm convert wad'')) (\<lambda>amount.
             if u256_of u64_max < amount then Err (math_err ''farm convert u64'')
             else Ok (u256_low_u64 amount)))))"

definition decode_global_config_penalty :: "bytes \<Rightarrow> (u64 \<times> u64) vres" where
  "decode_global_config_penalty data =
     (if length data < KVAULT_GLOBAL_CONFIG_LEN
      then Err (deser_err ''kvault global_config: length'')
      else
        and_then (read_u64 data 72 ''kvault_gc.withdrawal_penalty_lamports'') (\<lambda>lamports.
        and_then (read_u64 data 80 ''kvault_gc.withdrawal_penalty_bps'') (\<lambda>bps.
        Ok (lamports, bps))))"

definition kvault_prev_aum :: "kvault_state \<Rightarrow> fraction" where
  "kvault_prev_aum st = Fraction (kv_prev_aum_sf st)"

definition kvault_pending_fees :: "kvault_state \<Rightarrow> fraction" where
  "kvault_pending_fees st = Fraction (kv_pending_fees_sf st)"

definition effective_penalty_lamports :: "kvault_state \<Rightarrow> u64" where
  "effective_penalty_lamports st =
     max (kv_vault_withdrawal_penalty_lamports st) (kv_global_withdrawal_penalty_lamports st)"

definition effective_penalty_bps :: "kvault_state \<Rightarrow> u64" where
  "effective_penalty_bps st =
     max (kv_vault_withdrawal_penalty_bps st) (kv_global_withdrawal_penalty_bps st)"

section \<open>Assets under management (\<open>math.rs\<close>)\<close>

definition KVAULT_SECONDS_PER_YEAR :: u128 where "KVAULT_SECONDS_PER_YEAR = 31556926"

text \<open>\<open>cached_reserves.iter().find(|(k, _)| *k == key).map(|(_, r)| r)\<close>.\<close>

definition find_reserve :: "kvault_state \<Rightarrow> pubkey \<Rightarrow> klend_state option" where
  "find_reserve st key = map_of (kv_cached_reserves st) key"

text \<open>\<open>iter().max_by_key(f)\<close>: the last of the elements with the largest key.\<close>

fun max_by_key :: "('a \<Rightarrow> 'b::linorder) \<Rightarrow> 'a list \<Rightarrow> 'a option" where
  "max_by_key f [] = None"
| "max_by_key f (x # xs) =
     (case max_by_key f xs of
        None \<Rightarrow> Some x
      | Some y \<Rightarrow> if f x \<le> f y then Some y else Some x)"

definition kvault_bps_to_fraction :: "crates \<Rightarrow> u64 \<Rightarrow> fraction vres" where
  "kvault_bps_to_fraction E bps =
     and_then (f_from_num E (ucast bps)) (\<lambda>n.
     and_then (f_from_num E (ucast full_bps)) (\<lambda>d. f_div E n d))"

definition fraction_full_mul_int_ratio ::
    "crates \<Rightarrow> fraction \<Rightarrow> u64 \<Rightarrow> u64 \<Rightarrow> fraction vres" where
  "fraction_full_mul_int_ratio E f mult divisor =
     (if divisor = 0 then Err (math_err ''div=0'')
      else
        and_then (ok_or (u256_checked_mul E (u256_of (to_bits f)) (u256_of mult))
                    (math_err ''ratio mul'')) (\<lambda>lhs.
        and_then (or_panic (u256_div E lhs (u256_of divisor))) (\<lambda>quot.
        and_then (ok_or (u256_try_u128 quot) (math_err ''ratio convert'')) (\<lambda>bits.
        Ok (Fraction bits)))))"

definition invested_for_allocation ::
    "crates \<Rightarrow> kvault_state \<Rightarrow> u64 \<Rightarrow> i64 \<Rightarrow> active_allocation \<Rightarrow> fraction vres" where
  "invested_for_allocation E state current_slot unix_timestamp alloc =
     and_then (ok_or (find_reserve state (al_reserve alloc)) (math_err ''reserve not cached''))
       (\<lambda>reserve.
     and_then (klend_accrue_interest E reserve current_slot unix_timestamp) (\<lambda>accrued.
     and_then (total_supply_fraction E reserve accrued) (\<lambda>total_supply.
     let (cs, ts) = exchange_rate_pair (kl_collateral_mint_total_supply reserve) total_supply
     in fraction_collateral_to_liquidity E (al_ctoken_allocation alloc) cs ts)))"

definition invested_total :: "crates \<Rightarrow> kvault_state \<Rightarrow> u64 \<Rightarrow> i64 \<Rightarrow> fraction vres" where
  "invested_total E state current_slot unix_timestamp =
     fold_outcome (\<lambda>total alloc.
         and_then (invested_for_allocation E state current_slot unix_timestamp alloc)
           (\<lambda>invested. f_add E total invested))
       frac_zero (kv_active_allocations state)"

definition charged_pending_fees ::
    "crates \<Rightarrow> kvault_state \<Rightarrow> i64 \<Rightarrow> fraction \<Rightarrow> fraction vres" where
  "charged_pending_fees E state unix_timestamp invested =
     (if kv_last_fee_charge_timestamp state = 0 then Ok (kvault_pending_fees state)
      else
        let now = clamp_timestamp unix_timestamp;
            seconds_passed = saturating_sub now (kv_last_fee_charge_timestamp state)
        in and_then
             (and_then (f_from_num E (ucast (kv_token_available state))) (\<lambda>avail.
              and_then (f_add E avail invested) (\<lambda>holdings.
              if holdings < kvault_pending_fees state then Ok frac_zero
              else f_sub E holdings (kvault_pending_fees state)))) (\<lambda>new_aum_preview.
           and_then
             (if seconds_passed = 0 \<or> kv_management_fee_bps state = 0 then Ok frac_zero
              else
                and_then (kvault_bps_to_fraction E (kv_management_fee_bps state))
                  (\<lambda>mgmt_fee_yearly.
                and_then (f_from_num E (ucast seconds_passed)) (\<lambda>secs.
                and_then (f_mul E mgmt_fee_yearly secs) (\<lambda>scaled.
                and_then (f_from_num E KVAULT_SECONDS_PER_YEAR) (\<lambda>year.
                and_then (f_div E scaled year) (\<lambda>mgmt_fee.
                f_mul E (kvault_prev_aum state) mgmt_fee)))))) (\<lambda>mgmt_charge.
           and_then
             (if kvault_prev_aum state < new_aum_preview
              then f_sub E new_aum_preview (kvault_prev_aum state)
              else Ok frac_zero) (\<lambda>earned_interest.
           and_then
             (if kv_performance_fee_bps state = 0 then Ok frac_zero
              else
                and_then (kvault_bps_to_fraction E (kv_performance_fee_bps state)) (\<lambda>rate.
                f_mul E rate earned_interest)) (\<lambda>perf_charge.
           and_then (f_add E mgmt_charge perf_charge) (\<lambda>sum.
           let new_fees = (if new_aum_preview < sum then new_aum_preview else sum)
           in f_add E (kvault_pending_fees state) new_fees))))))"

definition compute_current_aum ::
    "crates \<Rightarrow> kvault_state \<Rightarrow> u64 \<Rightarrow> i64 \<Rightarrow> fraction vres" where
  "compute_current_aum E state current_slot unix_timestamp =
     and_then (invested_total E state current_slot unix_timestamp) (\<lambda>invested.
     and_then (f_from_num E (ucast (kv_token_available state))) (\<lambda>available.
     and_then (f_add E available invested) (\<lambda>holdings_total.
     and_then (charged_pending_fees E state unix_timestamp invested) (\<lambda>pending_fees_after_charge.
     if holdings_total < pending_fees_after_charge then Err (math_err ''aum below fees'')
     else f_sub E holdings_total pending_fees_after_charge))))"

definition current_aum :: "crates \<Rightarrow> kvault_state \<Rightarrow> u64 \<Rightarrow> i64 \<Rightarrow> fraction vres" where
  "current_aum E state current_slot unix_timestamp =
     (case kv_cached_aum_sf state of
        Some bits \<Rightarrow> Ok (Fraction bits)
      | None \<Rightarrow> compute_current_aum E state current_slot unix_timestamp)"

text \<open>\<open>u128_to_u64(aum.ceil().to_num())\<close>.\<close>

definition frac_ceil_u64 :: "crates \<Rightarrow> fraction \<Rightarrow> u64 vres" where
  "frac_ceil_u64 E f =
     and_then (or_panic (fr_ceil E f)) (\<lambda>ceiled. u128_to_u64 (fr_to_u128 E ceiled))"

definition get_shares_to_mint :: "crates \<Rightarrow> fraction \<Rightarrow> u64 \<Rightarrow> u64 \<Rightarrow> u64 vres" where
  "get_shares_to_mint E aum user_amount shares_issued =
     (if shares_issued = 0 then Ok user_amount
      else if aum = frac_zero then Err (math_err ''aum=0 shares>0'')
      else
        and_then (frac_ceil_u64 E aum) (\<lambda>aum_ceil_u64.
        if aum_ceil_u64 = 0 then Err (math_err ''aum_ceil=0'')
        else
          and_then (f_from_num E (ucast shares_issued)) (\<lambda>issued.
          and_then (fraction_full_mul_int_ratio E issued user_amount aum_ceil_u64)
            (frac_floor_u64 E))))"

section \<open>Quotes (\<open>math.rs\<close>)\<close>

definition kvault_quote_deposit ::
    "crates \<Rightarrow> kvault_state \<Rightarrow> u64 \<Rightarrow> i64 \<Rightarrow> wrapper_vault \<Rightarrow> global_config \<Rightarrow> u64 \<Rightarrow> u64 vres" where
  "kvault_quote_deposit E state current_slot unix_timestamp wv gc amount =
     (if amount = 0 then Err (math_err ''zero amount'')
      else
        and_then (mul_bps amount (gc_protocol_deposit_fee_bps gc)) (\<lambda>protocol_fee.
        and_then (mul_bps amount (wv_creator_deposit_fee_bps wv)) (\<lambda>creator_fee.
        and_then (sub_total_fee ''fee sum'' amount protocol_fee creator_fee) (\<lambda>net_amount.
        if net_amount = 0 then Err (math_err ''net zero'')
        else
          let num_reserves = of_nat (length (filter
                (\<lambda>a. 0 < al_target_allocation_weight a \<and> 0 < al_token_allocation_cap a)
                (kv_active_allocations state)))
          in and_then (ok_or (checked_mul num_reserves (kv_crank_fund_fee_per_reserve state))
                         (math_err ''crank funds'')) (\<lambda>crank_funds.
             and_then (ok_or (checked_sub net_amount crank_funds) (math_err ''max_user_tokens''))
               (\<lambda>max_user_tokens.
             if max_user_tokens < kv_min_deposit_amount state
             then Err (math_err ''below min deposit'')
             else if kv_cached_max_deposit state < max_user_tokens
             then Err (math_err ''deposit exceeds reserve capacity'')
             else
               and_then (current_aum E state current_slot unix_timestamp) (\<lambda>aum.
               and_then (get_shares_to_mint E aum max_user_tokens (kv_shares_issued state))
                 (\<lambda>kvault_shares_to_mint.
               if kvault_shares_to_mint = 0 then Err (math_err ''shares to mint zero'')
               else
                 and_then (pro_rata_mint ''intermediate=0'' ''wrap calc'' ''wrap calc''
                             (wv_wrapper_supply wv) (kv_position_kvault_shares state) net_amount
                             kvault_shares_to_mint) (\<lambda>wrapper_to_mint.
                 if wrapper_to_mint = 0 then Err (math_err ''mint zero'')
                 else
                   and_then (settle_deposit E ''new shares total''
                               (kv_position_kvault_shares state) (wv_intermediate_held wv)
                               (ucast kvault_shares_to_mint) (wv_wrapper_supply wv)
                               wrapper_to_mint) (\<lambda>_.
                   Ok wrapper_to_mint))))))))))"

text \<open>What a withdrawal beyond the idle tokens takes out of the largest allocation.\<close>

definition kvault_disinvest ::
    "crates \<Rightarrow> kvault_state \<Rightarrow> u64 \<Rightarrow> i64 \<Rightarrow> u64 \<Rightarrow> u64 \<Rightarrow> u64 vres" where
  "kvault_disinvest E state current_slot unix_timestamp total_for_user available_to_send =
     and_then (ok_or (checked_sub total_for_user available_to_send) (math_err ''disinvest sub''))
       (\<lambda>to_disinvest.
     and_then (ok_or (max_by_key al_ctoken_allocation (kv_active_allocations state))
                 (math_err ''no active allocations'')) (\<lambda>primary.
     and_then (ok_or (find_reserve state (al_reserve primary))
                 (math_err ''primary reserve not cached'')) (\<lambda>reserve.
     and_then (klend_accrue_interest E reserve current_slot unix_timestamp) (\<lambda>accrued.
     and_then (total_supply_fraction E reserve accrued) (\<lambda>total_supply.
     let (cs, ts) = exchange_rate_pair (kl_collateral_mint_total_supply reserve) total_supply
     in and_then (fraction_collateral_to_liquidity E (al_ctoken_allocation primary) cs ts)
          (\<lambda>in_reserve_liq_f.
        and_then (f_from_num E (ucast to_disinvest)) (\<lambda>to_disinvest_f.
        let send_f = min in_reserve_liq_f to_disinvest_f
        in if send_f = frac_zero then Ok available_to_send
           else
             and_then (or_panic (fr_floor E send_f)) (\<lambda>floored.
             and_then (or_panic (fr_to_u64 E floored)) (\<lambda>send_floor.
             and_then (fraction_liquidity_to_collateral_ceil E send_floor cs ts) (\<lambda>needed.
             let disinvest_ctokens = min needed (al_ctoken_allocation primary)
             in and_then (fraction_collateral_to_liquidity E disinvest_ctokens cs ts)
                  (\<lambda>disinvest_liq_f.
                let rounding_err =
                      (if frac_zero < fr_frac E disinvest_liq_f
                          \<and> fr_frac E send_f < fr_frac E disinvest_liq_f then 1 else 0);
                    actual = saturating_sub send_floor rounding_err
                in ok_or (checked_add available_to_send actual)
                     (math_err ''disinvest add''))))))))))))"

definition kvault_quote_withdraw ::
    "crates \<Rightarrow> kvault_state \<Rightarrow> u64 \<Rightarrow> i64 \<Rightarrow> wrapper_vault \<Rightarrow> u64 \<Rightarrow> u64 vres" where
  "kvault_quote_withdraw E state current_slot unix_timestamp wv amount =
     (if amount = 0 then Err (math_err ''zero amount'')
      else if wv_wrapper_supply wv < amount then Err (math_err ''burn exceeds supply'')
      else if kv_position_kvault_shares state = 0 then Err (math_err ''intermediate=0'')
      else
        and_then (pro_rata_redeem ''redeem calc'' ''redeem calc'' amount
                    (kv_position_kvault_shares state) (wv_wrapper_supply wv)) (\<lambda>shares_to_redeem.
        if shares_to_redeem = 0 then Err (math_err ''redeem zero'')
        else
          and_then (current_aum E state current_slot unix_timestamp) (\<lambda>aum.
          if aum = frac_zero then Err (math_err ''aum=0'')
          else
            and_then
              (if shares_to_redeem = kv_shares_issued state then frac_floor_u64 E aum
               else
                 and_then (fraction_full_mul_int_ratio E aum shares_to_redeem
                             (kv_shares_issued state)) (frac_floor_u64 E)) (\<lambda>total_with_penalty.
            if total_with_penalty = 0 then Err (math_err ''total zero'')
            else
              let penalty_bps = effective_penalty_bps state;
                  penalty_lamports = effective_penalty_lamports state
              in and_then (ok_or (checked_mul (ucast total_with_penalty :: u128)
                                    (ucast penalty_bps)) (math_err ''penalty bps mul''))
                   (\<lambda>bps_prod.
                 and_then (plain_div_ceil bps_prod (ucast full_bps)) (\<lambda>penalty_quot.
                 and_then (u128_to_u64 penalty_quot) (\<lambda>penalty_from_bps_ceil.
                 let penalty = max penalty_from_bps_ceil penalty_lamports
                 in if total_with_penalty \<le> penalty then Err (math_err ''penalty >= total'')
                    else
                      and_then (ok_or (checked_sub total_with_penalty penalty)
                                  (math_err ''penalty sub'')) (\<lambda>total_for_user.
                      if total_for_user = 0 then Err (math_err ''user total zero'')
                      else
                        let available_to_send = min (kv_token_available state) total_for_user
                        in and_then
                             (if total_for_user \<le> available_to_send then Ok total_for_user
                              else kvault_disinvest E state current_slot unix_timestamp
                                     total_for_user available_to_send) (\<lambda>final_for_user.
                           if final_for_user = 0 then Err (math_err ''final zero'')
                           else if final_for_user \<le> kv_min_withdraw_amount state
                           then Err (math_err ''below min withdraw'')
                           else
                             and_then (settle_withdraw E ''new shares total''
                                         (kv_position_kvault_shares state)
                                         (wv_intermediate_held wv) (ucast shares_to_redeem)
                                         (wv_wrapper_supply wv) amount) (\<lambda>_.
                             Ok final_for_user))))))))))"

section \<open>The refresh (\<open>update.rs\<close>)\<close>

definition FARMS_PROGRAM_ID :: "crates \<Rightarrow> pubkey" where
  "FARMS_PROGRAM_ID E = from_str_const E ''FarmsPZpWu9i7Kky8tPN37rs2TpmMrAZrC7S7vJa91Hr''"

definition KVAULT_PROGRAM_ID :: "crates \<Rightarrow> pubkey" where
  "KVAULT_PROGRAM_ID E = from_str_const E ''KvauGMspG5k6rtzrqqn7WNn3oZdyKqLKwK2XWQ8FLjd''"

definition FARMS_USER_ACTIVE_STAKE_SCALED_OFFSET :: nat where
  "FARMS_USER_ACTIVE_STAKE_SCALED_OFFSET = 408"
definition FARMS_USER_STATE_LEN :: nat where "FARMS_USER_STATE_LEN = 920"
definition SPL_TOKEN_AMOUNT_OFFSET :: nat where "SPL_TOKEN_AMOUNT_OFFSET = 64"
definition MAX_QUOTE_DEPOSIT :: u64 where "MAX_QUOTE_DEPOSIT = u64_max div 32"
definition GLOBAL_CONFIG_SEED :: bytes where "GLOBAL_CONFIG_SEED = byte_str ''global_config''"
definition PD_OFF_USE_FARMS :: nat where "PD_OFF_USE_FARMS = 48"
definition PD_OFF_UNDERLYING_TOKEN_KIND :: nat where "PD_OFF_UNDERLYING_TOKEN_KIND = 49"

text \<open>The farm flag of the vault's protocol data (an array of 200 bytes in the source).\<close>

definition use_farms :: "wrapper_vault \<Rightarrow> bool" where
  "use_farms wv \<longleftrightarrow> wv_protocol_data wv ! PD_OFF_USE_FARMS \<noteq> 0"

definition kvault_required_pubkeys ::
    "crates \<Rightarrow> kvault_state \<Rightarrow> wrapper_vault \<Rightarrow> pubkey list vres" where
  "kvault_required_pubkeys E state wv =
     and_then (find_pda E [GLOBAL_CONFIG_SEED] (KVAULT_PROGRAM_ID E)) (\<lambda>kvault_global_config.
     Ok ([wv_source_pool wv, kvault_global_config, CLOCK_SYSVAR_ID E]
         @ map al_reserve (kv_active_allocations state)
         @ (if use_farms wv then [wv_source_position_pda wv] else [])))"

text \<open>\<open>iter.next().flatten()\<close>: the next fetched account and the rest of the iterator.\<close>

fun next_flatten :: "account option list \<Rightarrow> account option \<times> account option list" where
  "next_flatten [] = (None, [])"
| "next_flatten (a # as) = (a, as)"

text \<open>
  The loop over the new allocations: the fetched reserve where there is one, else the reserve cached
  before (\<open>prev\<close>), else nothing. It returns the reserves and the rest of the iterator.
\<close>

fun collect_reserves ::
    "kvault_state \<Rightarrow> active_allocation list \<Rightarrow> account option list
      \<Rightarrow> ((pubkey \<times> klend_state) list \<times> account option list) vres" where
  "collect_reserves prev [] iter = Ok ([], iter)"
| "collect_reserves prev (alloc # allocs) iter =
     (case next_flatten iter of
        (Some reserve_acct, iter') \<Rightarrow>
          and_then (klend_decode (acc_data reserve_acct)) (\<lambda>decoded.
          and_then (collect_reserves prev allocs iter') (\<lambda>(rest, iter'').
          Ok ((al_reserve alloc, decoded) # rest, iter'')))
      | (None, iter') \<Rightarrow>
          (case find_reserve prev (al_reserve alloc) of
             Some r \<Rightarrow>
               and_then (collect_reserves prev allocs iter') (\<lambda>(rest, iter'').
               Ok ((al_reserve alloc, r) # rest, iter''))
           | None \<Rightarrow> collect_reserves prev allocs iter'))"

text \<open>The share position: idle shares and, through a farm, staked ones.\<close>

definition kvault_position ::
    "crates \<Rightarrow> wrapper_vault \<Rightarrow> accounts_cache \<Rightarrow> farm_state_minimal option \<Rightarrow> u128 vres" where
  "kvault_position E wv cache cached_farm_state =
     (if use_farms wv then
        and_then (find_pda E [byte_str ''authority'', wv_wrapper_mint wv] (OVERPASS_PROGRAM_ID E))
          (\<lambda>vault_authority.
        and_then (read_pubkey (wv_protocol_data wv) 0 ''kvault.pd.share_mint'')
          (\<lambda>kvault_share_mint.
        and_then (derive_ata E vault_authority kvault_share_mint (SPL_TOKEN_PROGRAM_ID E))
          (\<lambda>vault_shares_ata.
        and_then (find_pda E [byte_str ''user'', wv_source_position_pda wv, vault_authority]
                    (FARMS_PROGRAM_ID E)) (\<lambda>farms_user_state.
        and_then (get_accounts cache [vault_shares_ata, farms_user_state]) (\<lambda>accts.
        let (idle_opt, it1) = next_flatten accts
        in and_then
             (case idle_opt of
                Some a \<Rightarrow> read_u64 (acc_data a) SPL_TOKEN_AMOUNT_OFFSET ''shares_ata.amount''
              | None \<Rightarrow> Ok 0) (\<lambda>idle.
           and_then
             (case fst (next_flatten it1) of
                Some a \<Rightarrow>
                  if acc_owner a = FARMS_PROGRAM_ID E
                     \<and> FARMS_USER_STATE_LEN \<le> length (acc_data a)
                  then read_u128 (acc_data a) FARMS_USER_ACTIVE_STAKE_SCALED_OFFSET
                         ''farms_user.active_stake_scaled''
                  else Ok 0
              | None \<Rightarrow> Ok 0) (\<lambda>user_stake_scaled.
           and_then (ok_or cached_farm_state
                       (math_err ''kvault: use_farms but FarmState not cached'')) (\<lambda>fm.
           and_then (convert_stake_to_amount E user_stake_scaled
                       (fs_total_active_stake_scaled fm) (fs_total_staked_amount fm)) (\<lambda>farm_kt.
           ok_or (checked_add (ucast idle) (ucast farm_kt)) (math_err ''position sum''))))))))))
      else Ok (wv_intermediate_held wv))"

text \<open>\<open>f.ceil().to_num::<u128>().min(u64::MAX as u128) as u64\<close>.\<close>

definition frac_ceil_saturating :: "crates \<Rightarrow> fraction \<Rightarrow> u64 vres" where
  "frac_ceil_saturating E f =
     and_then (or_panic (fr_ceil E f)) (\<lambda>ceiled.
     Ok (ucast (min (fr_to_u128 E ceiled) (ucast u64_max))))"

definition kvault_max_deposit :: "crates \<Rightarrow> u64 \<Rightarrow> fraction option \<Rightarrow> u64 vres" where
  "kvault_max_deposit E deposit_cap aum =
     and_then
       (if deposit_cap = 0 then Ok u64_max
        else
          and_then
            (case aum of Some f \<Rightarrow> frac_ceil_saturating E f | None \<Rightarrow> Ok u64_max) (\<lambda>aum_ceil.
          Ok (saturating_sub deposit_cap aum_ceil))) (\<lambda>protocol_cap.
     Ok (min protocol_cap MAX_QUOTE_DEPOSIT))"

text \<open>
  The part of \<open>run\<close> after the clock has been stored, up to \<open>*state = new_state\<close>: reserves, farm,
  position, token program, assets under management and deposit cap of the new state.
\<close>

definition kvault_assemble ::
    "crates \<Rightarrow> wrapper_vault \<Rightarrow> accounts_cache \<Rightarrow> kvault_state \<Rightarrow> kvault_state
      \<Rightarrow> account option list \<Rightarrow> u64 \<Rightarrow> i64 \<Rightarrow> kvault_state vres" where
  "kvault_assemble E wv cache state new_state iter current_slot unix_timestamp =
     and_then (collect_reserves state (kv_active_allocations new_state) iter)
       (\<lambda>(cached_reserves, iter2).
     and_then (map_outcome (\<lambda>(k, r).
                   and_then (klend_pre_accrue E r current_slot unix_timestamp) (\<lambda>r'. Ok (k, r')))
                 cached_reserves) (\<lambda>accrued_reserves.
     and_then
       (if use_farms wv then
          (case fst (next_flatten iter2) of
             Some fs_acct \<Rightarrow>
               and_then (decode_farm_state_minimal (acc_data fs_acct)) (\<lambda>fs. Ok (Some fs))
           | None \<Rightarrow> Ok (kv_cached_farm_state state))
        else Ok (kv_cached_farm_state new_state)) (\<lambda>farm.
     and_then (kvault_position E wv cache farm) (\<lambda>position.
     let underlying_token_program =
           (if wv_protocol_data wv ! PD_OFF_UNDERLYING_TOKEN_KIND = 1
            then TOKEN_2022_PROGRAM_ID E else SPL_TOKEN_PROGRAM_ID E);
         s1 = new_state\<lparr> kv_cached_reserves := accrued_reserves, kv_cached_farm_state := farm,
                kv_position_kvault_shares := position,
                kv_underlying_token_program := underlying_token_program \<rparr>
     in and_then (ok (compute_current_aum E s1 current_slot unix_timestamp)) (\<lambda>aum.
        and_then (kvault_max_deposit E (kv_deposit_cap s1) aum) (\<lambda>max_deposit.
        Ok (s1\<lparr> kv_cached_aum_sf := map_option to_bits aum,
                kv_cached_max_deposit := max_deposit \<rparr>)))))))"

definition kvault_run ::
    "crates \<Rightarrow> wrapper_vault \<Rightarrow> accounts_cache \<Rightarrow> kvault_state \<Rightarrow> u64 \<Rightarrow> i64 \<Rightarrow>
      (kvault_state \<times> u64 \<times> i64) \<times> unit vres" where
  "kvault_run E wv cache state current_slot unix_timestamp =
     (let st0 = (state, current_slot, unix_timestamp)
      in or_stop (get_account cache (wv_source_pool wv)) st0 (\<lambda>vault_opt.
         or_stop (ok_or vault_opt (NoAccountFound (EPubkey (wv_source_pool wv)))) st0
           (\<lambda>vault_acct.
         or_stop (kvault_decode E (acc_data vault_acct)) st0 (\<lambda>n0.
         let n1 = n0\<lparr> kv_global_withdrawal_penalty_lamports :=
                          kv_global_withdrawal_penalty_lamports state,
                      kv_global_withdrawal_penalty_bps := kv_global_withdrawal_penalty_bps state \<rparr>
         in or_stop (find_pda E [GLOBAL_CONFIG_SEED] (KVAULT_PROGRAM_ID E)) st0
              (\<lambda>kvault_global_config.
            let to_fetch = [kvault_global_config, CLOCK_SYSVAR_ID E]
                  @ map al_reserve (kv_active_allocations n1)
                  @ (if use_farms wv then [wv_source_position_pda wv] else [])
            in or_stop (get_accounts cache to_fetch) st0 (\<lambda>fetched.
               let (gc_opt, iter1) = next_flatten fetched;
                   (clock_opt, iter2) = next_flatten iter1
               in or_stop
                    (case gc_opt of
                       Some gc_acct \<Rightarrow>
                         and_then (decode_global_config_penalty (acc_data gc_acct))
                           (\<lambda>(lamports, bps).
                         Ok (n1\<lparr> kv_global_withdrawal_penalty_lamports := lamports,
                                 kv_global_withdrawal_penalty_bps := bps \<rparr>))
                     | None \<Rightarrow> Ok n1) st0 (\<lambda>n2.
                  or_stop (ok_or clock_opt (NoAccountFound (EPubkey (CLOCK_SYSVAR_ID E)))) st0
                    (\<lambda>clock_acct.
                  or_stop (clock_field (acc_data clock_acct) 0 8 ''clock.slot'') st0 (\<lambda>slot.
                  or_stop (clock_field (acc_data clock_acct) 32 40 ''clock.unix_timestamp'')
                    (state, slot, unix_timestamp) (\<lambda>ts.
                  or_stop (kvault_assemble E wv cache state n2 iter2 slot ts) (state, slot, ts)
                    (\<lambda>new_state.
                  ((new_state, slot, ts), Ok ()))))))))))))"

section \<open>Account lists (\<open>account_metas.rs\<close>)\<close>

definition kvault_build ::
    "crates \<Rightarrow> kvault_state \<Rightarrow> wrapper_vault \<Rightarrow> pubkey \<Rightarrow> direction \<Rightarrow> account_meta list vres" where
  "kvault_build E state wv user dir =
     (let farms = use_farms wv;
          wrapper_mint = wv_wrapper_mint wv;
          underlying_mint = wv_underlying_mint wv;
          overpass = OVERPASS_PROGRAM_ID E;
          kvault_id = KVAULT_PROGRAM_ID E;
          farms_id = FARMS_PROGRAM_ID E;
          spl = SPL_TOKEN_PROGRAM_ID E
      in and_then (read_pubkey (wv_protocol_data wv) 0 ''kvault.protocol_data.share_mint'')
           (\<lambda>kvault_share_mint.
         and_then (global_config_pda E overpass) (\<lambda>overpass_global_config.
         and_then (find_pda E [byte_str ''vault'', wrapper_mint] overpass) (\<lambda>wrapper_vault_pda.
         and_then (find_pda E [byte_str ''authority'', wrapper_mint] overpass) (\<lambda>vault_authority.
         and_then (find_pda E [GLOBAL_CONFIG_SEED] kvault_id) (\<lambda>kvault_global_config.
         and_then (find_pda E [byte_str ''__event_authority''] kvault_id)
           (\<lambda>kvault_event_authority.
         let underlying_token_program =
               resolve_token_program E (kv_underlying_token_program state)
         in and_then (derive_ata E vault_authority underlying_mint underlying_token_program)
              (\<lambda>vault_underlying_ata.
            and_then (derive_ata E vault_authority kvault_share_mint spl) (\<lambda>vault_shares_ata.
            and_then (derive_ata E user underlying_mint underlying_token_program)
              (\<lambda>user_underlying_ata.
            and_then (derive_ata E user wrapper_mint spl) (\<lambda>user_wrapper_ata.
            let farm_state_key = (if farms then wv_source_position_pda wv else farms_id)
            in and_then
                 (if farms
                  then find_pda E [byte_str ''user'', farm_state_key, vault_authority] farms_id
                  else Ok farms_id) (\<lambda>farms_user_state.
               and_then
                 (if farms then
                    and_then (ok_or (kv_cached_farm_state state)
                                (math_err ''kvault: use_farms but FarmState not cached'')) (\<lambda>fs.
                    Ok (fs_farm_vault fs,
                        (case fs_scope_prices fs of Some k \<Rightarrow> k | None \<Rightarrow> farms_id),
                        fs_farm_vaults_authority fs))
                  else Ok (farms_id, farms_id, farms_id))
                 (\<lambda>(farms_farm_vault, farms_scope_prices, derived_farm_vaults_authority).
               and_then
                 (if dir = Withdraw then
                    and_then (ok_or (max_by_key al_ctoken_allocation (kv_active_allocations state))
                                (math_err ''no active allocations'')) (\<lambda>primary.
                    and_then (ok_or (find_reserve state (al_reserve primary))
                                (math_err ''primary reserve not cached'')) (\<lambda>primary_reserve.
                    and_then (find_pda E [byte_str ''lma'', kl_lending_market primary_reserve]
                                (KLEND_PROGRAM_ID E)) (\<lambda>primary_lending_market_authority.
                    Ok [meta_new (al_reserve primary) False,
                        meta_new (al_ctoken_vault primary) False,
                        meta_new_readonly (kl_lending_market primary_reserve) False,
                        meta_new_readonly primary_lending_market_authority False,
                        meta_new (kl_supply_vault primary_reserve) False,
                        meta_new (kl_collateral_mint_pubkey primary_reserve) False,
                        meta_new_readonly spl False,
                        meta_new_readonly (SYSVAR_INSTRUCTIONS_ID E) False])))
                  else Ok []) (\<lambda>withdraw_metas.
               and_then
                 (map_outcome (\<lambda>alloc.
                      and_then (ok_or (find_reserve state (al_reserve alloc))
                                  (math_err ''reserve not cached for ix'')) (\<lambda>cached.
                      Ok (meta_new_readonly (kl_lending_market cached) False)))
                    (kv_active_allocations state)) (\<lambda>market_metas.
               Ok ([meta_new user True,
                    meta_new_readonly overpass_global_config False,
                    meta_new wrapper_vault_pda False,
                    meta_new vault_authority False,
                    meta_new wrapper_mint False,
                    meta_new underlying_mint False,
                    meta_new kvault_share_mint False,
                    meta_new user_wrapper_ata False,
                    meta_new user_underlying_ata False,
                    meta_new vault_underlying_ata False,
                    meta_new vault_shares_ata False,
                    meta_new (wv_source_pool wv) False]
                   @ (if dir = Withdraw then [meta_new_readonly kvault_global_config False] else [])
                   @ [meta_new (kv_token_vault state) False,
                      meta_new_readonly (kv_base_vault_authority state) False,
                      meta_new_readonly kvault_event_authority False]
                   @ withdraw_metas
                   @ [meta_new_readonly (KLEND_PROGRAM_ID E) False,
                      meta_new_readonly kvault_id False,
                      meta_new_readonly farms_id False,
                      meta_new farms_user_state False,
                      meta_new farm_state_key False,
                      meta_new farms_farm_vault False]
                   @ (if dir = Withdraw
                      then [meta_new_readonly derived_farm_vaults_authority False] else [])
                   @ [meta_new_readonly farms_scope_prices False,
                      meta_new_readonly underlying_token_program False,
                      meta_new_readonly spl False,
                      meta_new_readonly spl False,
                      meta_new_readonly (ATA_PROGRAM_ID E) False,
                      meta_new_readonly (SYSTEM_PROGRAM_ID E) False]
                   @ map (\<lambda>alloc. meta_new (al_reserve alloc) False) (kv_active_allocations state)
                   @ market_metas))))))))))))))))"

definition kvault_build_deposit ::
    "crates \<Rightarrow> kvault_state \<Rightarrow> wrapper_vault \<Rightarrow> pubkey \<Rightarrow> account_meta list vres" where
  "kvault_build_deposit E state wv user = kvault_build E state wv user Deposit"

definition kvault_build_withdraw ::
    "crates \<Rightarrow> kvault_state \<Rightarrow> wrapper_vault \<Rightarrow> pubkey \<Rightarrow> account_meta list vres" where
  "kvault_build_withdraw E state wv user = kvault_build E state wv user Withdraw"

section \<open>The backend (\<open>mod.rs\<close>)\<close>

record kvault =
  vb_state :: kvault_state
  vb_current_slot :: u64
  vb_unix_timestamp :: i64

definition KVAULT_DEPOSIT_IX_DISCRIMINATOR :: bytes where
  "KVAULT_DEPOSIT_IX_DISCRIMINATOR = [0x9e, 0xa8, 0x14, 0xa4, 0x47, 0x9b, 0x1c, 0xa3]"

definition KVAULT_WITHDRAW_IX_DISCRIMINATOR :: bytes where
  "KVAULT_WITHDRAW_IX_DISCRIMINATOR = [0xe0, 0x69, 0xdf, 0xf4, 0xc5, 0xfa, 0x41, 0x3e]"

definition kvault_new :: "crates \<Rightarrow> kvault" where
  "kvault_new E =
     \<lparr> vb_state = kvault_state_default E, vb_current_slot = 0, vb_unix_timestamp = 0 \<rparr>"

definition kvault_update ::
    "crates \<Rightarrow> kvault \<Rightarrow> wrapper_vault \<Rightarrow> accounts_cache \<Rightarrow> kvault \<times> unit vres" where
  "kvault_update E self wv cache =
     (let ((s, slot, ts), res) =
        kvault_run E wv cache (vb_state self) (vb_current_slot self) (vb_unix_timestamp self)
      in (\<lparr> vb_state = s, vb_current_slot = slot, vb_unix_timestamp = ts \<rparr>, res))"

definition kvault_deposit_quote ::
    "crates \<Rightarrow> kvault \<Rightarrow> wrapper_vault \<Rightarrow> global_config \<Rightarrow> u64 \<Rightarrow> u64 vres" where
  "kvault_deposit_quote E self wv gc amount =
     kvault_quote_deposit E (vb_state self) (vb_current_slot self) (vb_unix_timestamp self)
       wv gc amount"

definition kvault_withdraw_quote :: "crates \<Rightarrow> kvault \<Rightarrow> wrapper_vault \<Rightarrow> u64 \<Rightarrow> u64 vres" where
  "kvault_withdraw_quote E self wv amount =
     kvault_quote_withdraw E (vb_state self) (vb_current_slot self) (vb_unix_timestamp self)
       wv amount"

definition kvault_build_deposit_ix ::
    "crates \<Rightarrow> kvault \<Rightarrow> wrapper_vault \<Rightarrow> pubkey \<Rightarrow> u64 \<Rightarrow> u64 \<Rightarrow> instruction vres" where
  "kvault_build_deposit_ix E self wv user in_amount min_out =
     and_then (kvault_build_deposit E (vb_state self) wv user) (\<lambda>accounts.
     Ok \<lparr> ix_program_id = OVERPASS_PROGRAM_ID E, ix_accounts = accounts,
          ix_data = KVAULT_DEPOSIT_IX_DISCRIMINATOR @ to_le_bytes 8 in_amount
            @ to_le_bytes 8 min_out \<rparr>)"

definition kvault_build_withdraw_ix ::
    "crates \<Rightarrow> kvault \<Rightarrow> wrapper_vault \<Rightarrow> pubkey \<Rightarrow> u64 \<Rightarrow> u64 \<Rightarrow> instruction vres" where
  "kvault_build_withdraw_ix E self wv user in_amount min_out =
     and_then (kvault_build_withdraw E (vb_state self) wv user) (\<lambda>accounts.
     Ok \<lparr> ix_program_id = OVERPASS_PROGRAM_ID E, ix_accounts = accounts,
          ix_data = KVAULT_WITHDRAW_IX_DISCRIMINATOR @ to_le_bytes 8 in_amount
            @ to_le_bytes 8 min_out \<rparr>)"

definition kvault_lookup_table_keys :: "crates \<Rightarrow> kvault \<Rightarrow> wrapper_vault \<Rightarrow> pubkey list" where
  "kvault_lookup_table_keys E self wv =
     (let state = vb_state self
      in [KVAULT_PROGRAM_ID E, KLEND_PROGRAM_ID E, FARMS_PROGRAM_ID E, wv_source_pool wv,
          kv_token_vault state, kv_base_vault_authority state]
         @ concat (map (\<lambda>alloc. [al_reserve alloc, al_ctoken_vault alloc])
             (kv_active_allocations state)))"

section \<open>Lemmas\<close>

lemma kvault_quote_depositE:
  assumes "kvault_quote_deposit E st slot ts wv gc a = Ok m"
  obtains pf cf net user aum shares where
    "a \<noteq> 0" "sub_total_fee ''fee sum'' a pf cf = Ok net" "net \<noteq> 0"
    "user \<le> net" "user \<le> kv_cached_max_deposit st"
    "current_aum E st slot ts = Ok aum"
    "get_shares_to_mint E aum user (kv_shares_issued st) = Ok shares" "shares \<noteq> 0"
    "pro_rata_mint ''intermediate=0'' ''wrap calc'' ''wrap calc'' (wv_wrapper_supply wv)
       (kv_position_kvault_shares st) net shares = Ok m" "m \<noteq> 0"
    "settle_deposit E ''new shares total'' (kv_position_kvault_shares st)
       (wv_intermediate_held wv) (ucast shares) (wv_wrapper_supply wv) m = Ok ()"
proof -
  have le: "checked_sub x y = Some z \<Longrightarrow> z \<le> x" for x y z :: u64
    by (simp add: checked_sub_Some word_le_nat_alt)
  show thesis
    using assms unfolding kvault_quote_deposit_def Let_def case_prod_unfold
    by (elim ok_elims) (rule that; (assumption | (erule le) | simp add: not_less))
qed

lemma kvault_quote_withdrawE:
  assumes "kvault_quote_withdraw E st slot ts wv a = Ok out"
  obtains shares aum total prod quot bps_penalty user where
    "a \<noteq> 0" "a \<le> wv_wrapper_supply wv" "kv_position_kvault_shares st \<noteq> 0"
    "pro_rata_redeem ''redeem calc'' ''redeem calc'' a (kv_position_kvault_shares st)
       (wv_wrapper_supply wv) = Ok shares" "shares \<noteq> 0"
    "current_aum E st slot ts = Ok aum"
    "(if shares = kv_shares_issued st then frac_floor_u64 E aum
      else and_then (fraction_full_mul_int_ratio E aum shares (kv_shares_issued st))
        (frac_floor_u64 E)) = Ok total"
    "checked_mul (ucast total :: u128) (ucast (effective_penalty_bps st)) = Some prod"
    "plain_div_ceil prod (ucast full_bps) = (Ok quot :: u128 vres)"
    "u128_to_u64 quot = Ok bps_penalty"
    "checked_sub total (max bps_penalty (effective_penalty_lamports st)) = Some user"
    "(if user \<le> min (kv_token_available st) user then Ok user
      else kvault_disinvest E st slot ts user (min (kv_token_available st) user)) = Ok out"
    "out \<noteq> 0" "kv_min_withdraw_amount st < out"
    "settle_withdraw E ''new shares total'' (kv_position_kvault_shares st)
       (wv_intermediate_held wv) (ucast shares) (wv_wrapper_supply wv) a = Ok ()"
  using assms unfolding kvault_quote_withdraw_def Let_def
  by (elim ok_elims) (rule that; (assumption | simp add: not_less not_le))

lemma kvault_disinvestE:
  assumes "kvault_disinvest E st slot ts user avail = Ok out"
  obtains rest where "checked_sub user avail = Some rest" "out = avail"
  | rest invested rest_f floored sent actual where "checked_sub user avail = Some rest"
      "fr_from_num E (ucast rest) = Some rest_f" "fr_floor E (min invested rest_f) = Some floored"
      "fr_to_u64 E floored = Some sent" "actual \<le> sent" "checked_add avail actual = Some out"
proof -
  have le: "actual = saturating_sub s r \<Longrightarrow> actual \<le> s" for actual s r :: u64 by simp
  show thesis
    using assms unfolding kvault_disinvest_def Let_def case_prod_unfold
    apply (elim ok_elims)
    apply (split if_split_asm)
     apply (elim ok_elims)
     apply (rule that(1); simp)
    apply (elim ok_elims)
    apply (rule that(2); (assumption | rule saturating_sub_le))
    done
qed

context num_laws
begin

lemma fraction_full_mul_int_ratio_Ok:
  "fraction_full_mul_int_ratio E f n d = Ok g \<Longrightarrow>
     d \<noteq> 0 \<and> unat (to_bits g) = unat (to_bits f) * unat n div unat d"
  by (auto simp: fraction_full_mul_int_ratio_def chk_mul div checked_mul_Some checked_div_Some
      u256_try_u128_Some split: if_splits)

lemma frac_ceil_u64_Ok:
  assumes "frac_ceil_u64 E f = Ok r" "unat (to_bits f) < 2 ^ 127"
  shows "unat r = (unat (to_bits f) + 2 ^ 60 - 1) div 2 ^ 60"
proof -
  obtain a where f: "f = Fraction a" by (cases f)
  have "(unat a + 2 ^ 60 - 1) div 2 ^ 60 * 2 ^ 60 \<le> unat a + 2 ^ 60 - 1"
    by (rule div_times_less_eq_dividend)
  also have "\<dots> < 2 ^ 128" using assms(2) f by simp
  finally obtain w :: u128 where w: "unat w = (unat a + 2 ^ 60 - 1) div 2 ^ 60 * 2 ^ 60"
    using obtain_word [where 'a = 128, of "(unat a + 2 ^ 60 - 1) div 2 ^ 60 * 2 ^ 60"] by auto
  with assms(1) show ?thesis
    by (simp add: frac_ceil_u64_def f fr.ceil [OF w] fr.to_u128 u128_to_u64_Ok unat_div)
qed

lemma get_shares_to_mint_le:
  assumes mint: "get_shares_to_mint E aum n issued = Ok s" and issued: "issued \<noteq> 0"
    and aum: "unat (to_bits aum) < 2 ^ 127"
  shows "unat s * unat (to_bits aum) \<le> unat issued * unat n * 2 ^ 60"
proof -
  obtain i :: u128 where i: "unat i = unat issued * 2 ^ 60"
    using obtain_word [where 'a = 128, of "unat issued * 2 ^ 60"] u64_le_max [of issued] by auto
  have from_num: "fr_from_num E (ucast issued) = Some (Fraction i)"
    by (rule fr.from_num) (simp add: i)
  obtain c g where c: "frac_ceil_u64 E aum = Ok c"
    and g: "fraction_full_mul_int_ratio E (Fraction i) n c = Ok g" "frac_floor_u64 E g = Ok s"
    using mint issued from_num by (auto simp: get_shares_to_mint_def split: if_splits)
  have cc: "unat c = (unat (to_bits aum) + 2 ^ 60 - 1) div 2 ^ 60"
    by (rule frac_ceil_u64_Ok [OF c aum])
  have le: "unat (to_bits aum) \<le> unat c * 2 ^ 60"
    unfolding cc using dividend_less_div_times [of "2 ^ 60" "unat (to_bits aum) + 2 ^ 60 - 1"] by simp
  have s: "unat s = unat i * unat n div unat c div 2 ^ 60"
    using fraction_full_mul_int_ratio_Ok [OF g(1)] g(2) by (cases g) (simp add: frac_floor_u64_Ok)
  have "unat s * 2 ^ 60 * unat c \<le> unat i * unat n div unat c * unat c"
    unfolding s by (intro mult_le_mono1) simp
  also have "\<dots> \<le> unat i * unat n" by simp
  finally have "unat s * (unat c * 2 ^ 60) \<le> unat issued * unat n * 2 ^ 60"
    by (simp only: i ac_simps)
  with mult_le_mono2 [OF le, of "unat s"] show ?thesis by (rule order.trans)
qed

lemma kvault_disinvest_le:
  assumes "kvault_disinvest E st slot ts user avail = Ok out"
  shows "out \<le> user"
  using assms
proof (cases rule: kvault_disinvestE)
  case (1 rest)
  then show ?thesis by (simp add: checked_sub_Some word_le_nat_alt)
next
  case (2 rest invested rest_f floored sent actual)
  obtain r :: u128 where r: "unat r = unat rest * 2 ^ 60"
    using obtain_word [where 'a = 128, of "unat rest * 2 ^ 60"] u64_le_max [of rest] by auto
  have rest_f: "rest_f = Fraction r" using 2(2) fr.from_num [of r "ucast rest"] r by simp
  obtain b where b: "min invested rest_f = Fraction b" by (cases "min invested rest_f")
  have "Fraction b \<le> Fraction r" unfolding b [symmetric] rest_f by simp
  then have br: "unat b div 2 ^ 60 \<le> unat rest" using r by (simp add: le_fraction_unat)
  obtain f where f: "floored = Fraction f" "unat f = unat b div 2 ^ 60 * 2 ^ 60"
    using fr.floor_total [of b] 2(3) b by auto
  then have "unat f div 2 ^ 60 = unat b div 2 ^ 60" by simp
  moreover obtain q :: u64 where q: "unat q = unat b div 2 ^ 60"
    using obtain_word [where 'a = 64, of "unat b div 2 ^ 60"] br u64_le_max [of rest] by auto
  ultimately have "fr_to_u64 E floored = Some q" unfolding f(1) by (intro fr.to_u64) simp
  then have "unat sent \<le> unat rest" using 2(4) br q by simp
  then show ?thesis using 2(1,5,6)
    by (simp add: checked_sub_Some checked_add_Some word_le_nat_alt)
qed

end

lemma div_ceil_ge:
  assumes "plain_div_ceil p (ucast full_bps :: u128) = Ok q"
  shows "unat p \<le> unat q * 10000"
proof -
  have q: "q = (if p mod 10000 = 0 then p div 10000 else p div 10000 + 1)"
    using assms by (simp add: plain_div_ceil_def full_bps_def)
  have "unat p div 10000 \<le> 2 ^ 128 div 10000"
    using unat_lt_128 [of p] by (intro div_le_mono) (simp del: unat_lt_128)
  then have "unat p div 10000 + 1 < 2 ^ 128" by simp
  then have sum: "unat (p div 10000 + 1) = unat p div 10000 + 1"
    by (simp add: unat_word_ariths unat_div)
  show ?thesis
  proof (cases "p mod 10000 = 0")
    case True
    then have "unat p mod 10000 = 0" using unat_mod_distrib [of p 10000] by simp
    then have "unat p = unat p div 10000 * 10000"
      using div_mult_mod_eq [of "unat p" 10000] by (simp only: add_0_right)
    moreover have "unat q = unat p div 10000" using True by (simp add: q unat_div)
    ultimately show ?thesis by simp
  next
    case False
    then show ?thesis
      using dividend_less_div_times [of 10000 "unat p"] by (simp add: q sum)
  qed
qed

interpretation kvault_source: quoting_source "kvault_deposit_quote E self" "kvault_withdraw_quote E self"
  for E self
proof unfold_locales
  fix wv gc r a
  show "kvault_deposit_quote E self wv gc 0 \<noteq> Ok r"
    by (simp add: kvault_deposit_quote_def kvault_quote_deposit_def)
  show "kvault_withdraw_quote E self wv 0 \<noteq> Ok r"
    by (simp add: kvault_withdraw_quote_def kvault_quote_withdraw_def)
  show "r \<noteq> 0" if "kvault_deposit_quote E self wv gc a = Ok r"
    using that unfolding kvault_deposit_quote_def by (rule kvault_quote_depositE)
  show "r \<noteq> 0" if "kvault_withdraw_quote E self wv a = Ok r"
    using that unfolding kvault_withdraw_quote_def by (rule kvault_quote_withdrawE)
  show "unat (wv_wrapper_supply wv) + unat r < 2 ^ 64" if "kvault_deposit_quote E self wv gc a = Ok r"
    using that unfolding kvault_deposit_quote_def
    by (rule kvault_quote_depositE) (blast dest: settle_deposit_fits)
  show "r \<le> a" if "kvault_deposit_quote E self wv gc a = Ok r" "wv_wrapper_supply wv = 0"
    using that(1) unfolding kvault_deposit_quote_def
    by (rule kvault_quote_depositE)
      (use that(2) in \<open>auto simp: pro_rata_mint_Ok sub_total_fee_Ok word_le_nat_alt\<close>)
  show "a \<le> wv_wrapper_supply wv" if "kvault_withdraw_quote E self wv a = Ok r"
    using that unfolding kvault_withdraw_quote_def by (rule kvault_quote_withdrawE)
qed

lemma stake_floor_le:
  fixes stake total_stake staked :: nat
  assumes "0 < total_stake"
  shows "stake * 10 ^ 18 * staked div total_stake div 10 ^ 18 * total_stake \<le> stake * staked"
proof -
  let ?q = "stake * 10 ^ 18 * staked div total_stake"
  have "?q div 10 ^ 18 * 10 ^ 18 * total_stake \<le> ?q * total_stake" by (intro mult_le_mono1) simp
  also have "\<dots> \<le> stake * 10 ^ 18 * staked" by simp
  finally have "10 ^ 18 * (?q div 10 ^ 18 * total_stake) \<le> 10 ^ 18 * (stake * staked)"
    by (simp only: ac_simps)
  then show ?thesis by (simp only: mult_le_cancel1) simp
qed

context uint_laws
begin

lemma convert_stake_Ok:
  assumes "convert_stake_to_amount E stake total_stake staked = Ok r" "stake \<noteq> 0"
  shows "if total_stake = 0 then r = staked
    else unat r = unat stake * 10 ^ 18 * unat staked div unat total_stake div 10 ^ 18"
proof (cases "total_stake = 0")
  case True
  with assms show ?thesis by (simp add: convert_stake_to_amount_def)
next
  case False
  then obtain x n scaled amount where x: "checked_mul (u256_of stake) (u256_of (10 ^ 18 :: u128)) = Some x"
    and n: "checked_mul x (u256_of staked) = Some n"
    and scaled: "checked_div n (u256_of total_stake) = Some scaled"
    and amount: "checked_div scaled (u256_of (10 ^ 18 :: u128)) = Some amount"
    and fit: "\<not> u256_of u64_max < amount" and r: "r = u256_low_u64 amount"
    using assms
    by (auto simp: convert_stake_to_amount_def Let_def chk_mul chk_div sub shl split: option.splits if_splits)
  have "unat amount = unat stake * 10 ^ 18 * unat staked div unat total_stake div 10 ^ 18"
    using x n scaled amount by (simp add: checked_mul_Some checked_div_Some)
  moreover have "unat amount < 2 ^ 64"
    using fit by (simp add: word_less_nat_alt unat_minus_one not_less)
  then have "unat r = unat amount"
    unfolding r u256_low_u64_def by (simp add: unsigned_ucast_eq take_bit_eq_mod)
  ultimately show ?thesis using False by simp
qed

end

context num_laws
begin

lemma gross_le:
  assumes "(if shares = issued then frac_floor_u64 E (Fraction b)
      else and_then (fraction_full_mul_int_ratio E (Fraction b) shares issued)
        (frac_floor_u64 E)) = Ok gross"
  shows "unat gross * unat issued * 2 ^ 60 \<le> unat b * unat shares"
proof (cases "shares = issued")
  case True
  with assms have "unat gross * 2 ^ 60 \<le> unat b" by (simp add: frac_floor_u64_Ok)
  then have "unat gross * 2 ^ 60 * unat issued \<le> unat b * unat issued" by (rule mult_le_mono1)
  with True show ?thesis by (simp only: ac_simps)
next
  case False
  with assms obtain g where g: "fraction_full_mul_int_ratio E (Fraction b) shares issued = Ok g"
    "frac_floor_u64 E g = Ok gross" by auto
  obtain w where w: "g = Fraction w" by (cases g)
  have "unat gross * 2 ^ 60 \<le> unat w" using g(2) w by (simp add: frac_floor_u64_Ok)
  then have "unat gross * 2 ^ 60 * unat issued \<le> unat w * unat issued" by (rule mult_le_mono1)
  also have "\<dots> \<le> unat b * unat shares"
    using fraction_full_mul_int_ratio_Ok [OF g(1)] w by simp
  finally show ?thesis by (simp only: ac_simps)
qed

end

lemma or_stop_keeps:
  assumes "\<And>x. snd (k x) = Ok () \<or> fst (fst (k x)) = s" "fst st = s"
  shows "snd (or_stop m st k) = Ok () \<or> fst (fst (or_stop m st k)) = s"
  using assms by (cases m) auto

lemma kvault_run_atomic:
  "snd (kvault_run E wv cache s slot ts) = Ok () \<or> fst (fst (kvault_run E wv cache s slot ts)) = s"
  unfolding kvault_run_def Let_def case_prod_unfold
  by (intro or_stop_keeps) simp_all

lemma kvault_run_Ok:
  "kvault_run E wv cache s slot ts = ((s', slot', ts'), Ok ()) \<Longrightarrow>
    \<exists>n iter. kvault_assemble E wv cache s n iter slot' ts' = Ok s'"
  unfolding kvault_run_def Let_def case_prod_unfold by (elim or_stop_OkE) auto

text \<open>The assets under management do not depend on what is cached of them.\<close>

lemma compute_current_aum_cache [simp]:
  "compute_current_aum E (st\<lparr> kv_cached_aum_sf := x, kv_cached_max_deposit := d \<rparr>) slot ts =
   compute_current_aum E st slot ts"
proof -
  let ?st = "st\<lparr> kv_cached_aum_sf := x, kv_cached_max_deposit := d \<rparr>"
  have "invested_for_allocation E ?st slot ts = invested_for_allocation E st slot ts"
    by (rule ext) (simp add: invested_for_allocation_def find_reserve_def)
  then show ?thesis
    by (simp add: compute_current_aum_def invested_total_def charged_pending_fees_def
        kvault_pending_fees_def kvault_prev_aum_def cong: if_cong)
qed

lemma klend_pre_accrue_all_idem:
  assumes "map_outcome (\<lambda>(k, r). and_then (klend_pre_accrue E r slot ts) (\<lambda>r'. Ok (k, r'))) xs
    = (Ok ys :: (pubkey \<times> klend_state) list vres)"
  shows "list_all (\<lambda>(k, r). klend_pre_accrue E r slot ts = Ok r) ys"
  using assms by (induction xs arbitrary: ys) (auto simp: klend_pre_accrue_idem split: prod.splits)

text \<open>
  The deposit limit: without a cap the limit of every quote, with a cap what the rounded-up assets
  under management leave of it, and nothing where they could not be computed.
\<close>

lemma kvault_max_deposit_exact:
  assumes "kvault_max_deposit E cap aum = Ok d"
  shows "(cap = 0 \<longrightarrow> d = MAX_QUOTE_DEPOSIT) \<and> (cap \<noteq> 0 \<and> aum = None \<longrightarrow> d = 0) \<and>
    (\<forall>b. cap \<noteq> 0 \<and> aum = Some (Fraction b) \<and> frac_laws E \<and> unat b \<le> 2 ^ 128 - 2 ^ 60 \<longrightarrow>
      unat d = min (unat cap - (unat b + 2 ^ 60 - 1) div 2 ^ 60) (unat MAX_QUOTE_DEPOSIT))"
proof (intro conjI allI impI)
  show "d = MAX_QUOTE_DEPOSIT" if "cap = 0"
    using assms that by (simp add: kvault_max_deposit_def min_absorb2)
  show "d = 0" if "cap \<noteq> 0 \<and> aum = None"
    using assms that word_order.extremum_unique [of cap]
    by (auto simp: kvault_max_deposit_def saturating_sub_def)
  fix b
  assume asm: "cap \<noteq> 0 \<and> aum = Some (Fraction b) \<and> frac_laws E \<and> unat b \<le> 2 ^ 128 - 2 ^ 60"
  let ?n = "(unat b + 2 ^ 60 - 1) div 2 ^ 60"
  have "?n * 2 ^ 60 \<le> unat b + 2 ^ 60 - 1" by (rule div_times_less_eq_dividend)
  also have "\<dots> < 2 ^ 128" using asm by simp
  finally obtain w :: u128 where w: "unat w = ?n * 2 ^ 60"
    using obtain_word [where 'a = 128, of "?n * 2 ^ 60"] by auto
  have ceil: "fr_ceil E (Fraction b) = Some (Fraction w)" "fr_to_u128 E (Fraction w) = w div 2 ^ 60"
    using frac_laws.ceil [OF _ w] frac_laws.to_u128 asm by blast+
  have n: "unat (w div 2 ^ 60) = ?n" using w by (simp add: unat_div)
  let ?c = "ucast (min (w div 2 ^ 60) (ucast u64_max)) :: u64"
  have c: "unat ?c = min ?n (2 ^ 64 - 1)"
    using n by (simp add: min_def word_le_nat_alt unat_minus_one unsigned_ucast_eq take_bit_eq_mod)
  have "d = min (saturating_sub cap ?c) MAX_QUOTE_DEPOSIT"
    using assms asm ceil by (simp add: kvault_max_deposit_def frac_ceil_saturating_def)
  then have "unat d = min (unat cap - min ?n (2 ^ 64 - 1)) (unat MAX_QUOTE_DEPOSIT)"
    using c by (simp add: min_def word_le_nat_alt unat_saturating_sub)
  moreover have "unat cap - min ?n (2 ^ 64 - 1) = unat cap - ?n"
  proof (cases "?n \<le> 2 ^ 64 - 1")
    case False
    moreover have "unat cap \<le> 2 ^ 64 - 1"
      by (rule less_Suc_eq_le [THEN iffD1]) simp
    ultimately have "unat cap \<le> ?n" by (simp only: not_le)
    with False \<open>unat cap \<le> 2 ^ 64 - 1\<close> show ?thesis by (simp only: min_def if_False diff_is_0_eq)
  qed (simp only: min_def if_True)
  ultimately show "unat d = min (unat cap - ?n) (unat MAX_QUOTE_DEPOSIT)" by simp
qed

lemma kvault_assemble_coherent:
  assumes "kvault_assemble E wv cache s n iter slot ts = Ok st"
  shows "ok (compute_current_aum E st slot ts)
      = (Ok (map_option Fraction (kv_cached_aum_sf st)) :: fraction option vres) \<and>
    kv_cached_max_deposit st \<le> MAX_QUOTE_DEPOSIT \<and>
    (kv_deposit_cap st = 0 \<longrightarrow> kv_cached_max_deposit st = MAX_QUOTE_DEPOSIT) \<and>
    (kv_deposit_cap st \<noteq> 0 \<and> kv_cached_aum_sf st = None \<longrightarrow> kv_cached_max_deposit st = 0) \<and>
    (\<forall>b. kv_deposit_cap st \<noteq> 0 \<and> kv_cached_aum_sf st = Some b \<and> frac_laws E \<and>
        unat b \<le> 2 ^ 128 - 2 ^ 60 \<longrightarrow>
      unat (kv_cached_max_deposit st) =
        min (unat (kv_deposit_cap st) - (unat b + 2 ^ 60 - 1) div 2 ^ 60) (unat MAX_QUOTE_DEPOSIT)) \<and>
    list_all (\<lambda>(k, r). klend_pre_accrue E r slot ts = Ok r) (kv_cached_reserves st)"
proof -
  obtain found where accrued: "map_outcome (\<lambda>(k, r).
        and_then (klend_pre_accrue E r slot ts) (\<lambda>r'. Ok (k, r'))) found
      = (Ok (kv_cached_reserves st) :: (pubkey \<times> klend_state) list vres)"
    using assms unfolding kvault_assemble_def Let_def case_prod_unfold
    by (elim ok_elims) auto
  obtain s1 aum d where st: "st = s1\<lparr> kv_cached_aum_sf := map_option to_bits aum,
        kv_cached_max_deposit := d \<rparr>"
    and aum: "ok (compute_current_aum E s1 slot ts) = (Ok aum :: fraction option vres)"
    and d: "kvault_max_deposit E (kv_deposit_cap s1) aum = Ok d"
    using assms unfolding kvault_assemble_def Let_def case_prod_unfold
    by (elim ok_elims) blast
  have id: "map_option Fraction (map_option to_bits aum) = aum" by (cases aum) simp_all
  have "d \<le> MAX_QUOTE_DEPOSIT" using d by (auto simp: kvault_max_deposit_def split: if_splits)
  moreover have "kv_cached_aum_sf st = Some b \<longleftrightarrow> aum = Some (Fraction b)" for b
    unfolding st by (cases aum) auto
  moreover have "kv_cached_aum_sf st = None \<longleftrightarrow> aum = None" unfolding st by simp
  moreover have "kv_deposit_cap st = kv_deposit_cap s1" "kv_cached_max_deposit st = d"
    unfolding st by simp_all
  moreover have "ok (compute_current_aum E st slot ts)
      = (Ok (map_option Fraction (kv_cached_aum_sf st)) :: fraction option vres)"
    unfolding st using aum id by simp
  ultimately show ?thesis
    using kvault_max_deposit_exact [OF d] klend_pre_accrue_all_idem [OF accrued]
    by (simp only:) blast
qed

text \<open>The instructions of the backend have the shape of a swap.\<close>

lemma kvault_build_accounts:
  assumes "kvault_build E state wv user dir = Ok metas"
  shows "\<exists>rest. metas = meta_new user True # rest \<and> list_all (\<lambda>meta. \<not> am_is_signer meta) rest"
proof -
  have markets: "list_all (\<lambda>meta. \<not> am_is_signer meta) ms"
    if "map_outcome (\<lambda>alloc. and_then (ok_or (find_reserve state (al_reserve alloc)) e)
      (\<lambda>cached. Ok (meta_new_readonly (kl_lending_market cached) False))) xs = (Ok ms :: account_meta list vres)"
    for ms xs e
    using that by (rule map_outcome_all) auto
  from assms show ?thesis
    unfolding kvault_build_def Let_def case_prod_unfold
    by (elim ok_elims) (drule markets, auto simp: list_all_iff split: if_splits)
qed

interpretation kvault_builder: swap_builder "OVERPASS_PROGRAM_ID E"
    KVAULT_DEPOSIT_IX_DISCRIMINATOR KVAULT_WITHDRAW_IX_DISCRIMINATOR
    "kvault_build_deposit_ix E self" "kvault_build_withdraw_ix E self" for E self
  by unfold_locales
    (auto simp: is_swap_ix_def KVAULT_DEPOSIT_IX_DISCRIMINATOR_def
      KVAULT_WITHDRAW_IX_DISCRIMINATOR_def kvault_build_deposit_ix_def
      kvault_build_withdraw_ix_def kvault_build_deposit_def kvault_build_withdraw_def
      dest!: kvault_build_accounts)

section \<open>Properties\<close>

text \<open>
  C6. Kvault shares are never minted below the price of the existing ones: what the new shares are
  worth at the current assets under management is at most what the user puts in.
\<close>

theorem kvault_shares_within_price:
  assumes "num_laws E" "get_shares_to_mint E aum amount issued = Ok shares" "issued \<noteq> 0"
    and "unat (to_bits aum) < 2 ^ 127"
  shows "unat shares * unat (to_bits aum) \<le> unat issued * unat amount * 2 ^ 60"
  using num_laws.get_shares_to_mint_le [OF assms] .

text \<open>
  C5. A Kvault withdrawal never pays more than its claim: the vault shares redeemed are at most the
  pro-rata part of the position, their gross value is at most their part of the assets under
  management, and the payment leaves at least the proportional penalty and the fixed penalty behind,
  whether it comes from idle tokens or from disinvesting the largest allocation.
\<close>

theorem kvault_withdraw_within_claim:
  assumes "num_laws E" "kvault_quote_withdraw E st slot ts wv a = Ok out"
  shows "\<exists>aum (shares :: u64) (gross :: u64). current_aum E st slot ts = Ok aum \<and>
    unat shares * unat (wv_wrapper_supply wv) \<le> unat a * unat (kv_position_kvault_shares st) \<and>
    unat gross * unat (kv_shares_issued st) * 2 ^ 60 \<le> unat (to_bits aum) * unat shares \<and>
    unat out * 10000 + unat gross * unat (effective_penalty_bps st) \<le> unat gross * 10000 \<and>
    unat out + unat (effective_penalty_lamports st) \<le> unat gross"
  using assms(2)
proof (rule kvault_quote_withdrawE)
  fix shares aum gross prod quot bps_penalty user
  assume redeem: "pro_rata_redeem ''redeem calc'' ''redeem calc'' a (kv_position_kvault_shares st)
      (wv_wrapper_supply wv) = Ok shares"
    and aum: "current_aum E st slot ts = Ok aum"
    and gross: "(if shares = kv_shares_issued st then frac_floor_u64 E aum
      else and_then (fraction_full_mul_int_ratio E aum shares (kv_shares_issued st))
        (frac_floor_u64 E)) = Ok gross"
    and prod: "checked_mul (ucast gross :: u128) (ucast (effective_penalty_bps st)) = Some prod"
    and quot: "plain_div_ceil prod (ucast full_bps) = (Ok quot :: u128 vres)"
    and pen: "u128_to_u64 quot = Ok bps_penalty"
    and user: "checked_sub gross (max bps_penalty (effective_penalty_lamports st)) = Some user"
    and out: "(if user \<le> min (kv_token_available st) user then Ok user
      else kvault_disinvest E st slot ts user (min (kv_token_available st) user)) = Ok out"
  have 1: "unat shares * unat (wv_wrapper_supply wv) \<le> unat a * unat (kv_position_kvault_shares st)"
    using redeem by (simp add: pro_rata_redeem_Ok)
  obtain b where b: "aum = Fraction b" by (cases aum)
  have 2: "unat gross * unat (kv_shares_issued st) * 2 ^ 60 \<le> unat b * unat shares"
    by (rule num_laws.gross_le [OF assms(1) gross [unfolded b]])
  have out_le: "out \<le> user"
    using out num_laws.kvault_disinvest_le [OF assms(1)] by (auto split: if_splits)
  have "unat gross * unat (effective_penalty_bps st) \<le> unat bps_penalty * 10000"
    using div_ceil_ge [OF quot] prod pen by (simp add: checked_mul_Some u128_to_u64_Ok)
  moreover have "unat gross = max (unat bps_penalty) (unat (effective_penalty_lamports st)) + unat user"
    using user by (auto simp: checked_sub_Some max_def word_le_nat_alt)
  moreover have "unat out \<le> unat user" using out_le by (simp add: word_le_nat_alt)
  ultimately have 3: "unat out * 10000 + unat gross * unat (effective_penalty_bps st) \<le> unat gross * 10000"
    "unat out + unat (effective_penalty_lamports st) \<le> unat gross" by linarith+
  show ?thesis
    by (rule exI [of _ aum], rule exI [of _ shares], rule exI [of _ gross])
      (use aum b 1 2 3 in \<open>intro conjI; simp\<close>)
qed

text \<open>
  Converting farm stake into staked shares never credits more than the farm holds: a stake within
  the farm's total converts, when it converts, to an amount within the farm's staked amount and to
  exactly the floor of the proportional part up to the 18-digit scaling; it never panics.
\<close>

theorem convert_stake_bounded:
  assumes "uint_laws E" "stake \<le> total_stake" "convert_stake_to_amount E stake total_stake staked = Ok r"
  shows "r \<le> staked \<and> unat r * unat total_stake \<le> unat stake * unat staked \<or> stake = 0 \<and> r = 0"
proof (cases "stake = 0")
  case True
  then show ?thesis using assms(3) by (simp add: convert_stake_to_amount_def)
next
  case False
  with assms(2) have t0: "0 < unat total_stake" by (auto simp: word_le_nat_alt unat_gt_0 unat_eq_0_iff)
  have r: "unat r = unat stake * 10 ^ 18 * unat staked div unat total_stake div 10 ^ 18"
    using uint_laws.convert_stake_Ok [OF assms(1,3) False] t0 by (cases "total_stake = 0") simp_all
  then have "unat r * unat total_stake \<le> unat stake * unat staked"
    using stake_floor_le [OF t0] by simp
  moreover have "unat r \<le> unat staked"
  proof -
    note calculation
    also have "unat stake * unat staked \<le> unat total_stake * unat staked"
      using assms(2) by (intro mult_le_mono1) (simp add: word_le_nat_alt)
    finally show ?thesis using t0 by simp
  qed
  ultimately show ?thesis by (simp add: word_le_nat_alt)
qed

text \<open>
  A failed Kvault refresh leaves the vault state as it was: the new state is stored only after
  every account has been read, decoded and accrued.
\<close>

theorem kvault_update_atomic:
  assumes "kvault_update E self wv cache = (self', res)" "res \<noteq> Ok ()"
  shows "vb_state self' = vb_state self"
  using kvault_run_atomic [of E wv cache "vb_state self" "vb_current_slot self"
      "vb_unix_timestamp self"] assms
  by (auto simp: kvault_update_def split: prod.splits)

text \<open>
  C36. After a successful Kvault refresh the cache is coherent: the cached assets under management are
  what \<open>compute_current_aum\<close> returns on the stored state, slot and time (nothing where it fails), the
  cached deposit limit is exactly what the stored deposit cap leaves above the cached assets rounded up,
  at most \<open>u64::MAX / 32\<close> (that bound where there is no cap, 0 where there is a cap and no cached
  assets; for the exact rounding the assets stay below the last unit of the fixed-point range), and
  accruing any cached reserve again changes nothing.
\<close>

theorem kvault_update_coherent:
  assumes "kvault_update E self wv cache = (self', Ok ())"
  shows "ok (compute_current_aum E (vb_state self') (vb_current_slot self') (vb_unix_timestamp self'))
      = (Ok (map_option Fraction (kv_cached_aum_sf (vb_state self'))) :: fraction option vres) \<and>
    kv_cached_max_deposit (vb_state self') \<le> MAX_QUOTE_DEPOSIT \<and>
    (kv_deposit_cap (vb_state self') = 0 \<longrightarrow> kv_cached_max_deposit (vb_state self') = MAX_QUOTE_DEPOSIT) \<and>
    (kv_deposit_cap (vb_state self') \<noteq> 0 \<and> kv_cached_aum_sf (vb_state self') = None \<longrightarrow> kv_cached_max_deposit (vb_state self') = 0) \<and>
    (\<forall>b. kv_deposit_cap (vb_state self') \<noteq> 0 \<and> kv_cached_aum_sf (vb_state self') = Some b \<and> frac_laws E \<and>
        unat b \<le> 2 ^ 128 - 2 ^ 60 \<longrightarrow>
      unat (kv_cached_max_deposit (vb_state self')) =
        min (unat (kv_deposit_cap (vb_state self')) - (unat b + 2 ^ 60 - 1) div 2 ^ 60) (unat MAX_QUOTE_DEPOSIT)) \<and>
    list_all (\<lambda>(k, r). klend_pre_accrue E r (vb_current_slot self') (vb_unix_timestamp self') = Ok r)
      (kv_cached_reserves (vb_state self'))"
proof -
  obtain n iter where "kvault_assemble E wv cache (vb_state self) n iter (vb_current_slot self')
      (vb_unix_timestamp self') = Ok (vb_state self')"
    using assms kvault_run_Ok by (fastforce simp: kvault_update_def split: prod.splits)
  then show ?thesis by (rule kvault_assemble_coherent)
qed

section \<open>Concrete vaults\<close>

definition kvault_sample :: kvault_state where
  "kvault_sample = (kvault_state_default std_crates)\<lparr> kv_token_available := 2000000,
     kv_shares_issued := 1000000, kv_position_kvault_shares := 500000,
     kv_vault_withdrawal_penalty_bps := 25, kv_cached_aum_sf := Some (2000000 * 2 ^ 60) \<rparr>"

definition kvault_vault_sample :: wrapper_vault where
  "kvault_vault_sample =
     vault_sample\<lparr> wv_wrapper_supply := 400000, wv_intermediate_held := 500000 \<rparr>"

lemmas kvault_eval = kvault_quote_withdraw_def kvault_quote_deposit_def current_aum_def
  fraction_full_mul_int_ratio_def frac_floor_u64_def frac_ceil_u64_def get_shares_to_mint_def
  effective_penalty_bps_def effective_penalty_lamports_def plain_div_ceil_def

lemma kvault_sample_withdraw:
  "kvault_quote_withdraw std_crates kvault_sample 0 0 kvault_vault_sample 1000 = Ok 2493"
  by (simp add: kvault_eval arith_eval kvault_sample_def kvault_state_default_def
      kvault_vault_sample_def vault_sample_def)

lemma kvault_withdraw_within_claim_witness:
  "\<exists>gross :: u64. unat (2493 :: u64) * 10000 + unat gross * 25 \<le> unat gross * 10000"
  using kvault_withdraw_within_claim [OF std_num.num_laws_axioms kvault_sample_withdraw]
  by (auto simp: effective_penalty_bps_def kvault_sample_def kvault_state_default_def)

lemma kvault_shares_within_price_witness:
  "get_shares_to_mint std_crates (Fraction (2000000 * 2 ^ 60)) 1001 1000000 = Ok 500 \<and>
   unat (500 :: u64) * unat (2000000 * 2 ^ 60 :: u128) \<le> 1000000 * 1001 * 2 ^ 60"
proof -
  have mint: "get_shares_to_mint std_crates (Fraction (2000000 * 2 ^ 60)) 1001 1000000 = Ok 500"
    by (simp add: kvault_eval arith_eval)
  from kvault_shares_within_price [OF std_num.num_laws_axioms mint] mint show ?thesis by simp
qed

lemma convert_stake_bounded_witness:
  "convert_stake_to_amount std_crates 3 10 1001 = Ok 300 \<and> unat (300 :: u64) * 10 \<le> 3 * 1001"
proof -
  have conv: "convert_stake_to_amount std_crates 3 10 1001 = Ok 300"
    by (simp add: convert_stake_to_amount_def arith_eval u256_low_u64_def unat_minus_one)
  from convert_stake_bounded [OF std_uint.uint_laws_axioms _ conv] conv show ?thesis by simp
qed

lemma kvault_update_atomic_witness:
  "vb_state (fst (kvault_update std_crates (kvault_new std_crates) vault_sample
     \<lparr> get_account = (\<lambda>k. Ok None), get_accounts = (\<lambda>ks. Ok []) \<rparr>)) =
   kvault_state_default std_crates"
proof -
  obtain self' res where u: "kvault_update std_crates (kvault_new std_crates) vault_sample
      \<lparr> get_account = (\<lambda>k. Ok None), get_accounts = (\<lambda>ks. Ok []) \<rparr> = (self', res)"
    by (metis surj_pair)
  have "res \<noteq> Ok ()" using u by (auto simp: kvault_update_def kvault_run_def Let_def)
  with kvault_update_atomic [OF u] u show ?thesis by (simp add: kvault_new_def)
qed

text \<open>A vault account that holds 300 tokens under a deposit cap of 1000.\<close>

definition kvault_cache_sample :: accounts_cache where
  "kvault_cache_sample =
     (let vault = \<lparr> acc_data = VAULT_STATE_DISCRIMINATOR @ replicate 216 0 @ to_le_bytes 8 (300 :: u64) @
                       replicate 58504 0 @ to_le_bytes 8 (1000 :: u64) @ replicate 3808 0,
                     acc_owner = pubkey_default \<rparr>;
          clock = \<lparr> acc_data = replicate 40 0, acc_owner = pubkey_default \<rparr>
      in \<lparr> get_account = (\<lambda>k. Ok (Some vault)), get_accounts = (\<lambda>ks. Ok [None, Some clock]) \<rparr>)"

lemma kvault_sample_updates:
  "\<exists>self'. kvault_update std_crates (kvault_new std_crates) vault_sample kvault_cache_sample = (self', Ok ())
    \<and> kv_deposit_cap (vb_state self') = 1000
    \<and> kv_cached_aum_sf (vb_state self') = Some (300 * 2 ^ 60)"
  by (simp add: kvault_update_def kvault_run_def kvault_cache_sample_def kvault_new_def
      kvault_decode_def VAULT_STATE_LEN_def VAULT_STATE_DISCRIMINATOR_def read_eqs slice_def get_slice_def
      MAX_RESERVES_def upt_conv_Cons OFF_VAULT_ALLOCATION_STRATEGY_def VAULT_ALLOCATION_SIZE_def
      find_pda_def std_ops use_farms_def PD_OFF_USE_FARMS_def clock_field_def try_array_def
      kvault_assemble_def kvault_position_def compute_current_aum_def invested_total_def
      charged_pending_fees_def kvault_pending_fees_def kvault_max_deposit_def Let_def vault_sample_def
      PD_OFF_UNDERLYING_TOKEN_KIND_def frac_of_def saturating_sub_def kvault_state_default_def
      less_fraction_unat from_to_le_bytes frac_ceil_saturating_def fits_def min_def
      word_le_nat_alt unat_minus_one)

lemma kvault_update_coherent_witness:
  "\<exists>self'. kvault_update std_crates (kvault_new std_crates) vault_sample kvault_cache_sample = (self', Ok ())
    \<and> unat (kv_cached_max_deposit (vb_state self')) = 700"
proof -
  obtain self' where u: "kvault_update std_crates (kvault_new std_crates) vault_sample
      kvault_cache_sample = (self', Ok ())" "kv_deposit_cap (vb_state self') = 1000"
      "kv_cached_aum_sf (vb_state self') = Some (300 * 2 ^ 60)"
    using kvault_sample_updates by blast
  with kvault_update_coherent [OF u(1)] std_frac.frac_laws_axioms show ?thesis
    by (simp add: MAX_QUOTE_DEPOSIT_def unat_div unat_minus_one)
qed

end
