(* ===== verification/Marginfi.thy ===== *)
theory Marginfi
  imports Share_Math
begin

text \<open>
  The Marginfi backend, \<open>src/src/your_venue/marginfi/\<close>: the bank, the user account and the group and
  their decoders (\<open>state.rs\<close>), the interest-rate curves, the accrual of the share values and the two
  quotes over \<open>I80F48\<close> numbers (\<open>math.rs\<close>), the refresh (\<open>update.rs\<close>), the account lists
  (\<open>account_metas.rs\<close>) and the backend (\<open>mod.rs\<close>). An \<open>I80F48\<close> operator that panics is the outcome
  \<open>Panic\<close>.
\<close>

section \<open>The bank (\<open>state.rs\<close>)\<close>

datatype bank_operational_state =
  Bank_Paused | Bank_Operational | Bank_ReduceOnly | Bank_KilledByBankruptcy

definition bank_operational_state_from_u8 :: "u8 \<Rightarrow> bank_operational_state vres" where
  "bank_operational_state_from_u8 b =
     (if b = 0 then Ok Bank_Paused
      else if b = 1 then Ok Bank_Operational
      else if b = 2 then Ok Bank_ReduceOnly
      else if b = 3 then Ok Bank_KilledByBankruptcy
      else Err (deser_err ''marginfi: bad operational_state''))"

definition INTEREST_CURVE_LEGACY :: u8 where "INTEREST_CURVE_LEGACY = 0"
definition INTEREST_CURVE_SEVEN_POINT :: u8 where "INTEREST_CURVE_SEVEN_POINT = 1"

record rate_point =
  rp_util :: u32
  rp_rate :: u32

record interest_rate_config =
  ic_optimal_utilization_rate :: i80f48
  ic_plateau_interest_rate :: i80f48
  ic_max_interest_rate :: i80f48
  ic_insurance_fee_fixed_apr :: i80f48
  ic_insurance_ir_fee :: i80f48
  ic_protocol_fixed_fee_apr :: i80f48
  ic_protocol_ir_fee :: i80f48
  ic_zero_util_rate :: u32
  ic_hundred_util_rate :: u32
  ic_points :: "rate_point list"
  ic_curve_type :: u8

definition interest_rate_config_default :: interest_rate_config where
  "interest_rate_config_default =
     \<lparr> ic_optimal_utilization_rate = i80_zero,
       ic_plateau_interest_rate = i80_zero,
       ic_max_interest_rate = i80_zero,
       ic_insurance_fee_fixed_apr = i80_zero,
       ic_insurance_ir_fee = i80_zero,
       ic_protocol_fixed_fee_apr = i80_zero,
       ic_protocol_ir_fee = i80_zero,
       ic_zero_util_rate = 0,
       ic_hundred_util_rate = 0,
       ic_points = replicate 5 \<lparr> rp_util = 0, rp_rate = 0 \<rparr>,
       ic_curve_type = 0 \<rparr>"

record marginfi_state =
  mf_mint :: pubkey
  mf_mint_decimals :: u8
  mf_asset_share_value :: i80f48
  mf_liability_share_value :: i80f48
  mf_liquidity_vault :: pubkey
  mf_total_liability_shares :: i80f48
  mf_total_asset_shares :: i80f48
  mf_last_update :: i64
  mf_deposit_limit :: u64
  mf_operational_state :: bank_operational_state
  mf_asset_tag :: u8
  mf_cached_lending_rate :: u32
  mf_cached_user_asset_shares :: i80f48
  mf_underlying_token_program :: pubkey
  mf_oracle_setup :: u8
  mf_oracle_keys :: "pubkey list"
  mf_interest_rate_config :: interest_rate_config
  mf_group_program_fees_enabled :: bool
  mf_group_program_fee_fixed :: i80f48
  mf_group_program_fee_rate :: i80f48

definition marginfi_state_default :: "crates \<Rightarrow> marginfi_state" where
  "marginfi_state_default E =
     \<lparr> mf_mint = pubkey_default,
       mf_mint_decimals = 0,
       mf_asset_share_value = i80_zero,
       mf_liability_share_value = i80_zero,
       mf_liquidity_vault = pubkey_default,
       mf_total_liability_shares = i80_zero,
       mf_total_asset_shares = i80_zero,
       mf_last_update = 0,
       mf_deposit_limit = 0,
       mf_operational_state = Bank_Paused,
       mf_asset_tag = 0,
       mf_cached_lending_rate = 0,
       mf_cached_user_asset_shares = i80_zero,
       mf_underlying_token_program = SPL_TOKEN_PROGRAM_ID E,
       mf_oracle_setup = 0,
       mf_oracle_keys = replicate 5 pubkey_default,
       mf_interest_rate_config = interest_rate_config_default,
       mf_group_program_fees_enabled = False,
       mf_group_program_fee_fixed = i80_zero,
       mf_group_program_fee_rate = i80_zero \<rparr>"

definition BANK_LEN :: nat where "BANK_LEN = 1864"
definition BANK_DISCRIMINATOR :: bytes where
  "BANK_DISCRIMINATOR = [142, 49, 166, 242, 50, 66, 97, 188]"
definition MARGINFI_PD_OFF_UNDERLYING_TOKEN_KIND :: nat where
  "MARGINFI_PD_OFF_UNDERLYING_TOKEN_KIND = 98"

definition remaining_accounts_per_bank :: "u8 \<Rightarrow> nat" where
  "remaining_accounts_per_bank oracle_setup =
     (if oracle_setup \<in> {1, 2, 3, 4, 6} then 2 else if oracle_setup = 5 then 4 else 1)"

definition read_wrapped_i80f48 :: "bytes \<Rightarrow> nat \<Rightarrow> i80f48 vres" where
  "read_wrapped_i80f48 data offset =
     and_then (read_u128 data offset ''WrappedI80F48'') (\<lambda>bits. Ok (I80F48 bits))"

definition read_rate_points :: "bytes \<Rightarrow> nat \<Rightarrow> rate_point list vres" where
  "read_rate_points data offset =
     map_outcome (\<lambda>i.
         let base = offset + i * 8
         in and_then (read_u32 data base ''marginfi.ir.points.util'') (\<lambda>util.
            and_then (read_u32 data (base + 4) ''marginfi.ir.points.rate'') (\<lambda>rate.
            Ok \<lparr> rp_util = util, rp_rate = rate \<rparr>)))
       [0..<5]"

definition marginfi_decode :: "crates \<Rightarrow> bytes \<Rightarrow> marginfi_state vres" where
  "marginfi_decode E data =
     (if length data < BANK_LEN then Err (deser_err ''marginfi bank: length'')
      else and_then (slice data 0 8) (\<lambda>disc.
      if disc \<noteq> BANK_DISCRIMINATOR then Err (deser_err ''marginfi bank: discriminator'')
      else
        and_then (read_pubkey data 8 ''marginfi.mint'') (\<lambda>mint.
        and_then (index_at data 40) (\<lambda>mint_decimals.
        and_then (read_wrapped_i80f48 data 80) (\<lambda>asset_share_value.
        and_then (read_wrapped_i80f48 data 96) (\<lambda>liability_share_value.
        and_then (read_pubkey data 112 ''marginfi.liquidity_vault'') (\<lambda>liquidity_vault.
        and_then (read_wrapped_i80f48 data 256) (\<lambda>total_liability_shares.
        and_then (read_wrapped_i80f48 data 272) (\<lambda>total_asset_shares.
        and_then (read_u64 data 288 ''marginfi.last_update'') (\<lambda>last_update.
        and_then (read_u64 data 360 ''marginfi.deposit_limit'') (\<lambda>deposit_limit.
        and_then (index_at data 608) (\<lambda>state_byte.
        and_then (bank_operational_state_from_u8 state_byte) (\<lambda>operational_state.
        and_then (index_at data 785) (\<lambda>asset_tag.
        and_then (read_u32 data 1380 ''marginfi.cache.lending_rate'') (\<lambda>cached_lending_rate.
        and_then (index_at data 609) (\<lambda>oracle_setup.
        and_then (map_outcome (\<lambda>i. read_pubkey data (610 + i * 32) ''marginfi.config.oracle_keys'') [0..<5])
          (\<lambda>oracle_keys.
        and_then (read_wrapped_i80f48 data 368) (\<lambda>optimal_utilization_rate.
        and_then (read_wrapped_i80f48 data 384) (\<lambda>plateau_interest_rate.
        and_then (read_wrapped_i80f48 data 400) (\<lambda>max_interest_rate.
        and_then (read_wrapped_i80f48 data 416) (\<lambda>insurance_fee_fixed_apr.
        and_then (read_wrapped_i80f48 data 432) (\<lambda>insurance_ir_fee.
        and_then (read_wrapped_i80f48 data 448) (\<lambda>protocol_fixed_fee_apr.
        and_then (read_wrapped_i80f48 data 464) (\<lambda>protocol_ir_fee.
        and_then (read_u32 data 496 ''marginfi.ir.zero_util_rate'') (\<lambda>zero_util_rate.
        and_then (read_u32 data 500 ''marginfi.ir.hundred_util_rate'') (\<lambda>hundred_util_rate.
        and_then (read_rate_points data 504) (\<lambda>points.
        and_then (index_at data 544) (\<lambda>curve_type.
        Ok \<lparr> mf_mint = mint,
             mf_mint_decimals = mint_decimals,
             mf_asset_share_value = asset_share_value,
             mf_liability_share_value = liability_share_value,
             mf_liquidity_vault = liquidity_vault,
             mf_total_liability_shares = total_liability_shares,
             mf_total_asset_shares = total_asset_shares,
             mf_last_update = last_update,
             mf_deposit_limit = deposit_limit,
             mf_operational_state = operational_state,
             mf_asset_tag = asset_tag,
             mf_cached_lending_rate = cached_lending_rate,
             mf_cached_user_asset_shares = i80_zero,
             mf_underlying_token_program = SPL_TOKEN_PROGRAM_ID E,
             mf_oracle_setup = oracle_setup,
             mf_oracle_keys = oracle_keys,
             mf_interest_rate_config = 
               \<lparr> ic_optimal_utilization_rate = optimal_utilization_rate,
               ic_plateau_interest_rate = plateau_interest_rate,
               ic_max_interest_rate = max_interest_rate,
               ic_insurance_fee_fixed_apr = insurance_fee_fixed_apr,
               ic_insurance_ir_fee = insurance_ir_fee,
               ic_protocol_fixed_fee_apr = protocol_fixed_fee_apr,
               ic_protocol_ir_fee = protocol_ir_fee,
               ic_zero_util_rate = zero_util_rate,
               ic_hundred_util_rate = hundred_util_rate,
               ic_points = points,
               ic_curve_type = curve_type \<rparr>,
             mf_group_program_fees_enabled = False,
             mf_group_program_fee_fixed = i80_zero,
             mf_group_program_fee_rate = i80_zero \<rparr>))))))))))))))))))))))))))))"

definition MARGINFI_ACCOUNT_DISCRIMINATOR :: bytes where
  "MARGINFI_ACCOUNT_DISCRIMINATOR = [67, 178, 130, 109, 126, 114, 28, 42]"
definition OFF_BALANCES_START :: nat where "OFF_BALANCES_START = 72"
definition BALANCE_SIZE :: nat where "BALANCE_SIZE = 104"
definition BALANCE_COUNT :: nat where "BALANCE_COUNT = 16"

text \<open>The loop over the balance slots, as far as the first active one of the bank.\<close>

fun find_balance :: "bytes \<Rightarrow> pubkey \<Rightarrow> nat list \<Rightarrow> i80f48 vres" where
  "find_balance data bank_pk [] = Ok i80_zero"
| "find_balance data bank_pk (i # is) =
     (let base = OFF_BALANCES_START + i * BALANCE_SIZE
      in and_then (index_at data base) (\<lambda>active.
         if active = 0 then find_balance data bank_pk is
         else
           and_then (slice data (base + 1) (base + 1 + 32)) (\<lambda>bank.
           if bank \<noteq> bank_pk then find_balance data bank_pk is
           else read_wrapped_i80f48 data (base + 40))))"

definition read_asset_shares_for_bank :: "bytes \<Rightarrow> pubkey \<Rightarrow> i80f48 vres" where
  "read_asset_shares_for_bank data bank_pk =
     (if length data < OFF_BALANCES_START + BALANCE_COUNT * BALANCE_SIZE
      then Err (deser_err ''marginfi_account: length'')
      else and_then (slice data 0 8) (\<lambda>disc.
      if disc \<noteq> MARGINFI_ACCOUNT_DISCRIMINATOR
      then Err (deser_err ''marginfi_account: discriminator'')
      else find_balance data bank_pk [0..<BALANCE_COUNT]))"

definition MARGINFI_GROUP_LEN :: nat where "MARGINFI_GROUP_LEN = 1064"
definition MARGINFI_GROUP_DISCRIMINATOR :: bytes where
  "MARGINFI_GROUP_DISCRIMINATOR = [182, 23, 173, 240, 151, 206, 182, 67]"
definition PROGRAM_FEES_ENABLED :: u64 where "PROGRAM_FEES_ENABLED = 1"

record marginfi_group_state =
  mg_program_fees_enabled :: bool
  mg_program_fee_fixed :: i80f48
  mg_program_fee_rate :: i80f48

definition decode_group :: "bytes \<Rightarrow> marginfi_group_state vres" where
  "decode_group data =
     (if length data < MARGINFI_GROUP_LEN then Err (deser_err ''marginfi group: length'')
      else and_then (slice data 0 8) (\<lambda>disc.
      if disc \<noteq> MARGINFI_GROUP_DISCRIMINATOR
      then Err (deser_err ''marginfi group: discriminator'')
      else
        and_then (read_u64 data 40 ''marginfi.group.group_flags'') (\<lambda>group_flags.
        and_then (read_wrapped_i80f48 data 80) (\<lambda>program_fee_fixed.
        and_then (read_wrapped_i80f48 data 96) (\<lambda>program_fee_rate.
        Ok \<lparr> mg_program_fees_enabled = (and group_flags PROGRAM_FEES_ENABLED \<noteq> 0),
             mg_program_fee_fixed = program_fee_fixed,
             mg_program_fee_rate = program_fee_rate \<rparr>)))))"

section \<open>Interest rates (\<open>math.rs\<close>)\<close>

definition ASSET_TAG_DRIFT :: u8 where "ASSET_TAG_DRIFT = 4"

abbreviation ix_num :: "crates \<Rightarrow> int \<Rightarrow> i80f48 vres" where
  "ix_num E n \<equiv> or_panic (ix_from_num E n)"
abbreviation ix_minus :: "crates \<Rightarrow> i80f48 \<Rightarrow> i80f48 \<Rightarrow> i80f48 vres" where
  "ix_minus E a b \<equiv> or_panic (ix_sub E a b)"
abbreviation ix_times :: "crates \<Rightarrow> i80f48 \<Rightarrow> i80f48 \<Rightarrow> i80f48 vres" where
  "ix_times E a b \<equiv> or_panic (ix_mul E a b)"
abbreviation ix_over :: "crates \<Rightarrow> i80f48 \<Rightarrow> i80f48 \<Rightarrow> i80f48 vres" where
  "ix_over E a b \<equiv> or_panic (ix_div E a b)"

definition seconds_per_year :: "crates \<Rightarrow> i80f48 vres" where
  "seconds_per_year E = ix_num E 31536000"

record interest_rate_calc =
  irc_optimal_utilization_rate :: i80f48
  irc_plateau_interest_rate :: i80f48
  irc_max_interest_rate :: i80f48
  irc_insurance_fixed_fee :: i80f48
  irc_insurance_rate_fee :: i80f48
  irc_protocol_fixed_fee :: i80f48
  irc_protocol_rate_fee :: i80f48
  irc_program_fee_fixed :: i80f48
  irc_program_fee_rate :: i80f48
  irc_add_program_fees :: bool
  irc_zero_util_rate :: u32
  irc_hundred_util_rate :: u32
  irc_points :: "rate_point list"
  irc_curve_type :: u8

record marginfi_fees =
  fee_insurance_rate :: i80f48
  fee_insurance_fixed :: i80f48
  fee_group_rate :: i80f48
  fee_group_fixed :: i80f48
  fee_protocol_rate :: i80f48
  fee_protocol_fixed :: i80f48

record computed_interest_rates =
  cr_base_rate_apr :: i80f48
  cr_lending_rate_apr :: i80f48
  cr_borrowing_rate_apr :: i80f48
  cr_group_fee_apr :: i80f48
  cr_insurance_fee_apr :: i80f48
  cr_protocol_fee_apr :: i80f48

definition create_interest_rate_calculator :: "marginfi_state \<Rightarrow> interest_rate_calc" where
  "create_interest_rate_calculator state =
     (let cfg = mf_interest_rate_config state
      in \<lparr> irc_optimal_utilization_rate = ic_optimal_utilization_rate cfg,
           irc_plateau_interest_rate = ic_plateau_interest_rate cfg,
           irc_max_interest_rate = ic_max_interest_rate cfg,
           irc_insurance_fixed_fee = ic_insurance_fee_fixed_apr cfg,
           irc_insurance_rate_fee = ic_insurance_ir_fee cfg,
           irc_protocol_fixed_fee = ic_protocol_fixed_fee_apr cfg,
           irc_protocol_rate_fee = ic_protocol_ir_fee cfg,
           irc_program_fee_fixed = mf_group_program_fee_fixed state,
           irc_program_fee_rate = mf_group_program_fee_rate state,
           irc_add_program_fees = mf_group_program_fees_enabled state,
           irc_zero_util_rate = ic_zero_util_rate cfg,
           irc_hundred_util_rate = ic_hundred_util_rate cfg,
           irc_points = ic_points cfg,
           irc_curve_type = ic_curve_type cfg \<rparr>)"

definition rate_from_u32 :: "crates \<Rightarrow> u32 \<Rightarrow> i80f48 vres" where
  "rate_from_u32 E rate =
     and_then (ix_num E (int (unat rate))) (\<lambda>n.
     and_then (ix_num E (int (unat (- 1 :: u32)))) (\<lambda>d.
     and_then (ix_over E n d) (\<lambda>ratio.
     and_then (ix_num E 10) (\<lambda>ten. ix_times E ratio ten))))"

definition util_from_u32 :: "crates \<Rightarrow> u32 \<Rightarrow> i80f48 vres" where
  "util_from_u32 E util =
     and_then (ix_num E (int (unat util))) (\<lambda>n.
     and_then (ix_num E (int (unat (- 1 :: u32)))) (\<lambda>d. ix_over E n d))"

definition get_fees :: "interest_rate_calc \<Rightarrow> marginfi_fees" where
  "get_fees self =
     (let (protocol_fee_rate, protocol_fee_fixed) =
            (if irc_add_program_fees self
             then (irc_program_fee_rate self, irc_program_fee_fixed self)
             else (i80_zero, i80_zero))
      in \<lparr> fee_insurance_rate = irc_insurance_rate_fee self,
           fee_insurance_fixed = irc_insurance_fixed_fee self,
           fee_group_rate = irc_protocol_rate_fee self,
           fee_group_fixed = irc_protocol_fixed_fee self,
           fee_protocol_rate = protocol_fee_rate,
           fee_protocol_fixed = protocol_fee_fixed \<rparr>)"

text \<open>The last step \<open>start_y + scaled_delta\<close> is a native addition, as the subtractions are.\<close>

definition lerp ::
    "crates \<Rightarrow> i80f48 \<Rightarrow> i80f48 \<Rightarrow> i80f48 \<Rightarrow> i80f48 \<Rightarrow> i80f48 \<Rightarrow> i80f48 vres" where
  "lerp E start_x start_y end_x end_y target_x =
     (if end_x \<le> start_x then Ok start_y
      else if target_x < start_x then Err (math_err ''lerp target<start'')
      else if end_x < target_x then Err (math_err ''lerp target>end'')
      else if end_y < start_y then Err (math_err ''lerp end_y<start_y'')
      else
        and_then (ix_minus E end_x start_x) (\<lambda>delta_x.
        if delta_x = i80_zero then Ok start_y
        else
          and_then (ix_minus E target_x start_x) (\<lambda>offset.
          and_then (ix_over E offset delta_x) (\<lambda>proportion.
          and_then (ix_minus E end_y start_y) (\<lambda>delta_y.
          and_then (ok_or (ix_checked_mul E delta_y proportion) (math_err ''lerp mul''))
            (\<lambda>scaled_delta.
          or_panic (ix_add E start_y scaled_delta)))))))"

text \<open>The loop over the points with a utilization, then the last segment.\<close>

fun multipoint_loop ::
    "crates \<Rightarrow> i80f48 \<Rightarrow> i80f48 \<Rightarrow> i80f48 \<Rightarrow> i80f48 \<Rightarrow> rate_point list \<Rightarrow> i80f48 vres" where
  "multipoint_loop E hundred_rate ur prev_util prev_rate [] =
     lerp E prev_util prev_rate i80_one hundred_rate ur"
| "multipoint_loop E hundred_rate ur prev_util prev_rate (point # points) =
     and_then (util_from_u32 E (rp_util point)) (\<lambda>point_util.
     and_then (rate_from_u32 E (rp_rate point)) (\<lambda>point_rate.
     if ur \<le> point_util then lerp E prev_util prev_rate point_util point_rate ur
     else multipoint_loop E hundred_rate ur point_util point_rate points))"

definition interest_rate_multipoint_curve ::
    "crates \<Rightarrow> interest_rate_calc \<Rightarrow> i80f48 \<Rightarrow> i80f48 vres" where
  "interest_rate_multipoint_curve E self ur0 =
     and_then (rate_from_u32 E (irc_zero_util_rate self)) (\<lambda>zero_rate.
     and_then (rate_from_u32 E (irc_hundred_util_rate self)) (\<lambda>hundred_rate.
     let ur = min (max ur0 i80_zero) i80_one
     in multipoint_loop E hundred_rate ur i80_zero zero_rate
          (filter (\<lambda>p. rp_util p \<noteq> 0) (irc_points self))))"

definition interest_rate_curve :: "crates \<Rightarrow> interest_rate_calc \<Rightarrow> i80f48 \<Rightarrow> i80f48 vres" where
  "interest_rate_curve E self ur =
     (let optimal_ur = irc_optimal_utilization_rate self;
          plateau_ir = irc_plateau_interest_rate self;
          max_ir = irc_max_interest_rate self
      in if ur \<le> optimal_ur then
           let err = math_err ''legacy curve <= optimal''
           in and_then (ok_or (ix_checked_div E ur optimal_ur) err) (\<lambda>x.
              ok_or (ix_checked_mul E x plateau_ir) err)
         else
           let err = math_err ''legacy curve > optimal''
           in and_then (ix_minus E ur optimal_ur) (\<lambda>above.
              and_then (ix_minus E i80_one optimal_ur) (\<lambda>room.
              and_then (ok_or (ix_checked_div E above room) err) (\<lambda>x.
              and_then (ix_minus E max_ir plateau_ir) (\<lambda>slope.
              and_then (ok_or (ix_checked_mul E x slope) err) (\<lambda>y.
              ok_or (ix_checked_add E y plateau_ir) err))))))"

definition calc_fee_rate :: "crates \<Rightarrow> i80f48 \<Rightarrow> i80f48 \<Rightarrow> i80f48 \<Rightarrow> i80f48 vres" where
  "calc_fee_rate E base_rate rate_fees fixed_fees =
     (if rate_fees = i80_zero then Ok fixed_fees
      else
        and_then (ok_or (ix_checked_mul E base_rate rate_fees) (math_err ''calc_fee_rate'')) (\<lambda>x.
        ok_or (ix_checked_add E x fixed_fees) (math_err ''calc_fee_rate'')))"

definition calc_interest_rate ::
    "crates \<Rightarrow> interest_rate_calc \<Rightarrow> i80f48 \<Rightarrow> computed_interest_rates vres" where
  "calc_interest_rate E self utilization_ratio =
     (let fees = get_fees self
      in and_then (ok_or (ix_checked_add E (fee_insurance_rate fees) (fee_group_rate fees))
                     (math_err ''fee_ir'')) (\<lambda>r1.
         and_then (ok_or (ix_checked_add E r1 (fee_protocol_rate fees)) (math_err ''fee_ir''))
           (\<lambda>fee_ir.
         and_then (ok_or (ix_checked_add E (fee_insurance_fixed fees) (fee_group_fixed fees))
                     (math_err ''fee_fixed'')) (\<lambda>f1.
         and_then (ok_or (ix_checked_add E f1 (fee_protocol_fixed fees)) (math_err ''fee_fixed''))
           (\<lambda>fee_fixed.
         and_then
           (if irc_curve_type self = INTEREST_CURVE_LEGACY
            then interest_rate_curve E self utilization_ratio
            else if irc_curve_type self = INTEREST_CURVE_SEVEN_POINT
            then interest_rate_multipoint_curve E self utilization_ratio
            else Err (math_err ''unsupported curve type'')) (\<lambda>base_rate_apr.
         and_then (ok_or (ix_checked_mul E base_rate_apr utilization_ratio)
                     (math_err ''lending_rate_apr'')) (\<lambda>lending_rate_apr.
         and_then (ok_or (ix_checked_add E i80_one fee_ir) (math_err ''1+fee_ir'')) (\<lambda>one_fee.
         and_then (ok_or (ix_checked_mul E base_rate_apr one_fee) (math_err ''borrow*1+fee_ir''))
           (\<lambda>b1.
         and_then (ok_or (ix_checked_add E b1 fee_fixed) (math_err ''borrow+fee_fixed''))
           (\<lambda>borrowing_rate_apr.
         and_then (calc_fee_rate E base_rate_apr (fee_group_rate fees) (fee_group_fixed fees))
           (\<lambda>group_fee_apr.
         and_then (calc_fee_rate E base_rate_apr (fee_insurance_rate fees)
                     (fee_insurance_fixed fees)) (\<lambda>insurance_fee_apr.
         and_then (calc_fee_rate E base_rate_apr (fee_protocol_rate fees)
                     (fee_protocol_fixed fees)) (\<lambda>protocol_fee_apr.
         Ok \<lparr> cr_base_rate_apr = base_rate_apr, cr_lending_rate_apr = lending_rate_apr,
              cr_borrowing_rate_apr = borrowing_rate_apr, cr_group_fee_apr = group_fee_apr,
              cr_insurance_fee_apr = insurance_fee_apr,
              cr_protocol_fee_apr = protocol_fee_apr \<rparr>)))))))))))))"

section \<open>Accrual (\<open>math.rs\<close>)\<close>

definition calc_accrued_interest_payment_per_period ::
    "crates \<Rightarrow> i80f48 \<Rightarrow> u64 \<Rightarrow> i80f48 \<Rightarrow> i80f48 vres" where
  "calc_accrued_interest_payment_per_period E apr time_delta val =
     and_then (ix_num E (int (unat time_delta))) (\<lambda>t.
     and_then (ok_or (ix_checked_mul E apr t) (math_err ''ir_per_period'')) (\<lambda>x.
     and_then (seconds_per_year E) (\<lambda>year.
     and_then (ok_or (ix_checked_div E x year) (math_err ''ir_per_period'')) (\<lambda>ir_per_period.
     and_then (ok_or (ix_checked_add E i80_one ir_per_period) (math_err ''1+ir'')) (\<lambda>factor.
     ok_or (ix_checked_mul E val factor) (math_err ''accrued_interest mul''))))))"

record interest_rate_state_changes =
  ch_new_asset_share_value :: i80f48
  ch_new_liability_share_value :: i80f48

definition calc_interest_rate_accrual_state_changes ::
    "crates \<Rightarrow> u64 \<Rightarrow> i80f48 \<Rightarrow> i80f48 \<Rightarrow> interest_rate_calc \<Rightarrow> i80f48 \<Rightarrow> i80f48
      \<Rightarrow> interest_rate_state_changes vres" where
  "calc_interest_rate_accrual_state_changes E time_delta total_assets total_liabilities
       calc asset_share_value liability_share_value =
     and_then (ok_or (ix_checked_div E total_liabilities total_assets)
                 (math_err ''utilization_rate'')) (\<lambda>utilization_rate.
     and_then (calc_interest_rate E calc utilization_rate) (\<lambda>interest_rates.
     and_then (calc_accrued_interest_payment_per_period E (cr_lending_rate_apr interest_rates)
                 time_delta asset_share_value) (\<lambda>new_asset.
     and_then (calc_accrued_interest_payment_per_period E (cr_borrowing_rate_apr interest_rates)
                 time_delta liability_share_value) (\<lambda>new_liability.
     Ok \<lparr> ch_new_asset_share_value = new_asset,
          ch_new_liability_share_value = new_liability \<rparr>))))"

definition get_asset_amount :: "crates \<Rightarrow> marginfi_state \<Rightarrow> i80f48 \<Rightarrow> i80f48 vres" where
  "get_asset_amount E state shares =
     ok_or (ix_checked_mul E shares (mf_asset_share_value state)) (math_err ''get_asset_amount'')"

definition get_liability_amount :: "crates \<Rightarrow> marginfi_state \<Rightarrow> i80f48 \<Rightarrow> i80f48 vres" where
  "get_liability_amount E state shares =
     ok_or (ix_checked_mul E shares (mf_liability_share_value state))
       (math_err ''get_liability_amount'')"

record accrued_share_values =
  av_asset_share_value :: i80f48
  av_liability_share_value :: i80f48

text \<open>
  The plain subtraction of the timestamps cannot overflow there: both are positive and the second is
  smaller, so the wrapping difference is the exact one.
\<close>

definition accrue_share_values ::
    "crates \<Rightarrow> marginfi_state \<Rightarrow> i64 \<Rightarrow> accrued_share_values vres" where
  "accrue_share_values E state unix_timestamp =
     (let unchanged = \<lparr> av_asset_share_value = mf_asset_share_value state,
                        av_liability_share_value = mf_liability_share_value state \<rparr>
      in if sint (mf_last_update state) \<le> 0 \<or> sint unix_timestamp \<le> sint (mf_last_update state)
         then Ok unchanged
         else
           let time_delta = unix_timestamp - mf_last_update state
           in if time_delta = 0 then Ok unchanged
              else
                and_then (get_asset_amount E state (mf_total_asset_shares state)) (\<lambda>total_assets.
                and_then (get_liability_amount E state (mf_total_liability_shares state))
                  (\<lambda>total_liabilities.
                if total_assets = i80_zero \<or> total_liabilities = i80_zero then Ok unchanged
                else
                  and_then (calc_interest_rate_accrual_state_changes E time_delta total_assets
                              total_liabilities (create_interest_rate_calculator state)
                              (mf_asset_share_value state) (mf_liability_share_value state))
                    (\<lambda>changes.
                  Ok \<lparr> av_asset_share_value = ch_new_asset_share_value changes,
                       av_liability_share_value = ch_new_liability_share_value changes \<rparr>))))"

definition marginfi_pre_accrue :: "crates \<Rightarrow> marginfi_state \<Rightarrow> i64 \<Rightarrow> marginfi_state vres" where
  "marginfi_pre_accrue E state unix_timestamp =
     and_then (accrue_share_values E state unix_timestamp) (\<lambda>accrued.
     Ok (state\<lparr> mf_asset_share_value := av_asset_share_value accrued,
                mf_liability_share_value := av_liability_share_value accrued,
                mf_last_update := unix_timestamp \<rparr>))"

section \<open>Quotes (\<open>math.rs\<close>)\<close>

text \<open>\<open>x.to_bits().max(0) as u128\<close>.\<close>

definition raw_bits :: "i80f48 \<Rightarrow> u128" where
  "raw_bits x = (if i_val x < 0 then 0 else i_bits x)"

text \<open>\<open>x.floor().checked_to_num::<u64>().ok_or(err)\<close>.\<close>

definition ix_floor_u64 :: "crates \<Rightarrow> i80f48 \<Rightarrow> string \<Rightarrow> u64 vres" where
  "ix_floor_u64 E x label =
     and_then (or_panic (ix_floor E x)) (\<lambda>floored.
     ok_or (ix_checked_to_u64 E floored) (math_err label))"

definition marginfi_mint ::
    "crates \<Rightarrow> u64 \<Rightarrow> i80f48 \<Rightarrow> u64 \<Rightarrow> i80f48 \<Rightarrow> u64 vres" where
  "marginfi_mint E supply pre_balance net_amount shares_delta =
     (if supply = 0 then Ok net_amount
      else if pre_balance \<le> i80_zero then Err (math_err ''wrapper>0 pre-balance zero'')
      else
        and_then (ix_num E (int (unat supply))) (\<lambda>supply_f.
        and_then (ok_or (ix_checked_mul E shares_delta supply_f) (math_err ''wrap calc'')) (\<lambda>x.
        and_then (ok_or (ix_checked_div E x pre_balance) (math_err ''wrap calc'')) (\<lambda>y.
        ix_floor_u64 E y ''mint overflow''))))"

definition marginfi_check_capacity ::
    "crates \<Rightarrow> marginfi_state \<Rightarrow> i80f48 \<Rightarrow> i80f48 \<Rightarrow> unit vres" where
  "marginfi_check_capacity E state shares_delta asset_share_value =
     (if mf_deposit_limit state \<noteq> 0 \<and> mf_deposit_limit state \<noteq> u64_max then
        and_then (ok_or (ix_checked_add E (mf_total_asset_shares state) shares_delta)
                    (math_err ''total shares'')) (\<lambda>new_total_shares.
        and_then (ok_or (ix_checked_mul E new_total_shares asset_share_value)
                    (math_err ''get_asset_amount'')) (\<lambda>new_total_assets.
        and_then (ix_num E (int (unat (mf_deposit_limit state)))) (\<lambda>limit.
        if limit \<le> new_total_assets then Err (math_err ''capacity exceeded'') else Ok ())))
      else Ok ())"

definition marginfi_quote_deposit ::
    "crates \<Rightarrow> marginfi_state \<Rightarrow> i64 \<Rightarrow> wrapper_vault \<Rightarrow> global_config \<Rightarrow> u64 \<Rightarrow> u64 vres" where
  "marginfi_quote_deposit E state unix_timestamp wv gc amount =
     (if amount = 0 then Err (math_err ''zero amount'')
      else if mf_asset_tag state = ASSET_TAG_DRIFT
      then Err (math_err ''drift asset_tag unsupported'')
      else
        and_then
          (case mf_operational_state state of
             Bank_KilledByBankruptcy \<Rightarrow> Err (math_err ''bank killed'')
           | Bank_Paused \<Rightarrow> Err (math_err ''bank paused'')
           | Bank_ReduceOnly \<Rightarrow> Err (math_err ''bank reduce only'')
           | Bank_Operational \<Rightarrow> Ok ()) (\<lambda>_.
        and_then (mul_bps amount (gc_protocol_deposit_fee_bps gc)) (\<lambda>protocol_fee.
        and_then (mul_bps amount (wv_creator_deposit_fee_bps wv)) (\<lambda>creator_fee.
        and_then (sub_total_fee ''fee sum'' amount protocol_fee creator_fee) (\<lambda>net_amount.
        if net_amount = 0 then Err (math_err ''net zero'')
        else
          and_then (accrue_share_values E state unix_timestamp) (\<lambda>accrued.
          if av_asset_share_value accrued = i80_zero then Err (math_err ''share value zero'')
          else
            and_then (ix_num E (int (unat net_amount))) (\<lambda>deposit_value.
            and_then (ok_or (ix_checked_div E deposit_value (av_asset_share_value accrued))
                        (math_err ''get_asset_shares'')) (\<lambda>shares_delta.
            and_then (marginfi_check_capacity E state shares_delta (av_asset_share_value accrued))
              (\<lambda>_.
            let pre_balance = mf_cached_user_asset_shares state
            in if shares_delta \<le> i80_zero then Err (math_err ''shares zero'')
               else
                 and_then (marginfi_mint E (wv_wrapper_supply wv) pre_balance net_amount
                             shares_delta) (\<lambda>wrapper_to_mint.
                 if wrapper_to_mint = 0 then Err (math_err ''mint zero'')
                 else
                   and_then (settle_deposit E ''new shares total'' (raw_bits pre_balance)
                               (raw_bits pre_balance) (raw_bits shares_delta)
                               (wv_wrapper_supply wv) wrapper_to_mint) (\<lambda>_.
                   Ok wrapper_to_mint)))))))))))"

definition marginfi_quote_withdraw ::
    "crates \<Rightarrow> marginfi_state \<Rightarrow> i64 \<Rightarrow> wrapper_vault \<Rightarrow> u64 \<Rightarrow> u64 vres" where
  "marginfi_quote_withdraw E state unix_timestamp wv amount =
     (if amount = 0 then Err (math_err ''zero amount'')
      else if mf_asset_tag state = ASSET_TAG_DRIFT
      then Err (math_err ''drift asset_tag unsupported'')
      else
        and_then
          (case mf_operational_state state of
             Bank_KilledByBankruptcy \<Rightarrow> Err (math_err ''bank killed'')
           | Bank_Paused \<Rightarrow> Err (math_err ''bank paused'')
           | Bank_Operational \<Rightarrow> Ok ()
           | Bank_ReduceOnly \<Rightarrow> Ok ()) (\<lambda>_.
        if wv_wrapper_supply wv < amount then Err (math_err ''burn exceeds supply'')
        else if i_val (mf_cached_user_asset_shares state) \<le> 0
        then Err (math_err ''cached shares zero'')
        else
          let total_shares_raw = i_bits (mf_cached_user_asset_shares state)
          in and_then (ok_or (checked_mul (ucast amount) total_shares_raw) (math_err ''pro rata''))
               (\<lambda>prod.
             and_then (ok_or (checked_div prod (ucast (wv_wrapper_supply wv)))
                         (math_err ''pro rata'')) (\<lambda>shares_pro_rata_u128.
             if shares_pro_rata_u128 = 0 then Err (math_err ''pro rata zero'')
             else
               and_then (accrue_share_values E state unix_timestamp) (\<lambda>accrued.
               let shares_pro_rata = I80F48 shares_pro_rata_u128
               in and_then (ok_or (ix_checked_mul E shares_pro_rata (av_asset_share_value accrued))
                              (math_err ''get_asset_amount'')) (\<lambda>underlying.
                  and_then (ix_floor_u64 E underlying ''underlying overflow'')
                    (\<lambda>requested_underlying.
                  if requested_underlying = 0 then Err (math_err ''underlying zero'')
                  else
                    and_then (ok_or (ix_checked_mul E (mf_total_asset_shares state)
                                       (av_asset_share_value accrued)) (math_err ''total assets''))
                      (\<lambda>total_assets.
                    and_then (ok_or (ix_checked_mul E (mf_total_liability_shares state)
                                       (av_liability_share_value accrued))
                                (math_err ''total liabilities'')) (\<lambda>total_liabilities.
                    and_then (ix_num E (int (unat requested_underlying))) (\<lambda>withdrawn.
                    and_then (ok_or (ix_checked_sub E total_assets withdrawn)
                                (math_err ''insufficient liquidity'')) (\<lambda>post_assets.
                    if post_assets < total_liabilities then Err (math_err ''liabilities'')
                    else
                      and_then (settle_withdraw E ''new shares total'' total_shares_raw
                                  total_shares_raw shares_pro_rata_u128 (wv_wrapper_supply wv)
                                  amount) (\<lambda>_.
                      Ok requested_underlying))))))))))))"

section \<open>The refresh (\<open>update.rs\<close>)\<close>

text \<open>\<open>accounts.try_into()\<close> into an array of four entries.\<close>

definition try_four :: "'a list \<Rightarrow> ('a \<times> 'a \<times> 'a \<times> 'a) option" where
  "try_four xs = (case xs of [a, b, c, d] \<Rightarrow> Some (a, b, c, d) | _ \<Rightarrow> None)"

definition marginfi_required_pubkeys :: "crates \<Rightarrow> wrapper_vault \<Rightarrow> pubkey list" where
  "marginfi_required_pubkeys E wv =
     (let group = (case read_pubkey (wv_protocol_data wv) 0 ''marginfi.protocol_data.group'' of
                     Ok k \<Rightarrow> k | _ \<Rightarrow> pubkey_default)
      in [wv_source_pool wv, wv_source_position_pda wv, group, CLOCK_SYSVAR_ID E])"

definition marginfi_run ::
    "crates \<Rightarrow> wrapper_vault \<Rightarrow> accounts_cache \<Rightarrow> marginfi_state \<Rightarrow> i64 \<Rightarrow>
      (marginfi_state \<times> i64) \<times> unit vres" where
  "marginfi_run E wv cache s unix_timestamp =
     (let st0 = (s, unix_timestamp)
      in or_stop (read_pubkey (wv_protocol_data wv) 0 ''marginfi.protocol_data.group'') st0
           (\<lambda>group_pk.
         or_stop (get_accounts cache [wv_source_pool wv, wv_source_position_pda wv, group_pk,
                    CLOCK_SYSVAR_ID E]) st0 (\<lambda>accounts.
         or_stop (ok_or (try_four accounts) FailedToFetchMultipleAccountData) st0
           (\<lambda>(bank_opt, position_opt, group_opt, clock_opt).
         or_stop (ok_or bank_opt (NoAccountFound (EPubkey (wv_source_pool wv)))) st0
           (\<lambda>bank_acct.
         or_stop (marginfi_decode E (acc_data bank_acct)) st0 (\<lambda>b0.
         or_stop
           (case position_opt of
              Some acct \<Rightarrow>
                and_then (read_asset_shares_for_bank (acc_data acct) (wv_source_pool wv)) (\<lambda>shares.
                Ok (b0\<lparr> mf_cached_user_asset_shares := shares \<rparr>))
            | None \<Rightarrow> Ok b0) st0 (\<lambda>b1.
         or_stop (ok_or group_opt (NoAccountFound (EPubkey group_pk))) st0 (\<lambda>group_acct.
         or_stop (decode_group (acc_data group_acct)) st0 (\<lambda>group.
         let underlying_token_program =
               (if wv_protocol_data wv ! MARGINFI_PD_OFF_UNDERLYING_TOKEN_KIND = 1
                then TOKEN_2022_PROGRAM_ID E else SPL_TOKEN_PROGRAM_ID E);
             bank = b1\<lparr> mf_group_program_fees_enabled := mg_program_fees_enabled group,
               mf_group_program_fee_fixed := mg_program_fee_fixed group,
               mf_group_program_fee_rate := mg_program_fee_rate group,
               mf_underlying_token_program := underlying_token_program \<rparr>
         in or_stop (ok_or clock_opt (NoAccountFound (EPubkey (CLOCK_SYSVAR_ID E)))) st0
              (\<lambda>clock_acct.
            or_stop (clock_field (acc_data clock_acct) 32 40 ''clock.unix_timestamp'') st0 (\<lambda>ts.
            or_stop (marginfi_pre_accrue E bank ts) (bank, ts) (\<lambda>s'.
            ((s', ts), Ok ())))))))))))))"

section \<open>Account lists (\<open>account_metas.rs\<close>)\<close>

definition MARGINFI_PROGRAM_ID :: "crates \<Rightarrow> pubkey" where
  "MARGINFI_PROGRAM_ID E = from_str_const E ''MFv2hWf31Z9kbCa1snEPYctwafyhdvnV7FZnsebVacA''"

definition marginfi_build ::
    "crates \<Rightarrow> marginfi_state \<Rightarrow> wrapper_vault \<Rightarrow> pubkey \<Rightarrow> direction
      \<Rightarrow> account_meta list vres" where
  "marginfi_build E state wv user dir =
     (let wrapper_mint = wv_wrapper_mint wv;
          underlying_mint = wv_underlying_mint wv;
          marginfi_bank = wv_source_pool wv;
          data = wv_protocol_data wv;
          overpass = OVERPASS_PROGRAM_ID E;
          spl = SPL_TOKEN_PROGRAM_ID E
      in and_then (read_pubkey data 0 ''marginfi.protocol_data.group'') (\<lambda>marginfi_group.
         and_then (read_pubkey data 33 ''marginfi.protocol_data.liquidity_vault'')
           (\<lambda>marginfi_liquidity_vault.
         and_then (read_pubkey data 65 ''marginfi.protocol_data.liquidity_vault_authority'')
           (\<lambda>marginfi_liquidity_vault_authority.
         and_then (global_config_pda E overpass) (\<lambda>global_config.
         and_then (find_pda E [byte_str ''vault'', wrapper_mint] overpass) (\<lambda>wrapper_vault_pda.
         and_then (find_pda E [byte_str ''authority'', wrapper_mint] overpass) (\<lambda>vault_authority.
         let underlying_token_program =
               (if mf_underlying_token_program state = TOKEN_2022_PROGRAM_ID E
                then TOKEN_2022_PROGRAM_ID E else spl)
         in and_then (derive_ata E user underlying_mint underlying_token_program)
              (\<lambda>user_underlying_ata.
            and_then (derive_ata E user wrapper_mint spl) (\<lambda>user_wrapper_ata.
            and_then (derive_ata E vault_authority underlying_mint underlying_token_program)
              (\<lambda>vault_underlying_ata.
            let oracle_count = remaining_accounts_per_bank (mf_oracle_setup state) - 1;
                oracle_keys = filter (\<lambda>k. k \<noteq> pubkey_default)
                  (take (min oracle_count 5) (mf_oracle_keys state))
            in Ok ([meta_new user True,
                    meta_new_readonly global_config False,
                    meta_new wrapper_vault_pda False,
                    meta_new_readonly vault_authority False,
                    meta_new wrapper_mint False,
                    meta_new underlying_mint False,
                    meta_new user_wrapper_ata False,
                    meta_new user_underlying_ata False,
                    meta_new vault_underlying_ata False,
                    meta_new marginfi_bank False,
                    meta_new_readonly marginfi_group False,
                    meta_new (wv_source_position_pda wv) False,
                    meta_new marginfi_liquidity_vault False]
                   @ (if dir = Withdraw
                      then [meta_new_readonly marginfi_liquidity_vault_authority False] else [])
                   @ [meta_new_readonly (MARGINFI_PROGRAM_ID E) False,
                      meta_new_readonly underlying_token_program False,
                      meta_new_readonly underlying_token_program False,
                      meta_new_readonly spl False,
                      meta_new_readonly (ATA_PROGRAM_ID E) False,
                      meta_new_readonly (SYSTEM_PROGRAM_ID E) False]
                   @ (if underlying_token_program = TOKEN_2022_PROGRAM_ID E
                      then [meta_new_readonly underlying_mint False] else [])
                   @ (if dir = Withdraw
                      then meta_new_readonly marginfi_bank False
                        # map (\<lambda>k. meta_new_readonly k False) oracle_keys
                      else []))))))))))))"

definition marginfi_build_deposit ::
    "crates \<Rightarrow> marginfi_state \<Rightarrow> wrapper_vault \<Rightarrow> pubkey \<Rightarrow> account_meta list vres" where
  "marginfi_build_deposit E state wv user = marginfi_build E state wv user Deposit"

definition marginfi_build_withdraw ::
    "crates \<Rightarrow> marginfi_state \<Rightarrow> wrapper_vault \<Rightarrow> pubkey \<Rightarrow> account_meta list vres" where
  "marginfi_build_withdraw E state wv user = marginfi_build E state wv user Withdraw"

section \<open>The backend (\<open>mod.rs\<close>)\<close>

record marginfi =
  mb_state :: marginfi_state
  mb_unix_timestamp :: i64

definition MARGINFI_DEPOSIT_IX_DISCRIMINATOR :: bytes where
  "MARGINFI_DEPOSIT_IX_DISCRIMINATOR = [0x67, 0x07, 0xd7, 0x7b, 0xb2, 0xf4, 0xb9, 0xa3]"

definition MARGINFI_WITHDRAW_IX_DISCRIMINATOR :: bytes where
  "MARGINFI_WITHDRAW_IX_DISCRIMINATOR = [0xd5, 0x85, 0x8d, 0x5d, 0xf2, 0x3a, 0xf0, 0x85]"

definition marginfi_new :: "crates \<Rightarrow> marginfi" where
  "marginfi_new E = \<lparr> mb_state = marginfi_state_default E, mb_unix_timestamp = 0 \<rparr>"

definition marginfi_update ::
    "crates \<Rightarrow> marginfi \<Rightarrow> wrapper_vault \<Rightarrow> accounts_cache \<Rightarrow> marginfi \<times> unit vres" where
  "marginfi_update E self wv cache =
     (let ((s, ts), res) = marginfi_run E wv cache (mb_state self) (mb_unix_timestamp self)
      in (\<lparr> mb_state = s, mb_unix_timestamp = ts \<rparr>, res))"

definition marginfi_deposit_quote ::
    "crates \<Rightarrow> marginfi \<Rightarrow> wrapper_vault \<Rightarrow> global_config \<Rightarrow> u64 \<Rightarrow> u64 vres" where
  "marginfi_deposit_quote E self wv gc amount =
     marginfi_quote_deposit E (mb_state self) (mb_unix_timestamp self) wv gc amount"

definition marginfi_withdraw_quote :: "crates \<Rightarrow> marginfi \<Rightarrow> wrapper_vault \<Rightarrow> u64 \<Rightarrow> u64 vres" where
  "marginfi_withdraw_quote E self wv amount =
     marginfi_quote_withdraw E (mb_state self) (mb_unix_timestamp self) wv amount"

definition marginfi_build_deposit_ix ::
    "crates \<Rightarrow> marginfi \<Rightarrow> wrapper_vault \<Rightarrow> pubkey \<Rightarrow> u64 \<Rightarrow> u64 \<Rightarrow> instruction vres" where
  "marginfi_build_deposit_ix E self wv user in_amount min_out =
     and_then (marginfi_build_deposit E (mb_state self) wv user) (\<lambda>accounts.
     Ok \<lparr> ix_program_id = OVERPASS_PROGRAM_ID E, ix_accounts = accounts,
          ix_data = MARGINFI_DEPOSIT_IX_DISCRIMINATOR @ to_le_bytes 8 in_amount
            @ to_le_bytes 8 min_out \<rparr>)"

definition marginfi_build_withdraw_ix ::
    "crates \<Rightarrow> marginfi \<Rightarrow> wrapper_vault \<Rightarrow> pubkey \<Rightarrow> u64 \<Rightarrow> u64 \<Rightarrow> instruction vres" where
  "marginfi_build_withdraw_ix E self wv user in_amount min_out =
     and_then (marginfi_build_withdraw E (mb_state self) wv user) (\<lambda>accounts.
     Ok \<lparr> ix_program_id = OVERPASS_PROGRAM_ID E, ix_accounts = accounts,
          ix_data = MARGINFI_WITHDRAW_IX_DISCRIMINATOR @ to_le_bytes 8 in_amount
            @ to_le_bytes 8 min_out \<rparr>)"

definition marginfi_lookup_table_keys ::
    "crates \<Rightarrow> marginfi \<Rightarrow> wrapper_vault \<Rightarrow> pubkey list" where
  "marginfi_lookup_table_keys E self wv =
     [MARGINFI_PROGRAM_ID E, wv_source_pool wv, wv_source_position_pda wv,
      mf_liquidity_vault (mb_state self)]
     @ filter (\<lambda>k. k \<noteq> pubkey_default) (mf_oracle_keys (mb_state self))"

section \<open>The curves and the accrual\<close>

lemma i_val_bounds: "- (2 ^ 127) \<le> i_val x" "i_val x < 2 ^ 127"
  using sint_fits [of "i_bits x"] by (simp_all add: fits_def)

lemma obtain_i80:
  assumes "- (2 ^ 127) \<le> n" "n < 2 ^ 127"
  obtains c where "i_val c = n"
proof
  show "i_val (I80F48 (word_of_int n)) = n" using assms by (simp add: sint_word_of_int_fits fits_def)
qed

lemma le_i80: "a \<le> b \<longleftrightarrow> i_val a \<le> i_val b" and less_i80: "a < b \<longleftrightarrow> i_val a < i_val b"
  by (simp_all add: less_eq_i80f48_def less_i80f48_def)

lemma i80_eq_iff: "a = b \<longleftrightarrow> i_val a = i_val b"
  by simp

lemma i_val_one: "i_val i80_one = 2 ^ 48"
  by simp

lemma max_i80: "i_val (max a b) = max (i_val a) (i_val b)"
  and min_i80: "i_val (min a b) = min (i_val a) (i_val b)"
  by (simp_all add: max_def min_def le_i80)

lemma prod_div_le:
  fixes a b d :: int
  assumes "0 \<le> a" "0 \<le> b" "b \<le> d" "0 < d"
  shows "0 \<le> a * b div d" "a * b div d \<le> a"
proof -
  show "0 \<le> a * b div d" using assms by (simp add: pos_imp_zdiv_nonneg_iff)
  have "a * b div d \<le> a * d div d" using assms by (intro zdiv_mono1 mult_left_mono) auto
  with assms(4) show "a * b div d \<le> a" by simp
qed

context i80_laws
begin

lemma ix_num_eq:
  assumes "0 \<le> n" "n < 2 ^ 64"
  obtains c where "ix_from_num E n = Some c" "i_val c = n * 2 ^ 48"
proof -
  have "n * 2 ^ 48 < 2 ^ 64 * 2 ^ 48" using assms(2) by simp
  then have "n * 2 ^ 48 < 2 ^ 127" by simp
  then obtain c where "i_val c = n * 2 ^ 48"
    using obtain_i80 [of "n * 2 ^ 48"] assms(1) by fastforce
  with from_num that show thesis by blast
qed

lemma u64_num:
  obtains c where "ix_from_num E (int (unat (x :: u64))) = Some c" "i_val c = int (unat x) * 2 ^ 48"
  using ix_num_eq [of "int (unat x)"] unsigned_less [of x, where 'a = int] by auto

lemma u32_num:
  obtains c where "ix_from_num E (int (unat (x :: u32))) = Some c" "i_val c = int (unat x) * 2 ^ 48"
  using ix_num_eq [of "int (unat x)"] unsigned_less [of x, where 'a = int] by auto

lemma minus_eq:
  assumes "0 \<le> i_val a" "0 \<le> i_val b"
  obtains c where "ix_sub E a b = Some c" "i_val c = i_val a - i_val b"
proof -
  obtain c where "i_val c = i_val a - i_val b"
    by (rule obtain_i80 [of "i_val a - i_val b"])
      (use assms i_val_bounds [of a] i_val_bounds [of b] in linarith)+
  with op_sub that show thesis by blast
qed

text \<open>Interpolation stays between its end points and does not panic.\<close>

lemma lerp_cases:
  assumes nonneg: "0 \<le> i_val sx" "0 \<le> i_val sy" "0 \<le> i_val tx"
  shows "(\<exists>e. lerp E sx sy ex ey tx = Err e) \<or>
    (\<exists>r. lerp E sx sy ex ey tx = Ok r \<and> i_val sy \<le> i_val r \<and>
      i_val r \<le> max (i_val sy) (i_val ey))"
proof (cases "sx < ex \<and> sx \<le> tx \<and> tx \<le> ex \<and> sy \<le> ey")
  case False
  then show ?thesis by (auto simp: lerp_def not_less not_le)
next
  case True
  then have le: "i_val sx < i_val ex" "i_val sx \<le> i_val tx" "i_val tx \<le> i_val ex" "i_val sy \<le> i_val ey"
    by (simp_all add: le_i80 less_i80)
  obtain dx where dx: "ix_sub E ex sx = Some dx" "i_val dx = i_val ex - i_val sx"
    using minus_eq [of ex sx] nonneg le by auto
  obtain off where off: "ix_sub E tx sx = Some off" "i_val off = i_val tx - i_val sx"
    using minus_eq [of tx sx] nonneg by auto
  obtain dy where dy: "ix_sub E ey sy = Some dy" "i_val dy = i_val ey - i_val sy"
    using minus_eq [of ey sy] nonneg le by auto
  have prop_le: "0 \<le> i_val off * 2 ^ 48 div i_val dx" "i_val off * 2 ^ 48 div i_val dx \<le> 2 ^ 48"
    using prod_div_le [of "2 ^ 48" "i_val off" "i_val dx"] dx off le by (simp_all add: mult.commute)
  obtain p where p: "i_val p = i_val off * 2 ^ 48 div i_val dx"
    by (rule obtain_i80 [of "i_val off * 2 ^ 48 div i_val dx"]) (use prop_le in simp_all)
  have over: "ix_div E off dx = Some p" using op_div [OF _ _ p] off dx le by simp
  have sc_le: "0 \<le> i_val dy * i_val p div 2 ^ 48" "i_val dy * i_val p div 2 ^ 48 \<le> i_val dy"
    using prod_div_le [of "i_val dy" "i_val p" "2 ^ 48"] prop_le dy le p by simp_all
  obtain sc where sc: "i_val sc = i_val dy * i_val p div 2 ^ 48"
    by (rule obtain_i80 [of "i_val dy * i_val p div 2 ^ 48"])
      (use sc_le i_val_bounds [of dy] in linarith)+
  have mul: "ix_checked_mul E dy p = Some sc" using chk_mul [of dy p sc] dy le p prop_le sc by simp
  obtain r where r: "i_val r = i_val sy + i_val sc"
    by (rule obtain_i80 [of "i_val sy + i_val sc"])
      (use sc sc_le dy nonneg i_val_bounds [of ey] in linarith)+
  have "lerp E sx sy ex ey tx = Ok r"
    using True dx off dy over mul op_add [OF r] le
    by (auto simp: lerp_def not_less not_le less_i80 le_i80 i80_eq_iff [of dx])
  then show ?thesis using r sc sc_le dy by (auto simp: max_def)
qed

lemma util_from_u32_Ok:
  obtains c where "util_from_u32 E u = Ok c" "0 \<le> i_val c" "i_val c \<le> 2 ^ 48"
proof -
  obtain n where n: "ix_from_num E (int (unat u)) = Some n" "i_val n = int (unat u) * 2 ^ 48"
    by (rule u32_num)
  obtain d where d: "ix_from_num E (int (unat (- 1 :: u32))) = Some d"
    "i_val d = int (unat (- 1 :: u32)) * 2 ^ 48" by (rule u32_num)
  have "unat (- 1 :: u32) = 4294967295" using unat_minus_one [where 'a = 32] by simp
  moreover have "unat u < 4294967296" using unat_lt_32 [of u] by simp
  ultimately have ud: "int (unat u) \<le> int (unat (- 1 :: u32))" "0 < int (unat (- 1 :: u32))"
    by linarith+
  have bounds: "0 \<le> i_val n * 2 ^ 48 div i_val d" "i_val n * 2 ^ 48 div i_val d \<le> 2 ^ 48"
    using prod_div_le [of "2 ^ 48" "i_val n" "i_val d"] n d ud by (simp_all add: mult.commute)
  obtain c where c: "i_val c = i_val n * 2 ^ 48 div i_val d"
    by (rule obtain_i80 [of "i_val n * 2 ^ 48 div i_val d"]) (use bounds in simp_all)
  have "ix_div E n d = Some c" using op_div [OF _ _ c] n d ud by simp
  with n d c bounds that show thesis by (simp add: util_from_u32_def)
qed

lemma rate_from_u32_Ok:
  obtains c where "rate_from_u32 E u = Ok c" "0 \<le> i_val c" "i_val c \<le> 10 * 2 ^ 48"
proof -
  obtain x where x: "util_from_u32 E u = Ok x" "0 \<le> i_val x" "i_val x \<le> 2 ^ 48"
    by (rule util_from_u32_Ok)
  obtain ten where ten: "ix_from_num E 10 = Some ten" "i_val ten = 10 * 2 ^ 48"
    using ix_num_eq [of 10] by auto
  obtain c where c: "i_val c = i_val x * i_val ten div 2 ^ 48"
    by (rule obtain_i80 [of "i_val x * i_val ten div 2 ^ 48"]) (use x ten in simp_all)
  then have "ix_mul E x ten = Some c" using op_mul [OF _ _ c] x ten by simp
  moreover from x(1) have "rate_from_u32 E u = ix_times E x ten"
    using ten(1) by (auto simp: util_from_u32_def rate_from_u32_def)
  ultimately show thesis using that c x ten by simp
qed

lemma multipoint_loop_cases:
  assumes "0 \<le> i_val ur" "0 \<le> i_val px" "0 \<le> i_val py" "i_val py \<le> 10 * 2 ^ 48"
    "0 \<le> i_val h" "i_val h \<le> 10 * 2 ^ 48"
  shows "(\<exists>e. multipoint_loop E h ur px py ps = Err e) \<or>
    (\<exists>r. multipoint_loop E h ur px py ps = Ok r \<and> 0 \<le> i_val r \<and> i_val r \<le> 10 * 2 ^ 48)"
  using assms
proof (induction ps arbitrary: px py)
  case Nil
  with lerp_cases [of px py ur i80_one h] show ?case by auto
next
  case (Cons p ps)
  obtain x where x: "util_from_u32 E (rp_util p) = Ok x" "0 \<le> i_val x" by (rule util_from_u32_Ok)
  obtain y where y: "rate_from_u32 E (rp_rate p) = Ok y" "0 \<le> i_val y" "i_val y \<le> 10 * 2 ^ 48"
    by (rule rate_from_u32_Ok)
  show ?case
  proof (cases "ur \<le> x")
    case True
    with x y lerp_cases [of px py ur x y] Cons.prems show ?thesis by auto
  next
    case False
    with x y Cons.IH [of x y] Cons.prems show ?thesis by auto
  qed
qed

lemma multipoint_curve_cases:
  "(\<exists>e. interest_rate_multipoint_curve E c u = Err e) \<or>
   (\<exists>r. interest_rate_multipoint_curve E c u = Ok r \<and> 0 \<le> i_val r \<and> i_val r \<le> 10 * 2 ^ 48)"
proof -
  obtain z where z: "rate_from_u32 E (irc_zero_util_rate c) = Ok z" "0 \<le> i_val z" "i_val z \<le> 10 * 2 ^ 48"
    by (rule rate_from_u32_Ok)
  obtain h where h: "rate_from_u32 E (irc_hundred_util_rate c) = Ok h" "0 \<le> i_val h" "i_val h \<le> 10 * 2 ^ 48"
    by (rule rate_from_u32_Ok)
  have "0 \<le> i_val (min (max u i80_zero) i80_one)" by (simp add: min_i80 max_i80)
  with multipoint_loop_cases [of "min (max u i80_zero) i80_one" i80_zero z h] z h show ?thesis
    by (simp add: interest_rate_multipoint_curve_def)
qed

end

text \<open>A bank whose configured numbers are not negative and whose legacy curve is not decreasing.\<close>

definition wf_bank :: "marginfi_state \<Rightarrow> bool" where
  "wf_bank st \<longleftrightarrow>
     (let cfg = mf_interest_rate_config st
      in i80_zero \<le> mf_asset_share_value st \<and> i80_zero \<le> mf_liability_share_value st \<and>
         i80_zero \<le> mf_total_asset_shares st \<and> i80_zero \<le> mf_total_liability_shares st \<and>
         i80_zero \<le> ic_optimal_utilization_rate cfg \<and> ic_optimal_utilization_rate cfg \<le> i80_one \<and>
         i80_zero \<le> ic_plateau_interest_rate cfg \<and>
         ic_plateau_interest_rate cfg \<le> ic_max_interest_rate cfg \<and>
         i80_zero \<le> ic_insurance_fee_fixed_apr cfg \<and> i80_zero \<le> ic_insurance_ir_fee cfg \<and>
         i80_zero \<le> ic_protocol_fixed_fee_apr cfg \<and> i80_zero \<le> ic_protocol_ir_fee cfg \<and>
         i80_zero \<le> mf_group_program_fee_fixed st \<and> i80_zero \<le> mf_group_program_fee_rate st)"

context i80_laws
begin

lemma mul_nonneg:
  "ix_checked_mul E a b = Some c \<Longrightarrow> 0 \<le> i_val a \<Longrightarrow> 0 \<le> i_val b \<Longrightarrow> 0 \<le> i_val c"
  using chk_mul [of a b c] by (simp add: pos_imp_zdiv_nonneg_iff)

lemma div_nonneg:
  "ix_checked_div E a b = Some c \<Longrightarrow> 0 \<le> i_val a \<Longrightarrow> 0 \<le> i_val b \<Longrightarrow> 0 \<le> i_val c"
  using chk_div [of a b c] chk_div_zero [of b a]
  by (cases "i_val b = 0") (simp_all add: pos_imp_zdiv_nonneg_iff)

lemma add_nonneg:
  "ix_checked_add E a b = Some c \<Longrightarrow> 0 \<le> i_val a \<Longrightarrow> 0 \<le> i_val b \<Longrightarrow> 0 \<le> i_val c"
  by (simp add: chk_add)

lemma minus_Some:
  "ix_sub E a b = Some c \<Longrightarrow> 0 \<le> i_val a \<Longrightarrow> 0 \<le> i_val b \<Longrightarrow> i_val c = i_val a - i_val b"
  by (metis minus_eq option.inject)

lemmas nonneg_intros = mul_nonneg div_nonneg add_nonneg

lemma legacy_curve_nonneg:
  assumes "interest_rate_curve E c ur = Ok r" "0 \<le> i_val ur"
    and "0 \<le> i_val (irc_optimal_utilization_rate c)" "i_val (irc_optimal_utilization_rate c) \<le> 2 ^ 48"
    and "0 \<le> i_val (irc_plateau_interest_rate c)"
    and "i_val (irc_plateau_interest_rate c) \<le> i_val (irc_max_interest_rate c)"
  shows "0 \<le> i_val r"
proof (cases "ur \<le> irc_optimal_utilization_rate c")
  case True
  then show ?thesis using assms
    by (auto simp: interest_rate_curve_def Let_def intro: nonneg_intros)
next
  case False
  then obtain above room x slope y where
      above: "ix_sub E ur (irc_optimal_utilization_rate c) = Some above"
    and room: "ix_sub E i80_one (irc_optimal_utilization_rate c) = Some room"
    and x: "ix_checked_div E above room = Some x"
    and slope: "ix_sub E (irc_max_interest_rate c) (irc_plateau_interest_rate c) = Some slope"
    and y: "ix_checked_mul E x slope = Some y"
    and r: "ix_checked_add E y (irc_plateau_interest_rate c) = Some r"
    using assms(1) by (auto simp: interest_rate_curve_def Let_def)
  have "i_val above = i_val ur - i_val (irc_optimal_utilization_rate c)"
    using minus_Some [OF above] assms by simp
  then have "0 \<le> i_val above" using False by (simp add: le_i80 not_le)
  moreover have "0 \<le> i_val room" using minus_Some [OF room] assms by simp
  moreover have "0 \<le> i_val slope" using minus_Some [OF slope] assms by simp
  ultimately show ?thesis using x y r assms(5) nonneg_intros by meson
qed

lemma calc_interest_rate_nonneg:
  assumes "calc_interest_rate E c ur = Ok rates" "0 \<le> i_val ur"
    and "0 \<le> i_val (irc_optimal_utilization_rate c)" "i_val (irc_optimal_utilization_rate c) \<le> 2 ^ 48"
    and "0 \<le> i_val (irc_plateau_interest_rate c)"
    and "i_val (irc_plateau_interest_rate c) \<le> i_val (irc_max_interest_rate c)"
    and fees: "0 \<le> i_val (fee_insurance_rate (get_fees c))" "0 \<le> i_val (fee_insurance_fixed (get_fees c))"
      "0 \<le> i_val (fee_group_rate (get_fees c))" "0 \<le> i_val (fee_group_fixed (get_fees c))"
      "0 \<le> i_val (fee_protocol_rate (get_fees c))" "0 \<le> i_val (fee_protocol_fixed (get_fees c))"
  shows "0 \<le> i_val (cr_lending_rate_apr rates) \<and> 0 \<le> i_val (cr_borrowing_rate_apr rates)"
proof -
  obtain r1 fee_ir f1 fee_fixed base one_fee b1 lending borrowing g i p where
      ir: "ix_checked_add E (fee_insurance_rate (get_fees c)) (fee_group_rate (get_fees c)) = Some r1"
        "ix_checked_add E r1 (fee_protocol_rate (get_fees c)) = Some fee_ir"
    and fixed: "ix_checked_add E (fee_insurance_fixed (get_fees c)) (fee_group_fixed (get_fees c)) = Some f1"
        "ix_checked_add E f1 (fee_protocol_fixed (get_fees c)) = Some fee_fixed"
    and base: "(if irc_curve_type c = INTEREST_CURVE_LEGACY then interest_rate_curve E c ur
        else if irc_curve_type c = INTEREST_CURVE_SEVEN_POINT
        then interest_rate_multipoint_curve E c ur
        else Err (math_err ''unsupported curve type'')) = Ok base"
    and lend: "ix_checked_mul E base ur = Some lending"
    and borrow: "ix_checked_add E i80_one fee_ir = Some one_fee" "ix_checked_mul E base one_fee = Some b1"
      "ix_checked_add E b1 fee_fixed = Some borrowing"
    and rates: "\<lparr> cr_base_rate_apr = base, cr_lending_rate_apr = lending,
        cr_borrowing_rate_apr = borrowing, cr_group_fee_apr = g, cr_insurance_fee_apr = i,
        cr_protocol_fee_apr = p \<rparr> = rates"
    using assms(1) unfolding calc_interest_rate_def Let_def
    by (elim and_thenE ok_orE Ok_eqE) (rule that; assumption)
  have "0 \<le> i_val base"
    using base legacy_curve_nonneg [OF _ assms(2-6)] multipoint_curve_cases [of c ur]
    by (auto split: if_splits)
  moreover have "0 \<le> i_val fee_ir" using ir fees by (simp add: chk_add)
  moreover have "0 \<le> i_val fee_fixed" using fixed fees by (simp add: chk_add)
  moreover from calculation have "0 \<le> i_val b1"
    using borrow(1) by (intro mul_nonneg [OF borrow(2)]) (simp_all add: chk_add)
  ultimately show ?thesis
    using mul_nonneg [OF lend] add_nonneg [OF borrow(3)] assms(2) rates by auto
qed

text \<open>Interest for a rate and a value that are not negative does not lower the value.\<close>

lemma accrued_payment_ge:
  assumes "calc_accrued_interest_payment_per_period E apr dt v = Ok r" "0 \<le> i_val apr" "0 \<le> i_val v"
  shows "i_val v \<le> i_val r"
proof -
  obtain t where t: "ix_from_num E (int (unat dt)) = Some t" "i_val t = int (unat dt) * 2 ^ 48"
    by (rule u64_num)
  obtain year where year: "ix_from_num E 31536000 = Some year" "i_val year = 31536000 * 2 ^ 48"
    using ix_num_eq [of 31536000] by auto
  obtain x ir factor where x: "ix_checked_mul E apr t = Some x" and ir: "ix_checked_div E x year = Some ir"
    and factor: "ix_checked_add E i80_one ir = Some factor" and r: "ix_checked_mul E v factor = Some r"
    using assms(1) t year by (auto simp: calc_accrued_interest_payment_per_period_def seconds_per_year_def)
  have "0 \<le> i_val x" using mul_nonneg [OF x assms(2)] t by simp
  then have "0 \<le> i_val ir" using div_nonneg [OF ir] year by simp
  then have f: "2 ^ 48 \<le> i_val factor" using factor by (simp add: chk_add)
  have "i_val v * 2 ^ 48 div 2 ^ 48 \<le> i_val v * i_val factor div 2 ^ 48"
    using f assms(3) by (intro zdiv_mono1 mult_left_mono) auto
  moreover have "i_val r = i_val v * i_val factor div 2 ^ 48"
    using chk_mul [of v factor r] r assms(3) f by simp
  ultimately show ?thesis by simp
qed

lemma accrue_share_valuesE:
  assumes "accrue_share_values E st ts = Ok ac"
  obtains "ac = \<lparr> av_asset_share_value = mf_asset_share_value st,
      av_liability_share_value = mf_liability_share_value st \<rparr>"
  | dt assets liabs ch where
      "ix_checked_mul E (mf_total_asset_shares st) (mf_asset_share_value st) = Some assets"
      "ix_checked_mul E (mf_total_liability_shares st) (mf_liability_share_value st) = Some liabs"
      "calc_interest_rate_accrual_state_changes E dt assets liabs
        (create_interest_rate_calculator st) (mf_asset_share_value st)
        (mf_liability_share_value st) = Ok ch"
      "av_asset_share_value ac = ch_new_asset_share_value ch"
      "av_liability_share_value ac = ch_new_liability_share_value ch"
  using assms unfolding accrue_share_values_def Let_def get_asset_amount_def get_liability_amount_def
  by (auto split: if_splits intro: that)

lemma accrue_share_values_mono:
  assumes "wf_bank st" "accrue_share_values E st ts = Ok ac"
  shows "mf_asset_share_value st \<le> av_asset_share_value ac \<and>
    mf_liability_share_value st \<le> av_liability_share_value ac"
proof -
  note wf = assms(1) [unfolded wf_bank_def Let_def le_i80, simplified]
  from assms(2) show ?thesis
  proof (cases rule: accrue_share_valuesE)
    case 1
    then show ?thesis by simp
  next
    case (2 dt assets liabs ch)
    note amounts = 2(1,2) and ac = 2(4,5)
    let ?c = "create_interest_rate_calculator st"
    obtain ur rates where ur: "ix_checked_div E liabs assets = Some ur"
      and rates: "calc_interest_rate E ?c ur = Ok rates"
      and pay: "calc_accrued_interest_payment_per_period E (cr_lending_rate_apr rates) dt
          (mf_asset_share_value st) = Ok (ch_new_asset_share_value ch)"
        "calc_accrued_interest_payment_per_period E (cr_borrowing_rate_apr rates) dt
          (mf_liability_share_value st) = Ok (ch_new_liability_share_value ch)"
      using 2(3) by (auto simp: calc_interest_rate_accrual_state_changes_def)
    have "0 \<le> i_val assets" "0 \<le> i_val liabs" using amounts wf mul_nonneg by blast+
    then have "0 \<le> i_val ur" using ur div_nonneg by blast
    then have "0 \<le> i_val (cr_lending_rate_apr rates) \<and> 0 \<le> i_val (cr_borrowing_rate_apr rates)"
      by (rule calc_interest_rate_nonneg [OF rates])
        (use wf in \<open>simp_all add: create_interest_rate_calculator_def get_fees_def Let_def\<close>)
    with accrued_payment_ge [OF pay(1)] accrued_payment_ge [OF pay(2)] wf ac show ?thesis
      by (simp add: le_i80)
  qed
qed

end

section \<open>What a successful quote went through\<close>

lemma marginfi_quote_depositE:
  assumes "marginfi_quote_deposit E st ts wv gc a = Ok m"
  obtains pf cf net ac v delta where
    "a \<noteq> 0" "mul_bps a (gc_protocol_deposit_fee_bps gc) = Ok pf"
    "mul_bps a (wv_creator_deposit_fee_bps wv) = Ok cf"
    "sub_total_fee ''fee sum'' a pf cf = Ok net" "net \<noteq> 0"
    "accrue_share_values E st ts = Ok ac" "av_asset_share_value ac \<noteq> i80_zero"
    "ix_from_num E (int (unat net)) = Some v"
    "ix_checked_div E v (av_asset_share_value ac) = Some delta" "i80_zero < delta"
    "marginfi_mint E (wv_wrapper_supply wv) (mf_cached_user_asset_shares st) net delta = Ok m"
    "m \<noteq> 0"
    "settle_deposit E ''new shares total'' (raw_bits (mf_cached_user_asset_shares st))
       (raw_bits (mf_cached_user_asset_shares st)) (raw_bits delta) (wv_wrapper_supply wv) m = Ok ()"
  using assms unfolding marginfi_quote_deposit_def Let_def
  by (elim ok_elims) (rule that; (assumption | simp add: not_le))

lemma marginfi_quote_withdrawE:
  assumes "marginfi_quote_withdraw E st ts wv a = Ok out"
  obtains prod pr ac und assets liabs w post where
    "a \<noteq> 0" "a \<le> wv_wrapper_supply wv" "0 < i_val (mf_cached_user_asset_shares st)"
    "checked_mul (ucast a) (i_bits (mf_cached_user_asset_shares st)) = Some prod"
    "checked_div prod (ucast (wv_wrapper_supply wv)) = Some pr" "pr \<noteq> 0"
    "accrue_share_values E st ts = Ok ac"
    "ix_checked_mul E (I80F48 pr) (av_asset_share_value ac) = Some und"
    "ix_floor_u64 E und ''underlying overflow'' = Ok out" "out \<noteq> 0"
    "ix_checked_mul E (mf_total_asset_shares st) (av_asset_share_value ac) = Some assets"
    "ix_checked_mul E (mf_total_liability_shares st) (av_liability_share_value ac) = Some liabs"
    "ix_from_num E (int (unat out)) = Some w" "ix_checked_sub E assets w = Some post"
    "liabs \<le> post"
    "settle_withdraw E ''new shares total'' (i_bits (mf_cached_user_asset_shares st))
       (i_bits (mf_cached_user_asset_shares st)) pr (wv_wrapper_supply wv) a = Ok ()"
  using assms unfolding marginfi_quote_withdraw_def Let_def
  by (elim ok_elims) (rule that; (assumption | simp add: not_less not_le))

lemma raw_bits_pos: "0 < i_val x \<Longrightarrow> raw_bits x = i_bits x"
  by (simp add: raw_bits_def)

lemma int_bits:
  assumes "0 \<le> i_val x"
  shows "int (unat (i_bits x)) = i_val x"
proof -
  have "i_val x < 2 ^ 128" using i_val_bounds [of x] by simp
  with assms have "take_bit 128 (i_val x) = i_val x" by (simp add: take_bit_int_eq_self)
  then show ?thesis by (simp add: uint_sint)
qed

lemma bits_pos: "0 < i_val x \<Longrightarrow> 0 < unat (i_bits x)"
  using int_bits [of x] by linarith

lemma bits_below:
  assumes "0 \<le> i_val x"
  shows "unat (i_bits x) < 2 ^ 127"
proof -
  have "int (unat (i_bits x)) < int (2 ^ 127)"
    unfolding int_bits [OF assms] using i_val_bounds [of x] by simp
  then show ?thesis by (simp only: of_nat_less_iff)
qed

lemma i_val_of_bits:
  assumes "unat b < 2 ^ 127"
  shows "i_val (I80F48 b) = int (unat b)"
proof -
  have "int (unat b) < int (2 ^ 127)" using assms by (simp only: of_nat_less_iff)
  then have "uint b < 2 ^ 127" by simp
  then have "signed_take_bit 127 (uint b) = uint b"
    by (intro signed_take_bit_int_eq_self) (simp_all add: order.trans [of _ 0])
  then show ?thesis by (simp add: sint_uint)
qed

lemma floor_floor_le: "(n :: int) div 2 ^ 48 div 2 ^ 48 * 2 ^ 48 * 2 ^ 48 \<le> n"
proof -
  have "n div 2 ^ 48 div 2 ^ 48 * 2 ^ 48 \<le> n div 2 ^ 48" by simp
  then have "n div 2 ^ 48 div 2 ^ 48 * 2 ^ 48 * 2 ^ 48 \<le> n div 2 ^ 48 * 2 ^ 48"
    by (rule mult_right_mono) simp
  also have "\<dots> \<le> n" by simp
  finally show ?thesis .
qed

text \<open>Flooring a number that is not negative to an integer.\<close>

context i80_laws
begin

lemma from_u64: "ix_from_num E (int (unat (x :: u64))) = Some c \<Longrightarrow> i_val c = int (unat x) * 2 ^ 48"
  by (metis option.inject u64_num)

lemma ix_floor_u64_Ok:
  assumes "ix_floor_u64 E x label = Ok r" "0 \<le> i_val x"
  shows "int (unat r) = i_val x div 2 ^ 48"
proof -
  obtain f where f: "ix_floor E x = Some f" and r: "ix_checked_to_u64 E f = Some r"
    using assms(1) by (auto simp: ix_floor_u64_def)
  have fv: "i_val f = i_val x div 2 ^ 48 * 2 ^ 48" by (rule floor [OF f assms(2)])
  then have "0 \<le> i_val f" using assms(2) by (simp add: pos_imp_zdiv_nonneg_iff)
  with to_u64 [of f r] r fv show ?thesis by simp
qed

text \<open>Minting against a positive balance is the pro-rata floor, over the raw bits.\<close>

lemma marginfi_mint_Ok:
  assumes "marginfi_mint E supply pre net delta = Ok m" "supply \<noteq> 0" "0 < i_val delta"
  shows "0 < i_val pre \<and> unat m = unat (i_bits delta) * unat supply div unat (i_bits pre)"
proof -
  have pre: "0 < i_val pre"
    using assms(1,2) by (auto simp: marginfi_mint_def le_i80 split: if_splits)
  obtain s where s: "ix_from_num E (int (unat supply)) = Some s" "i_val s = int (unat supply) * 2 ^ 48"
    by (rule u64_num)
  obtain x y where x: "ix_checked_mul E delta s = Some x" and y: "ix_checked_div E x pre = Some y"
    and m: "ix_floor_u64 E y ''mint overflow'' = Ok m"
    using assms(1,2) s(1) by (auto simp: marginfi_mint_def split: if_splits)
  have xv: "i_val x = i_val delta * int (unat supply)"
    using chk_mul [of delta s x] x s assms(3) by simp
  have yv: "i_val y = i_val x * 2 ^ 48 div i_val pre"
    using chk_div [of x pre y] y pre xv assms(3) by simp
  have "0 \<le> i_val y" using xv yv pre assms(3) by (simp add: pos_imp_zdiv_nonneg_iff)
  then have "int (unat m) = i_val x * 2 ^ 48 div i_val pre div 2 ^ 48"
    using ix_floor_u64_Ok [OF m] yv by simp
  also have "\<dots> = i_val x * 2 ^ 48 div (i_val pre * 2 ^ 48)" by (subst zdiv_zmult2_eq) simp_all
  also have "\<dots> = i_val x div i_val pre" by simp
  finally have "int (unat m) = int (unat (i_bits delta) * unat supply div unat (i_bits pre))"
    using pre assms(3) by (simp only: xv zdiv_int of_nat_mult int_bits less_imp_le)
  with pre show ?thesis by (simp only: of_nat_eq_iff simp_thms)
qed

text \<open>The claim of a withdrawal: pro-rata shares and what they are worth.\<close>

lemma marginfi_redeem_Ok:
  assumes "0 < i_val held" "a \<le> supply"
    and "checked_mul (ucast a) (i_bits held) = Some prd" "checked_div prd (ucast (supply :: u64)) = Some pr"
    and "ix_checked_mul E (I80F48 pr) v = Some und" "ix_floor_u64 E und label = Ok out" "0 \<le> i_val v"
  shows "unat pr = unat a * unat (i_bits held) div unat supply"
    and "int (unat out) = int (unat pr) * i_val v div 2 ^ 48 div 2 ^ 48"
proof -
  show pr: "unat pr = unat a * unat (i_bits held) div unat supply"
    using assms(3,4) by (simp add: checked_mul_Some checked_div_Some)
  have "supply \<noteq> 0" using assms(4) by (auto simp: checked_div_Some)
  then have "unat pr \<le> unat (i_bits held)"
    unfolding pr using assms(2) by (intro redeem_le_held) (simp_all add: word_le_nat_alt unat_gt_0)
  also have "\<dots> < 2 ^ 127" using assms(1) by (intro bits_below) simp
  finally have prv: "i_val (I80F48 pr) = int (unat pr)" by (rule i_val_of_bits)
  have und: "i_val und = int (unat pr) * i_val v div 2 ^ 48"
    using chk_mul [of "I80F48 pr" v und] prv assms(5,7) by simp
  then have "0 \<le> i_val und" using assms(7) by (simp add: pos_imp_zdiv_nonneg_iff)
  from ix_floor_u64_Ok [OF assms(6) this] und
  show "int (unat out) = int (unat pr) * i_val v div 2 ^ 48 div 2 ^ 48" by simp
qed

end

lemma marginfi_pre_accrue_time: "marginfi_pre_accrue E b ts = Ok s \<Longrightarrow> mf_last_update s = ts"
  by (auto simp: marginfi_pre_accrue_def)

lemma i_val_eq_0: "i_val x = 0 \<longleftrightarrow> x = i80_zero"
  using i_val_inject [of x i80_zero] by simp

lemma int_div_mult_le: "0 < d \<Longrightarrow> (n :: int) div d * d \<le> n"
  by (simp flip: minus_mod_eq_div_mult)

lemma marginfi_run_Ok:
  "marginfi_run E wv cache s ts = ((s', ts'), Ok ()) \<Longrightarrow>
    \<exists>bank. marginfi_pre_accrue E bank ts' = Ok s'"
  unfolding marginfi_run_def Let_def case_prod_unfold by (elim or_stop_OkE) auto

interpretation marginfi_source: quoting_source "marginfi_deposit_quote E self" "marginfi_withdraw_quote E self"
  for E self
proof unfold_locales
  fix wv gc r a
  show "marginfi_deposit_quote E self wv gc 0 \<noteq> Ok r"
    by (simp add: marginfi_deposit_quote_def marginfi_quote_deposit_def)
  show "marginfi_withdraw_quote E self wv 0 \<noteq> Ok r"
    by (simp add: marginfi_withdraw_quote_def marginfi_quote_withdraw_def)
  show "r \<noteq> 0" if "marginfi_deposit_quote E self wv gc a = Ok r"
    using that unfolding marginfi_deposit_quote_def by (rule marginfi_quote_depositE)
  show "r \<noteq> 0" if "marginfi_withdraw_quote E self wv a = Ok r"
    using that unfolding marginfi_withdraw_quote_def by (rule marginfi_quote_withdrawE)
  show "unat (wv_wrapper_supply wv) + unat r < 2 ^ 64" if "marginfi_deposit_quote E self wv gc a = Ok r"
    using that unfolding marginfi_deposit_quote_def
    by (rule marginfi_quote_depositE) (blast dest: settle_deposit_fits)
  show "r \<le> a" if "marginfi_deposit_quote E self wv gc a = Ok r" "wv_wrapper_supply wv = 0"
    using that(1) unfolding marginfi_deposit_quote_def
    by (rule marginfi_quote_depositE)
      (use that(2) in \<open>auto simp: marginfi_mint_def sub_total_fee_Ok word_le_nat_alt\<close>)
  show "a \<le> wv_wrapper_supply wv" if "marginfi_withdraw_quote E self wv a = Ok r"
    using that unfolding marginfi_withdraw_quote_def by (rule marginfi_quote_withdrawE)
qed

text \<open>The instructions of the backend have the shape of a swap.\<close>

lemma marginfi_build_accounts:
  "marginfi_build E state wv user dir = Ok metas \<Longrightarrow>
   \<exists>rest. metas = meta_new user True # rest \<and> list_all (\<lambda>meta. \<not> am_is_signer meta) rest"
  unfolding marginfi_build_def Let_def
  by (elim ok_elims) (auto simp: list_all_iff)

interpretation marginfi_builder: swap_builder "OVERPASS_PROGRAM_ID E"
    MARGINFI_DEPOSIT_IX_DISCRIMINATOR MARGINFI_WITHDRAW_IX_DISCRIMINATOR
    "marginfi_build_deposit_ix E self" "marginfi_build_withdraw_ix E self" for E self
  by unfold_locales
    (auto simp: is_swap_ix_def MARGINFI_DEPOSIT_IX_DISCRIMINATOR_def
      MARGINFI_WITHDRAW_IX_DISCRIMINATOR_def marginfi_build_deposit_ix_def
      marginfi_build_withdraw_ix_def marginfi_build_deposit_def marginfi_build_withdraw_def
      dest!: marginfi_build_accounts)

section \<open>Properties\<close>

text \<open>
  The seven-point interest curve never panics, whatever points, rates and utilization it is given,
  and a rate it returns is between 0 and 10 (the scale of the stored rates, 1000 percent).
\<close>

theorem marginfi_multipoint_bounded:
  assumes "i80_laws E"
  shows "case interest_rate_multipoint_curve E calc u of
      Ok r \<Rightarrow> 0 \<le> i_val r \<and> i_val r \<le> 10 * 2 ^ 48
    | Err e \<Rightarrow> True
    | Panic \<Rightarrow> False"
  using i80_laws.multipoint_curve_cases [OF assms, of calc u] by auto

text \<open>
  C40. Interest never shrinks a share: on a bank whose stored numbers are not negative and whose legacy
  curve does not decrease, an accrual that succeeds lowers neither the asset nor the liability share
  value, on both curve types.
\<close>

theorem marginfi_accrual_monotone:
  assumes "i80_laws E" "wf_bank st" "accrue_share_values E st ts = Ok ac"
  shows "mf_asset_share_value st \<le> av_asset_share_value ac \<and>
    mf_liability_share_value st \<le> av_liability_share_value ac"
  using i80_laws.accrue_share_values_mono [OF assms] .

text \<open>
  A Marginfi refresh charges interest once: after a successful \<open>update\<close> the share values that a
  quote accrues, at the stored time, are the stored ones.
\<close>

theorem marginfi_refresh_accrues_once:
  assumes "marginfi_update E self wv cache = (self', Ok ())"
  shows "accrue_share_values E (mb_state self') (mb_unix_timestamp self') =
    Ok \<lparr> av_asset_share_value = mf_asset_share_value (mb_state self'),
         av_liability_share_value = mf_liability_share_value (mb_state self') \<rparr>"
proof -
  obtain bank where "marginfi_pre_accrue E bank (mb_unix_timestamp self') = Ok (mb_state self')"
    using assms marginfi_run_Ok by (fastforce simp: marginfi_update_def split: prod.splits)
  then have "mf_last_update (mb_state self') = mb_unix_timestamp self'"
    by (rule marginfi_pre_accrue_time)
  then show ?thesis by (simp add: accrue_share_values_def)
qed

text \<open>
  C1. A Marginfi withdrawal keeps the bank solvent and pays at most its claim: what is paid plus the
  bank's liabilities is at most its assets, the shares redeemed are at most the pro-rata part of the
  position, and the payment is at most their value, all at the accrued share values.
\<close>

theorem marginfi_withdraw_solvent:
  assumes "i80_laws E" "wf_bank st" "marginfi_quote_withdraw E st ts wv a = Ok out"
  shows "\<exists>ac assets liabs shares. accrue_share_values E st ts = Ok ac \<and>
    ix_checked_mul E (mf_total_asset_shares st) (av_asset_share_value ac) = Some assets \<and>
    ix_checked_mul E (mf_total_liability_shares st) (av_liability_share_value ac) = Some liabs \<and>
    int (unat out) * 2 ^ 48 + i_val liabs \<le> i_val assets \<and>
    unat (shares :: u128) * unat (wv_wrapper_supply wv)
      \<le> unat a * unat (i_bits (mf_cached_user_asset_shares st)) \<and>
    int (unat out) * 2 ^ 48 * 2 ^ 48 \<le> int (unat shares) * i_val (av_asset_share_value ac)"
  using assms(3)
proof (rule marginfi_quote_withdrawE)
  fix prod pr ac und assets liabs w post
  assume le: "a \<le> wv_wrapper_supply wv" and held: "0 < i_val (mf_cached_user_asset_shares st)"
    and prod: "checked_mul (ucast a) (i_bits (mf_cached_user_asset_shares st)) = Some prod"
    and pr: "checked_div prod (ucast (wv_wrapper_supply wv)) = Some pr"
    and ac: "accrue_share_values E st ts = Ok ac"
    and und: "ix_checked_mul E (I80F48 pr) (av_asset_share_value ac) = Some und"
    and out: "ix_floor_u64 E und ''underlying overflow'' = Ok out"
    and totals: "ix_checked_mul E (mf_total_asset_shares st) (av_asset_share_value ac) = Some assets"
      "ix_checked_mul E (mf_total_liability_shares st) (av_liability_share_value ac) = Some liabs"
    and w: "ix_from_num E (int (unat out)) = Some w" "ix_checked_sub E assets w = Some post"
    and post: "liabs \<le> post"
  have v: "0 \<le> i_val (av_asset_share_value ac)"
    using i80_laws.accrue_share_values_mono [OF assms(1,2) ac] assms(2)
    by (auto simp: wf_bank_def Let_def le_i80)
  note claim = i80_laws.marginfi_redeem_Ok [OF assms(1) held le prod pr und out v]
  have "unat pr * unat (wv_wrapper_supply wv)
      \<le> unat a * unat (i_bits (mf_cached_user_asset_shares st))"
    unfolding claim(1) by simp
  moreover have "int (unat out) * 2 ^ 48 * 2 ^ 48 \<le> int (unat pr) * i_val (av_asset_share_value ac)"
    unfolding claim(2) by (rule floor_floor_le)
  moreover have "int (unat out) * 2 ^ 48 + i_val liabs \<le> i_val assets"
    using i80_laws.from_u64 [OF assms(1) w(1)] w(2) post
    by (simp add: i80_laws.chk_sub [OF assms(1)] le_i80)
  ultimately show ?thesis using ac totals by blast
qed

text \<open>
  C3. A Marginfi deposit followed by a withdrawal of everything it minted never gives back more
  than the deposit after its fees: at a time already accrued and a share value that is not
  negative, the shares \<open>delta\<close> the bank credits are the net amount divided by the share value, and
  once they are added to the position a withdrawal of the minted \<open>m\<close> pays at most the net amount,
  which with the two fees makes up \<open>a\<close>, whatever happened to the bank's total shares (the position
  has no shares while the vault has no supply).
\<close>

theorem marginfi_round_trip:
  assumes "i80_laws E" and dep: "marginfi_quote_deposit E st ts wv gc a = Ok m"
    and accrued: "sint ts \<le> sint (mf_last_update st)" and v: "i80_zero \<le> mf_asset_share_value st"
    and first: "wv_wrapper_supply wv = 0 \<Longrightarrow> mf_cached_user_asset_shares st = i80_zero"
  shows "\<exists>net num delta. unat net + unat a * unat (gc_protocol_deposit_fee_bps gc) div 10000
      + unat a * unat (wv_creator_deposit_fee_bps wv) div 10000 = unat a \<and>
    ix_from_num E (int (unat net)) = Some num \<and>
    ix_checked_div E num (mf_asset_share_value st) = Some delta \<and> i80_zero < delta \<and>
    (\<forall>total out. marginfi_quote_withdraw E
        (st\<lparr> mf_cached_user_asset_shares :=
              I80F48 (i_bits (mf_cached_user_asset_shares st) + i_bits delta),
            mf_total_asset_shares := total \<rparr>) ts
        (wv\<lparr> wv_wrapper_supply := wv_wrapper_supply wv + m \<rparr>) m = Ok out \<longrightarrow> out \<le> net)"
  using dep
proof (rule marginfi_quote_depositE)
  fix pf cf net ac num delta
  let ?pre = "mf_cached_user_asset_shares st" and ?supply = "wv_wrapper_supply wv"
  let ?v = "mf_asset_share_value st"
  assume fees: "mul_bps a (gc_protocol_deposit_fee_bps gc) = Ok pf"
      "mul_bps a (wv_creator_deposit_fee_bps wv) = Ok cf"
    and net: "sub_total_fee ''fee sum'' a pf cf = Ok net"
    and ac: "accrue_share_values E st ts = Ok ac" "av_asset_share_value ac \<noteq> i80_zero"
    and num: "ix_from_num E (int (unat net)) = Some num"
    and delta: "ix_checked_div E num (av_asset_share_value ac) = Some delta" "i80_zero < delta"
    and mint: "marginfi_mint E ?supply ?pre net delta = Ok m" "m \<noteq> 0"
    and settle: "settle_deposit E ''new shares total'' (raw_bits ?pre) (raw_bits ?pre)
        (raw_bits delta) ?supply m = Ok ()"
  have dpos: "0 < i_val delta" using delta(2) by (simp add: less_i80)
  have ac_v: "av_asset_share_value ac = ?v" using ac(1) accrued by (auto simp: accrue_share_values_def)
  with ac(2) v have vpos: "0 < i_val ?v" by (auto simp: le_i80 order_le_less i_val_eq_0)
  have "i_val delta = int (unat net) * 2 ^ 48 * 2 ^ 48 div i_val ?v"
    using i80_laws.chk_div [OF assms(1), of num ?v delta] delta(1) ac_v vpos
      i80_laws.from_u64 [OF assms(1) num] by simp
  then have worth: "i_val delta * i_val ?v \<le> int (unat net) * 2 ^ 48 * 2 ^ 48"
    using int_div_mult_le [OF vpos] by (simp only:)
  have pre_bits: "?supply = 0 \<and> i_bits ?pre = 0 \<or>
      ?supply \<noteq> 0 \<and> 0 < i_val ?pre \<and> unat m = unat (i_bits delta) * unat ?supply div unat (i_bits ?pre)"
    using first i80_laws.marginfi_mint_Ok [OF assms(1) mint(1) _ dpos]
    by (cases "?supply = 0") simp_all
  then have raw: "raw_bits ?pre = i_bits ?pre" "raw_bits delta = i_bits delta"
    using dpos by (auto simp: raw_bits_def)
  have fits: "unat (i_bits ?pre) + unat (i_bits delta) < 2 ^ 128" "unat ?supply + unat m < 2 ^ 64"
    using settle_deposit_fits [OF settle] raw by simp_all
  let ?held = "I80F48 (i_bits ?pre + i_bits delta)"
  have sums: "unat (i_bits ?held) = unat (i_bits ?pre) + unat (i_bits delta)"
    "unat (?supply + m) = unat ?supply + unat m"
    using fits by (simp_all add: unat_word_ariths)
  have redeemed: "unat m * unat (i_bits ?held) div unat (?supply + m) \<le> unat (i_bits delta)"
    unfolding sums using pre_bits mint(2)
    by (auto simp: unat_gt_0 intro: mint_redeem_le dest: bits_pos)
  have "out \<le> net" if wd: "marginfi_quote_withdraw E
        (st\<lparr> mf_cached_user_asset_shares := ?held, mf_total_asset_shares := tot \<rparr>) ts
        (wv\<lparr> wv_wrapper_supply := ?supply + m \<rparr>) m = Ok out" for tot out
    using wd
  proof (rule marginfi_quote_withdrawE)
    fix prd pr ac' und assets liabs w post
    let ?st = "st\<lparr> mf_cached_user_asset_shares := ?held, mf_total_asset_shares := tot \<rparr>"
    let ?wv = "wv\<lparr> wv_wrapper_supply := ?supply + m \<rparr>"
    assume le: "m \<le> wv_wrapper_supply ?wv" and held: "0 < i_val (mf_cached_user_asset_shares ?st)"
      and prd: "checked_mul (ucast m) (i_bits (mf_cached_user_asset_shares ?st)) = Some prd"
      and pr: "checked_div prd (ucast (wv_wrapper_supply ?wv)) = Some pr"
      and ac': "accrue_share_values E ?st ts = Ok ac'"
      and und: "ix_checked_mul E (I80F48 pr) (av_asset_share_value ac') = Some und"
      and out: "ix_floor_u64 E und ''underlying overflow'' = Ok out"
    have ac'_v: "av_asset_share_value ac' = ?v"
      using ac' accrued by (auto simp: accrue_share_values_def)
    note claim = i80_laws.marginfi_redeem_Ok [OF assms(1) held le prd pr und out,
        unfolded ac'_v, OF less_imp_le [OF vpos]]
    have "unat pr \<le> unat (i_bits delta)" using claim(1) redeemed by simp
    then have "int (unat pr) \<le> i_val delta" using int_bits [of delta] dpos by linarith
    then have "int (unat pr) * i_val ?v \<le> i_val delta * i_val ?v"
      using vpos by (intro mult_right_mono) simp_all
    also note worth
    finally have "int (unat out) \<le> int (unat net) * 2 ^ 48 * 2 ^ 48 div 2 ^ 48 div 2 ^ 48"
      unfolding claim(2) by (intro zdiv_mono1) simp_all
    then have "int (unat out) \<le> int (unat net)" by simp
    then show "out \<le> net" by (simp only: of_nat_le_iff word_le_nat_alt)
  qed
  moreover from net fees have "unat net + unat a * unat (gc_protocol_deposit_fee_bps gc) div 10000
      + unat a * unat (wv_creator_deposit_fee_bps wv) div 10000 = unat a"
    by (simp add: sub_total_fee_Ok mul_bps_Ok)
  ultimately show ?thesis using num delta [unfolded ac_v] by blast
qed

section \<open>Concrete banks\<close>

definition marginfi_sample :: marginfi_state where
  "marginfi_sample = (marginfi_state_default std_crates)\<lparr> mf_asset_share_value := I80F48 (3 * 2 ^ 47),
     mf_liability_share_value := i80_one, mf_total_asset_shares := I80F48 (1000000 * 2 ^ 48),
     mf_total_liability_shares := I80F48 (500000 * 2 ^ 48), mf_last_update := 5,
     mf_operational_state := Bank_Operational,
     mf_cached_user_asset_shares := I80F48 (1000 * 2 ^ 48) \<rparr>"

definition marginfi_vault_sample :: wrapper_vault where
  "marginfi_vault_sample = vault_sample\<lparr> wv_wrapper_supply := 2000 \<rparr>"

lemmas marginfi_eval = marginfi_sample_def marginfi_state_default_def marginfi_vault_sample_def
  vault_sample_def config_sample_def marginfi_quote_deposit_def marginfi_quote_withdraw_def
  ASSET_TAG_DRIFT_def accrue_share_values_def marginfi_check_capacity_def marginfi_mint_def
  ix_floor_u64_def raw_bits_def le_i80 less_i80

lemma marginfi_sample_deposit:
  "marginfi_quote_deposit std_crates marginfi_sample 5 marginfi_vault_sample config_sample 100000
    = Ok 133066"
  by (simp add: marginfi_eval arith_eval signed_of_int)

lemma marginfi_sample_withdraw:
  "marginfi_quote_withdraw std_crates marginfi_sample 5 marginfi_vault_sample 10 = Ok 7"
  by (simp add: marginfi_eval arith_eval)

lemma marginfi_sample_wf: "wf_bank marginfi_sample"
  by (simp add: wf_bank_def marginfi_sample_def marginfi_state_default_def le_i80
      interest_rate_config_default_def)

lemma marginfi_live_withdraw:
  "marginfi_quote_withdraw std_crates
      (marginfi_sample\<lparr> mf_cached_user_asset_shares := I80F48 (1000 * 2 ^ 48 + 18727468450482312533),
         mf_total_asset_shares := I80F48 (1000000 * 2 ^ 48 + 18727468450482312533) \<rparr>) 5
      (marginfi_vault_sample\<lparr> wv_wrapper_supply := 2000 + 133066 \<rparr>) 133066 = Ok 99799"
  by (simp add: marginfi_eval arith_eval)

lemma marginfi_live_shares:
  assumes "unat (net :: u64) + unat (100000 :: u64) * unat (gc_protocol_deposit_fee_bps config_sample) div 10000
      + unat (100000 :: u64) * unat (wv_creator_deposit_fee_bps marginfi_vault_sample) div 10000
      = unat (100000 :: u64)"
    and "ix_from_num std_crates (int (unat net)) = Some num"
    and "ix_checked_div std_crates num (mf_asset_share_value marginfi_sample) = Some delta"
  shows "net = 99800 \<and> i_bits delta = 18727468450482312533"
proof -
  have "unat net = 99800"
    using assms(1) by (simp add: config_sample_def marginfi_vault_sample_def vault_sample_def)
  then have "net = (99800 :: u64)" by (intro word_unat_eq_iff [THEN iffD2]) simp
  with assms(2,3) show ?thesis by (auto simp: marginfi_eval arith_eval)
qed

lemma marginfi_round_trip_witness:
  "\<exists>net out. marginfi_quote_withdraw std_crates
      (marginfi_sample\<lparr> mf_cached_user_asset_shares := I80F48 (1000 * 2 ^ 48 + 18727468450482312533),
         mf_total_asset_shares := I80F48 (1000000 * 2 ^ 48 + 18727468450482312533) \<rparr>) 5
      (marginfi_vault_sample\<lparr> wv_wrapper_supply := 2000 + 133066 \<rparr>) 133066 = Ok out \<and>
    net = 99800 \<and> out \<le> net"
proof -
  have "sint (5 :: i64) \<le> sint (mf_last_update marginfi_sample)"
    "i80_zero \<le> mf_asset_share_value marginfi_sample"
    "wv_wrapper_supply marginfi_vault_sample = 0 \<Longrightarrow>
      mf_cached_user_asset_shares marginfi_sample = i80_zero"
    by (simp_all add: marginfi_sample_def marginfi_vault_sample_def le_i80)
  from marginfi_round_trip [OF std_i80.i80_laws_axioms marginfi_sample_deposit this]
  obtain net num delta where
      d: "unat (net :: u64) + unat (100000 :: u64) * unat (gc_protocol_deposit_fee_bps config_sample) div 10000
          + unat (100000 :: u64) * unat (wv_creator_deposit_fee_bps marginfi_vault_sample) div 10000
          = unat (100000 :: u64)"
        "ix_from_num std_crates (int (unat net)) = Some num"
        "ix_checked_div std_crates num (mf_asset_share_value marginfi_sample) = Some delta"
    and all: "\<forall>total out. marginfi_quote_withdraw std_crates
        (marginfi_sample\<lparr> mf_cached_user_asset_shares :=
            I80F48 (i_bits (mf_cached_user_asset_shares marginfi_sample) + i_bits delta),
          mf_total_asset_shares := total \<rparr>) 5
        (marginfi_vault_sample\<lparr> wv_wrapper_supply :=
          wv_wrapper_supply marginfi_vault_sample + 133066 \<rparr>) 133066 = Ok out \<longrightarrow> out \<le> net"
    by blast
  have held: "i_bits (mf_cached_user_asset_shares marginfi_sample) = 1000 * 2 ^ 48"
    "wv_wrapper_supply marginfi_vault_sample = 2000"
    by (simp_all add: marginfi_sample_def marginfi_vault_sample_def)
  from all marginfi_live_withdraw marginfi_live_shares [OF d] show ?thesis
    unfolding held by metis
qed

lemma marginfi_withdraw_solvent_witness:
  "\<exists>assets liabs. (7 :: int) * 2 ^ 48 + i_val liabs \<le> i_val assets \<and>
    ix_checked_mul std_crates (I80F48 (1000000 * 2 ^ 48)) (I80F48 (3 * 2 ^ 47)) = Some assets"
  using marginfi_withdraw_solvent [OF std_i80.i80_laws_axioms marginfi_sample_wf marginfi_sample_withdraw]
  by (auto simp: accrue_share_values_def marginfi_sample_def marginfi_state_default_def)

lemma marginfi_multipoint_bounded_witness:
  "interest_rate_multipoint_curve std_crates (create_interest_rate_calculator marginfi_sample) i80_one \<noteq> Panic"
  using marginfi_multipoint_bounded [OF std_i80.i80_laws_axioms,
      of "create_interest_rate_calculator marginfi_sample" i80_one]
  by auto

lemma marginfi_accrual_monotone_witness:
  "\<exists>ac. accrue_share_values std_crates marginfi_sample 5 = Ok ac \<and> I80F48 (3 * 2 ^ 47) \<le> av_asset_share_value ac"
proof -
  have "\<exists>ac. accrue_share_values std_crates marginfi_sample 5 = Ok ac"
    by (simp add: accrue_share_values_def marginfi_sample_def)
  then obtain ac where ac: "accrue_share_values std_crates marginfi_sample 5 = Ok ac" by blast
  from marginfi_accrual_monotone [OF std_i80.i80_laws_axioms marginfi_sample_wf ac] ac
  show ?thesis by (auto simp: marginfi_sample_def)
qed

definition marginfi_cache_sample :: accounts_cache where
  "marginfi_cache_sample =
     (let acc = (\<lambda>data. Some \<lparr> acc_data = data, acc_owner = pubkey_default \<rparr>)
      in \<lparr> get_account = (\<lambda>k. Ok None),
           get_accounts = (\<lambda>ks. Ok [acc (BANK_DISCRIMINATOR @ replicate 1856 0), None,
             acc (MARGINFI_GROUP_DISCRIMINATOR @ replicate 1056 0), acc (replicate 40 0)]) \<rparr>)"

lemma marginfi_refresh_accrues_once_witness:
  "\<exists>self'. marginfi_update std_crates (marginfi_new std_crates) vault_sample marginfi_cache_sample
      = (self', Ok ()) \<and>
    is_ok (accrue_share_values std_crates (mb_state self') (mb_unix_timestamp self'))"
proof -
  have "\<exists>self'. marginfi_update std_crates (marginfi_new std_crates) vault_sample marginfi_cache_sample
      = (self', Ok ())"
    by (simp add: marginfi_update_def marginfi_run_def marginfi_cache_sample_def marginfi_new_def
        marginfi_decode_def BANK_LEN_def BANK_DISCRIMINATOR_def read_eqs slice_def get_slice_def
        index_at_def read_wrapped_i80f48_def bank_operational_state_from_u8_def read_rate_points_def
        upt_conv_Cons try_four_def decode_group_def MARGINFI_GROUP_LEN_def read_u32_def read_field_eq
        MARGINFI_GROUP_DISCRIMINATOR_def clock_field_def try_array_def marginfi_pre_accrue_def
        accrue_share_values_def vault_sample_def Let_def)
  then obtain self' where u: "marginfi_update std_crates (marginfi_new std_crates) vault_sample
      marginfi_cache_sample = (self', Ok ())" by blast
  with marginfi_refresh_accrues_once [OF u] show ?thesis by auto
qed

end
