(* ===== verification/Lulo.thy ===== *)
theory Lulo
  imports Share_Math
begin

text \<open>
  The Lulo backend (\<open>src/src/your_venue/lulo\<close>): the pool and pool-user decoders, the value of a
  protected position less its referral fee, the quotes, the refresh, the account lists and the
  backend object. The 256-bit arithmetic of a position's profit is a parameter (\<open>uint_laws\<close>).
\<close>

section \<open>Accounts (\<open>state.rs\<close>)\<close>

record lulo_state =
  lu_halted_flag :: u8
  lu_boosted_only_halted_flag :: u8
  lu_coverage_float_bps :: u16
  lu_protected_total_supply :: u64
  lu_regular_total_supply :: u64
  lu_regular_amount :: u64
  lu_protected_amount :: u64
  lu_deposit_limit :: u64
  lu_total_liquidity :: u64
  lu_basis_q60 :: u128
  lu_charged_q60 :: u128
  lu_avg_q60 :: u128
  lu_ref_bps :: u16

definition lulo_state_default :: lulo_state where
  "lulo_state_default =
     \<lparr> lu_halted_flag = 0, lu_boosted_only_halted_flag = 0, lu_coverage_float_bps = 0,
       lu_protected_total_supply = 0, lu_regular_total_supply = 0, lu_regular_amount = 0,
       lu_protected_amount = 0, lu_deposit_limit = 0, lu_total_liquidity = 0, lu_basis_q60 = 0,
       lu_charged_q60 = 0, lu_avg_q60 = 0, lu_ref_bps = 0 \<rparr>"

definition MIN_BYTES_FOR_QUOTE :: nat where "MIN_BYTES_FOR_QUOTE = 216"
definition POOL_USER_PROTECTED_AVG_PRICE :: nat where "POOL_USER_PROTECTED_AVG_PRICE = 96"
definition POOL_USER_PROTECTED_CHARGED_PRICE :: nat where
  "POOL_USER_PROTECTED_CHARGED_PRICE = 112"
definition POOL_USER_REFERRAL_FEE_BPS :: nat where "POOL_USER_REFERRAL_FEE_BPS = 160"

definition lulo_decode :: "bytes \<Rightarrow> lulo_state vres" where
  "lulo_decode data =
     (if length data < MIN_BYTES_FOR_QUOTE then Err (deser_err ''lulo pool: length'')
      else
        and_then (read_u8 data 13 ''lulo.halted_flag'') (\<lambda>halted_flag.
        and_then (read_u8 data 14 ''lulo.boosted_only_halted_flag'') (\<lambda>boosted_only_halted_flag.
        and_then (read_u16 data 22 ''lulo.coverage_float_bps'') (\<lambda>coverage_float_bps.
        and_then (read_u64 data 128 ''lulo.protected_amount'') (\<lambda>protected_amount.
        and_then (read_u64 data 56 ''lulo.protected_total_supply'') (\<lambda>protected_total_supply.
        and_then (read_u64 data 64 ''lulo.regular_total_supply'') (\<lambda>regular_total_supply.
        and_then (read_u64 data 120 ''lulo.regular_amount'') (\<lambda>regular_amount.
        and_then (read_u64 data 136 ''lulo.deposit_limit'') (\<lambda>deposit_limit.
        and_then (read_u64 data 208 ''lulo.total_liquidity'') (\<lambda>total_liquidity.
        Ok \<lparr> lu_halted_flag = halted_flag,
             lu_boosted_only_halted_flag = boosted_only_halted_flag,
             lu_coverage_float_bps = coverage_float_bps,
             lu_protected_total_supply = protected_total_supply,
             lu_regular_total_supply = regular_total_supply, lu_regular_amount = regular_amount,
             lu_protected_amount = protected_amount, lu_deposit_limit = deposit_limit,
             lu_total_liquidity = total_liquidity, lu_basis_q60 = 0, lu_charged_q60 = 0,
             lu_avg_q60 = 0, lu_ref_bps = 0 \<rparr>))))))))))"

definition decode_charged_avg_q60 :: "bytes \<Rightarrow> (u128 \<times> u128) vres" where
  "decode_charged_avg_q60 data =
     and_then (read_u128 data POOL_USER_PROTECTED_CHARGED_PRICE ''lulo.pool_user.charged_price'')
       (\<lambda>charged.
     and_then (read_u128 data POOL_USER_PROTECTED_AVG_PRICE ''lulo.pool_user.avg_price'') (\<lambda>avg.
     Ok (charged, avg)))"

definition decode_basis_q60 :: "bytes \<Rightarrow> u128 vres" where
  "decode_basis_q60 data =
     and_then (read_u128 data POOL_USER_PROTECTED_CHARGED_PRICE ''lulo.pool_user.charged_price'')
       (\<lambda>charged.
     if charged \<noteq> 0 then Ok charged
     else read_u128 data POOL_USER_PROTECTED_AVG_PRICE ''lulo.pool_user.avg_price'')"

definition decode_ref_bps :: "bytes \<Rightarrow> u16 vres" where
  "decode_ref_bps data = read_u16 data POOL_USER_REFERRAL_FEE_BPS ''lulo.referrer.fee_bps''"

section \<open>The value of a position (\<open>math.rs\<close>)\<close>

definition Q60_SHIFT :: nat where "Q60_SHIFT = 60"

text \<open>
  The profit of \<open>lp\<close> shares over their cost basis. \<open>low_u128\<close> drops the upper half of the 256-bit
  quotient before the range check.
\<close>

definition lulo_cpos :: "crates \<Rightarrow> u64 \<Rightarrow> u64 \<Rightarrow> u128 \<Rightarrow> u128 \<Rightarrow> u64 vres" where
  "lulo_cpos E pa pts lp basis_q60 =
     (if pts = 0 \<or> pa = 0 \<or> lp = 0 then Ok 0
      else
        let q60 = u256_shl E 1 Q60_SHIFT
        in and_then (or_panic (u256_mul E (u256_of pa) q60)) (\<lambda>pa_q60.
           and_then (or_panic (u256_mul E (u256_of basis_q60) (u256_of pts))) (\<lambda>basis_pts.
           and_then
             (if pa_q60 \<le> basis_pts then Ok 0 else or_panic (u256_sub E pa_q60 basis_pts))
             (\<lambda>gain_q60.
           and_then (or_panic (u256_mul E gain_q60 (u256_of lp))) (\<lambda>num.
           and_then (or_panic (u256_mul E (u256_of pts) q60)) (\<lambda>den.
           and_then (or_panic (u256_div E num den)) (\<lambda>profit.
           ok_or (try_u64 (ucast profit :: u128)) (math_err ''lulo profit overflow''))))))))"

definition fee_from_profit :: "crates \<Rightarrow> u64 \<Rightarrow> u16 \<Rightarrow> u64 vres" where
  "fee_from_profit E profit_usdc ref_bps =
     and_then (ok_or (checked_mul (ucast profit_usdc :: u128) (ucast ref_bps))
                 (math_err ''lulo fee mul'')) (\<lambda>pb.
     if pb = 0 then Ok 0
     else and_then (plain_sub (overflow_checks E) pb 1) (\<lambda>less. Ok (ucast (less div 10000))))"

definition position_fee_usdc ::
    "crates \<Rightarrow> u64 \<Rightarrow> u64 \<Rightarrow> u128 \<Rightarrow> u128 \<Rightarrow> u128 \<Rightarrow> u128 \<Rightarrow> u16 \<Rightarrow> u64 vres" where
  "position_fee_usdc E pa pts lp_a old_lp charged_q60 avg_q60 ref_bps =
     and_then (lulo_cpos E pa pts lp_a charged_q60) (\<lambda>a.
     and_then (lulo_cpos E pa pts old_lp avg_q60) (\<lambda>b.
     fee_from_profit E (min a b) ref_bps))"

definition lulo_lp_value ::
    "crates \<Rightarrow> u64 \<Rightarrow> u64 \<Rightarrow> u128 \<Rightarrow> u128 \<Rightarrow> u128 \<Rightarrow> u16 \<Rightarrow> u64 vres" where
  "lulo_lp_value E pa pts old_lp charged_q60 avg_q60 ref_bps =
     (if pts = 0 \<or> pa = 0 \<or> old_lp = 0 then Ok 0
      else
        and_then (position_fee_usdc E pa pts old_lp old_lp charged_q60 avg_q60 ref_bps)
          (\<lambda>fee_usdc.
        and_then (ok_or (case checked_mul old_lp (ucast pa) of
                           None \<Rightarrow> None | Some x \<Rightarrow> checked_div x (ucast pts))
                    (math_err ''lulo gross'')) (\<lambda>quot.
        and_then (ok_or (try_u64 quot) (math_err ''lulo gross overflow'')) (\<lambda>gross.
        Ok (saturating_sub gross fee_usdc)))))"

text \<open>The three prices of a state, as every caller of \<open>lulo_lp_value\<close> passes them.\<close>

definition lulo_value :: "crates \<Rightarrow> lulo_state \<Rightarrow> u128 \<Rightarrow> u64 vres" where
  "lulo_value E state lp =
     lulo_lp_value E (lu_protected_amount state) (lu_protected_total_supply state) lp
       (lu_charged_q60 state) (lu_avg_q60 state) (lu_ref_bps state)"

definition lulo_fee :: "crates \<Rightarrow> lulo_state \<Rightarrow> u128 \<Rightarrow> u128 \<Rightarrow> u64 vres" where
  "lulo_fee E state lp_a old_lp =
     position_fee_usdc E (lu_protected_amount state) (lu_protected_total_supply state) lp_a old_lp
       (lu_charged_q60 state) (lu_avg_q60 state) (lu_ref_bps state)"

section \<open>Quotes (\<open>math.rs\<close>)\<close>

text \<open>The referral fee in shares, rounded up.\<close>

definition lulo_fee_lp_ceil :: "crates \<Rightarrow> u64 \<Rightarrow> u64 \<Rightarrow> u64 \<Rightarrow> u128 vres" where
  "lulo_fee_lp_ceil E pa pts fee_usdc =
     (if fee_usdc = 0 then Ok 0
      else
        and_then (ok_or (checked_mul (ucast fee_usdc) (ucast pts)) (math_err ''fee_lp num'')) (\<lambda>num.
        and_then (plain_sub (overflow_checks E) (ucast pa) 1) (\<lambda>pa_less.
        ok_or (case checked_add num pa_less of
                 None \<Rightarrow> None | Some x \<Rightarrow> checked_div x (ucast pa)) (math_err ''fee_lp_ceil''))))"

text \<open>The value of the position that a deposit of \<open>net_amount\<close> is predicted to leave.\<close>

definition lulo_predict ::
    "crates \<Rightarrow> lulo_state \<Rightarrow> wrapper_vault \<Rightarrow> u64 \<Rightarrow> u64 \<Rightarrow> u64 vres" where
  "lulo_predict E state wv net_amount total_value_before =
     (let pa = lu_protected_amount state;
          pts = lu_protected_total_supply state;
          old_lp = wv_intermediate_held wv
      in and_then (ok_or (checked_add (wv_free_underlying_held wv) net_amount)
                     (math_err ''buffer overflow'')) (\<lambda>buffer_total.
         if pa = 0 then Err (math_err ''lulo pa=0'')
         else
           and_then (ok_or (case checked_mul (ucast buffer_total) (ucast pts) of
                              None \<Rightarrow> None | Some x \<Rightarrow> checked_div x (ucast pa))
                       (math_err ''new_lp'')) (\<lambda>new_lp.
           and_then (ok_or (checked_add old_lp new_lp) (math_err ''lp_a'')) (\<lambda>lp_a.
           and_then (lulo_fee E state lp_a old_lp) (\<lambda>fee_usdc.
           and_then (lulo_fee_lp_ceil E pa pts fee_usdc) (\<lambda>fee_lp_ceil.
           let lp_net_pred = saturating_sub new_lp fee_lp_ceil
           in and_then (ok_or (checked_add old_lp lp_net_pred) (math_err ''post_lp_pred''))
                (\<lambda>post_lp_pred.
              and_then (lulo_value E state post_lp_pred) (\<lambda>post_value.
              and_then (lulo_fee E state post_lp_pred post_lp_pred) (\<lambda>post_fee.
              and_then (ok_or (checked_add post_value post_fee) (math_err ''post gross''))
                (\<lambda>staked_value.
              and_then (ok_or (checked_add total_value_before net_amount) (math_err ''dust value''))
                (\<lambda>dust_value.
              Ok (min staked_value dust_value))))))))))))"

definition lulo_mint :: "u64 \<Rightarrow> u64 \<Rightarrow> u64 \<Rightarrow> u64 vres" where
  "lulo_mint wrapper_supply total_value_before new_value_pred =
     (if wrapper_supply = 0 then
        (if total_value_before \<noteq> 0 then Err (math_err ''supply=0 value>0'') else Ok new_value_pred)
      else if total_value_before = 0 then Err (math_err ''supply>0 value=0'')
      else
        let value_added = saturating_sub new_value_pred total_value_before
        in and_then (ok_or (case checked_mul (ucast value_added :: u128) (ucast wrapper_supply) of
                              None \<Rightarrow> None | Some x \<Rightarrow> checked_div x (ucast total_value_before))
                       (math_err ''mint calc'')) u128_to_u64)"

definition lulo_quote_deposit ::
    "crates \<Rightarrow> lulo_state \<Rightarrow> wrapper_vault \<Rightarrow> global_config \<Rightarrow> u64 \<Rightarrow> u64 vres" where
  "lulo_quote_deposit E state wv gc amount =
     (if amount = 0 then Err (math_err ''zero amount'')
      else if lu_halted_flag state \<noteq> 0 then Err (math_err ''lulo halted'')
      else
        and_then (mul_bps amount (gc_protocol_deposit_fee_bps gc)) (\<lambda>protocol_fee.
        and_then (mul_bps amount (wv_creator_deposit_fee_bps wv)) (\<lambda>creator_fee.
        and_then (sub_total_fee ''deposit fee sum'' amount protocol_fee creator_fee) (\<lambda>net_amount.
        if net_amount = 0 then Err (math_err ''net amount zero'')
        else if saturating_sub (lu_deposit_limit state) (lu_protected_amount state) div 2
                  < net_amount
        then Err (math_err ''lulo coverage cap'')
        else
          and_then (lulo_value E state (wv_intermediate_held wv)) (\<lambda>lp_value_before.
          and_then (ok_or (checked_add (wv_free_underlying_held wv) lp_value_before)
                      (math_err ''total value'')) (\<lambda>total_value_before.
          and_then (lulo_predict E state wv net_amount total_value_before) (\<lambda>new_value_pred.
          and_then (lulo_mint (wv_wrapper_supply wv) total_value_before new_value_pred)
            (\<lambda>wrapper_to_mint.
          if wrapper_to_mint = 0 then Err (math_err ''mint zero'')
          else
            and_then (ok_or (checked_add (wv_wrapper_supply wv) wrapper_to_mint)
                        (math_err ''new supply'')) (\<lambda>new_wrapper_supply.
            and_then (require_no_value_per_share_loss E (ucast total_value_before)
                        (wv_wrapper_supply wv) (ucast new_value_pred) new_wrapper_supply) (\<lambda>_.
            Ok wrapper_to_mint))))))))))"

text \<open>What a withdrawal is owed: its part of the idle tokens and of the position, less the margin.\<close>

definition lulo_owed ::
    "crates \<Rightarrow> lulo_state \<Rightarrow> wrapper_vault \<Rightarrow> u64 \<Rightarrow> u64 \<Rightarrow> u64 vres" where
  "lulo_owed E state wv amount lp_value =
     (let s = ucast (wv_wrapper_supply wv) :: u128;
          b = ucast amount :: u128;
          old_lp = wv_intermediate_held wv
      in and_then (ok_or (case checked_mul b (ucast (wv_free_underlying_held wv)) of
                            None \<Rightarrow> None | Some x \<Rightarrow> checked_div x s) (math_err ''free share''))
           (\<lambda>free_share.
         and_then (ok_or (case checked_mul b old_lp of
                            None \<Rightarrow> None | Some x \<Rightarrow> checked_div x s) (math_err ''user lp''))
           (\<lambda>user_lp.
         and_then
           (if old_lp = 0 then Ok 0
            else ok_or (case checked_mul (ucast lp_value) user_lp of
                          None \<Rightarrow> None | Some x \<Rightarrow> checked_div x old_lp) (math_err ''lp part''))
           (\<lambda>lp_part.
         and_then
           (if lu_protected_total_supply state = 0 then Ok 0
            else plain_div_ceil (ucast (lu_protected_amount state))
                   (ucast (lu_protected_total_supply state))) (\<lambda>ceil_price.
         and_then (ok_or (checked_add free_share lp_part) (math_err ''owed calc'')) (\<lambda>gross.
         and_then (plain_add (overflow_checks E) ceil_price 1) (\<lambda>margin.
         u128_to_u64 (saturating_sub gross margin))))))))"

definition lulo_quote_withdraw ::
    "crates \<Rightarrow> lulo_state \<Rightarrow> wrapper_vault \<Rightarrow> u64 \<Rightarrow> u64 vres" where
  "lulo_quote_withdraw E state wv amount =
     (if amount = 0 then Err (math_err ''zero amount'')
      else if lu_halted_flag state \<noteq> 0 then Err (math_err ''lulo halted'')
      else if wv_wrapper_supply wv < amount then Err (math_err ''burn exceeds supply'')
      else if wv_wrapper_supply wv = 0 then Err (math_err ''supply zero'')
      else
        and_then (lulo_value E state (wv_intermediate_held wv)) (\<lambda>lp_value.
        and_then (ok_or (checked_add (wv_free_underlying_held wv) lp_value)
                    (math_err ''total value'')) (\<lambda>total_value_before.
        if total_value_before = 0 then Err (math_err ''total value zero'')
        else if amount = wv_wrapper_supply wv
        then Err (math_err ''lulo full-exit not quoted (drain-zone); withdraw supply-1'')
        else
          and_then (lulo_owed E state wv amount lp_value) (\<lambda>n_owed.
          if n_owed = 0 then Err (math_err ''owed zero'')
          else
            and_then (ok_or (checked_sub (ucast total_value_before) (ucast n_owed))
                        (math_err ''new value pred'')) (\<lambda>new_value_pred.
            and_then (ok_or (checked_sub (wv_wrapper_supply wv) amount) (math_err ''new supply''))
              (\<lambda>new_wrapper_supply.
            and_then (require_no_value_per_share_loss E (ucast total_value_before)
                        (wv_wrapper_supply wv) new_value_pred new_wrapper_supply) (\<lambda>_.
            Ok n_owed)))))))"

section \<open>Account lists (\<open>account_metas.rs\<close>)\<close>

definition LULO_DEFAULT_REFERRER :: "crates \<Rightarrow> pubkey" where
  "LULO_DEFAULT_REFERRER E = from_str_const E ''UserevMsvU5K9u6iW7DT9XJVyVLpmfDCEAfXixBbE7R''"

definition LULO_POOL_ACCOUNT :: "crates \<Rightarrow> pubkey" where
  "LULO_POOL_ACCOUNT E = from_str_const E ''A2qdjcuacp6gMVi8TxmEb2vsMZsHqCjM9CGjFeJ2bb2z''"

definition LULO_POOL_INPUT_TOKEN_ACCOUNT :: "crates \<Rightarrow> pubkey" where
  "LULO_POOL_INPUT_TOKEN_ACCOUNT E = from_str_const E ''5cLLhzBXWm9pmUqvAnY1GcLEcVRAWc6FHTsjLV5zP69A''"

definition JUP_LENDING_ADMIN :: "crates \<Rightarrow> pubkey" where
  "JUP_LENDING_ADMIN E = from_str_const E ''5nmGjA4s7ATzpBQXC5RNceRpaJ7pYw2wKsNBWyuSAZV6''"

definition JUP_LENDING_USDC :: "crates \<Rightarrow> pubkey" where
  "JUP_LENDING_USDC E = from_str_const E ''2vVYHYM8VYnvZqQWpTJSj8o8DBf1wM8pVs3bsTgYZiqJ''"

definition JUP_F_TOKEN_USDC :: "crates \<Rightarrow> pubkey" where
  "JUP_F_TOKEN_USDC E = from_str_const E ''9BEcn9aPEmhSPbPQeFGjidRiEKki46fVQDyPpSQXPA2D''"

definition JUP_SUPPLY_LIQUIDITY :: "crates \<Rightarrow> pubkey" where
  "JUP_SUPPLY_LIQUIDITY E = from_str_const E ''94vK29npVbyRHXH63rRcTiSr26SFhrQTzbpNJuhQEDu''"

definition JUP_LENDING_LIQUIDITY :: "crates \<Rightarrow> pubkey" where
  "JUP_LENDING_LIQUIDITY E = from_str_const E ''Hf9gtkM4dpVBahVSzEXSVCAPpKzBsBcns3s8As3z77oF''"

definition JUP_RATE_MODEL :: "crates \<Rightarrow> pubkey" where
  "JUP_RATE_MODEL E = from_str_const E ''5pjzT5dFTsXcwixoab1QDLvZQvpYJxJeBphkyfHGn688''"

definition JUP_VAULT :: "crates \<Rightarrow> pubkey" where
  "JUP_VAULT E = from_str_const E ''BmkUoKMFYBxNSzWXyUjyMJjMAaVz4d8ZnxwwmhDCUXFB''"

definition JUP_CLAIM_ACCOUNT :: "crates \<Rightarrow> pubkey" where
  "JUP_CLAIM_ACCOUNT E = from_str_const E ''HN1r4VfkDn53xQQfeGDYrNuDKFdemAhZsHYRwBrFhsW''"

definition JUP_REWARDS_RATE_MODEL :: "crates \<Rightarrow> pubkey" where
  "JUP_REWARDS_RATE_MODEL E = from_str_const E ''5xSPBiD3TibamAnwHDhZABdB4z4F9dcj5PnbteroBTTd''"

definition JUP_LIQUIDITY :: "crates \<Rightarrow> pubkey" where
  "JUP_LIQUIDITY E = from_str_const E ''7s1da8DduuBFqGra5bJBjpnvL5E9mGzCuMk1Qkh4or2Z''"

definition JUP_LIQUIDITY_PROGRAM :: "crates \<Rightarrow> pubkey" where
  "JUP_LIQUIDITY_PROGRAM E = from_str_const E ''jupeiUmn818Jg1ekPURTpr4mFo29p46vygyykFJ3wZC''"

definition JUP_PROGRAM :: "crates \<Rightarrow> pubkey" where
  "JUP_PROGRAM E = from_str_const E ''jup3YeL8QhtSx1e253b2FDvsMNC87fDrgQZivbrndc9''"

definition JUP_PROTOCOL_AUTHORITY :: "crates \<Rightarrow> pubkey" where
  "JUP_PROTOCOL_AUTHORITY E = from_str_const E ''DdRpVzxr7F2jzmQKffR25ccNZNpMuHTwVPVPvvnS1g3t''"

definition JUP_PROTOCOL_AUTHORITY_USDC_ATA :: "crates \<Rightarrow> pubkey" where
  "JUP_PROTOCOL_AUTHORITY_USDC_ATA E = from_str_const E ''CYu5w2BskA8VU4vCUsvztNj9FAaBnM4sC3SMun619rFb''"

definition JUP_AUTHORITY_F_TOKEN_USDC_ATA :: "crates \<Rightarrow> pubkey" where
  "JUP_AUTHORITY_F_TOKEN_USDC_ATA E = from_str_const E ''Cd3JM8WViAqi4vU2cjxHyPA6AktEWsAZEx9aM1i5ZP87''"

definition SYSVAR_RENT_ID :: "crates \<Rightarrow> pubkey" where
  "SYSVAR_RENT_ID E = from_str_const E ''SysvarRent111111111111111111111111111111111''"

definition LULO_SYSVAR_INSTRUCTIONS_ID :: "crates \<Rightarrow> pubkey" where
  "LULO_SYSVAR_INSTRUCTIONS_ID E = from_str_const E ''Sysvar1nstructions1111111111111111111111111''"

definition LULO_POOL_JLUSDC_ATA :: "crates \<Rightarrow> pubkey" where
  "LULO_POOL_JLUSDC_ATA E = from_str_const E ''GhmCHQhFhFX9vbxAskH7c1ymNzxyN5kaza4Zqqms6zWL''"

definition LULO_TRAILING_ACCOUNT :: "crates \<Rightarrow> pubkey" where
  "LULO_TRAILING_ACCOUNT E = from_str_const E ''43kuLXFrEEExVP6n3fDprjbKvzMRqhLdLk24f4TQaiGv''"

definition KAMINO_PROTOCOL_AUTHORITY :: "crates \<Rightarrow> pubkey" where
  "KAMINO_PROTOCOL_AUTHORITY E = from_str_const E ''4dg3naKuGezNCzNY2qrTFCzsNZG8hcdkzzNT5PFLZFLR''"

definition KAMINO_PROTOCOL_TOKEN_ACCOUNT :: "crates \<Rightarrow> pubkey" where
  "KAMINO_PROTOCOL_TOKEN_ACCOUNT E = from_str_const E ''mZovrHTXASkL3jUE5Usqtgtau7iKF5dXStAwbAu1wyx''"

definition KAMINO_MARKET :: "crates \<Rightarrow> pubkey" where
  "KAMINO_MARKET E = from_str_const E ''7u3HeHxYDLhnCoErrtycNokbQYbWGzLs6JSDqGAv5PfF''"

definition KAMINO_OBLIGATION :: "crates \<Rightarrow> pubkey" where
  "KAMINO_OBLIGATION E = from_str_const E ''H3LwbNZyccycRro2V1xjS4ASfKADa6KKuE8AwUomSZeU''"

definition KAMINO_RESERVE :: "crates \<Rightarrow> pubkey" where
  "KAMINO_RESERVE E = from_str_const E ''D6q6wuQSrifJKZYpR1M8R4YawnLDtDsMmWM1NbBmgJ59''"

definition KAMINO_RESERVE_LIQUIDITY_SUPPLY :: "crates \<Rightarrow> pubkey" where
  "KAMINO_RESERVE_LIQUIDITY_SUPPLY E = from_str_const E ''Bgq7trRgVMeq33yt235zM2onQ4bRDBsY5EWiTetF4qw6''"

definition KAMINO_LENDING_MARKET_AUTHORITY :: "crates \<Rightarrow> pubkey" where
  "KAMINO_LENDING_MARKET_AUTHORITY E = from_str_const E ''9DrvZvyWh1HuAoZxvYWMvkf2XCzryCpGgHqrMjyDWpmo''"

definition KAMINO_COLLATERAL_MINT :: "crates \<Rightarrow> pubkey" where
  "KAMINO_COLLATERAL_MINT E = from_str_const E ''B8V6WVjPxW1UGwVDfxH2d2r8SyT4cqn7dQRK6XneVa7D''"

definition KAMINO_COLLATERAL_TOKEN_ACCOUNT :: "crates \<Rightarrow> pubkey" where
  "KAMINO_COLLATERAL_TOKEN_ACCOUNT E = from_str_const E ''BBaPKj94sodQurHUYRyBb19xxhXXJt1hbjimactKRR91''"

definition KAMINO_RESERVE_COLLATERAL_SUPPLY :: "crates \<Rightarrow> pubkey" where
  "KAMINO_RESERVE_COLLATERAL_SUPPLY E = from_str_const E ''3DzjXRfxRm6iejfyyMynR4tScddaanrePJ1NJU2XnPPL''"

definition KAMINO_PROGRAM :: "crates \<Rightarrow> pubkey" where
  "KAMINO_PROGRAM E = from_str_const E ''KLend2g3cP87fffoy8q1mQqGKjrxjC8boSyAYavgmjD''"

definition KAMINO_FARMS_PROGRAM :: "crates \<Rightarrow> pubkey" where
  "KAMINO_FARMS_PROGRAM E = from_str_const E ''FarmsPZpWu9i7Kky8tPN37rs2TpmMrAZrC7S7vJa91Hr''"

definition KAMINO_RESERVE_FARM_STATE :: "crates \<Rightarrow> pubkey" where
  "KAMINO_RESERVE_FARM_STATE E = from_str_const E ''JAvnB9AKtgPsTEoKmn24Bq64UMoYcrtWtq42HHBdsPkh''"

definition KAMINO_OBLIGATION_FARM_USER_STATE :: "crates \<Rightarrow> pubkey" where
  "KAMINO_OBLIGATION_FARM_USER_STATE E = from_str_const E ''FtKHAgqLSeXv3nngZR4PuXQct4yPf5KXCkHJ8wbzR7SR''"

definition KAMINO_SCOPE_PRICES :: "crates \<Rightarrow> pubkey" where
  "KAMINO_SCOPE_PRICES E = from_str_const E ''3t4JZcueEzTbVP6kLxXrL3VpWx45jDer4eqysweBchNH''"

definition jupiter_withdraw_backend :: "crates \<Rightarrow> account_meta list" where
  "jupiter_withdraw_backend E =
     [meta_new (JUP_PROTOCOL_AUTHORITY E) False,
      meta_new (JUP_PROTOCOL_AUTHORITY_USDC_ATA E) False,
      meta_new (JUP_AUTHORITY_F_TOKEN_USDC_ATA E) False,
      meta_new_readonly (JUP_LENDING_ADMIN E) False,
      meta_new (JUP_LENDING_USDC E) False,
      meta_new (JUP_F_TOKEN_USDC E) False,
      meta_new (JUP_SUPPLY_LIQUIDITY E) False,
      meta_new (JUP_LENDING_LIQUIDITY E) False,
      meta_new_readonly (JUP_RATE_MODEL E) False,
      meta_new (JUP_VAULT E) False,
      meta_new (JUP_CLAIM_ACCOUNT E) False,
      meta_new (JUP_LIQUIDITY E) False,
      meta_new_readonly (JUP_REWARDS_RATE_MODEL E) False,
      meta_new (JUP_LIQUIDITY_PROGRAM E) False,
      meta_new_readonly (JUP_PROGRAM E) False]"

definition kamino_withdraw_backend :: "crates \<Rightarrow> account_meta list" where
  "kamino_withdraw_backend E =
     [meta_new (KAMINO_PROTOCOL_AUTHORITY E) False,
      meta_new (KAMINO_PROTOCOL_TOKEN_ACCOUNT E) False,
      meta_new (KAMINO_MARKET E) False,
      meta_new (KAMINO_OBLIGATION E) False,
      meta_new (KAMINO_RESERVE E) False,
      meta_new (KAMINO_RESERVE_LIQUIDITY_SUPPLY E) False,
      meta_new_readonly (KAMINO_LENDING_MARKET_AUTHORITY E) False,
      meta_new (KAMINO_COLLATERAL_MINT E) False,
      meta_new (KAMINO_COLLATERAL_TOKEN_ACCOUNT E) False,
      meta_new (KAMINO_RESERVE_COLLATERAL_SUPPLY E) False,
      meta_new_readonly (SPL_TOKEN_PROGRAM_ID E) False,
      meta_new_readonly (LULO_SYSVAR_INSTRUCTIONS_ID E) False,
      meta_new_readonly (KAMINO_PROGRAM E) False,
      meta_new_readonly (KAMINO_FARMS_PROGRAM E) False,
      meta_new (KAMINO_RESERVE_FARM_STATE E) False,
      meta_new (KAMINO_OBLIGATION_FARM_USER_STATE E) False,
      meta_new_readonly (KAMINO_SCOPE_PRICES E) False]"

definition withdraw_trailing :: "crates \<Rightarrow> account_meta list" where
  "withdraw_trailing E =
     [meta_new (LULO_POOL_INPUT_TOKEN_ACCOUNT E) False,
      meta_new_readonly (LULO_POOL_JLUSDC_ATA E) False,
      meta_new_readonly (LULO_TRAILING_ACCOUNT E) False]"

text \<open>The constants of \<open>build_base\<close>.\<close>

definition LULO_PROGRAM_ID :: "crates \<Rightarrow> pubkey" where
  "LULO_PROGRAM_ID E = from_str_const E ''FL3X2pRsQ9zHENpZSKDRREtccwJuei8yg9fwDu9UN69Q''"

definition LULO_SEED_POOL_USER :: bytes where "LULO_SEED_POOL_USER = byte_str ''pool_user''"
definition LULO_POOL_ID :: u8 where "LULO_POOL_ID = 0"
definition PD_OFF_POOL_ID :: nat where "PD_OFF_POOL_ID = 32"

definition lulo_referrer_pool_user :: "crates \<Rightarrow> pubkey vres" where
  "lulo_referrer_pool_user E =
     find_pda E [LULO_SEED_POOL_USER, [LULO_POOL_ID], LULO_DEFAULT_REFERRER E] (LULO_PROGRAM_ID E)"

definition lulo_build_base ::
    "crates \<Rightarrow> lulo_state \<Rightarrow> wrapper_vault \<Rightarrow> pubkey \<Rightarrow> account_meta list vres" where
  "lulo_build_base E state wv user =
     (if wv_source_pool wv \<noteq> LULO_POOL_ACCOUNT E then
        Err (UnsupportedVenue (EStaticStr ''lulo: only pool_id=0 (USDC protected) supported''))
      else if wv_protocol_data wv ! PD_OFF_POOL_ID \<noteq> LULO_POOL_ID then
        Err (UnsupportedVenue (EStaticStr ''lulo: protocol_data pool_id != 0''))
      else
        let wrapper_mint = wv_wrapper_mint wv;
            underlying_mint = wv_underlying_mint wv;
            overpass = OVERPASS_PROGRAM_ID E;
            lulo_pool = wv_source_pool wv;
            lulo_pool_user = wv_source_position_pda wv;
            spl = SPL_TOKEN_PROGRAM_ID E
        in and_then (read_pubkey (wv_protocol_data wv) 0 ''lulo.protocol_data.protected_mint'')
             (\<lambda>protected_mint.
           and_then (global_config_pda E overpass) (\<lambda>global_config.
           and_then (find_pda E [byte_str ''vault'', wrapper_mint] overpass) (\<lambda>wrapper_vault_pda.
           and_then (find_pda E [byte_str ''authority'', wrapper_mint] overpass)
             (\<lambda>vault_authority.
           and_then (lulo_referrer_pool_user E) (\<lambda>referrer_pool_user.
           and_then (derive_ata E vault_authority underlying_mint spl) (\<lambda>vault_underlying_ata.
           and_then (derive_ata E lulo_pool_user protected_mint (TOKEN_2022_PROGRAM_ID E))
             (\<lambda>lulo_pool_user_lp_token_account.
           and_then (derive_ata E user underlying_mint spl) (\<lambda>user_underlying_ata.
           and_then (derive_ata E user wrapper_mint spl) (\<lambda>user_wrapper_ata.
           Ok [meta_new user True,
               meta_new_readonly global_config False,
               meta_new wrapper_vault_pda False,
               meta_new vault_authority False,
               meta_new wrapper_mint False,
               meta_new underlying_mint False,
               meta_new protected_mint False,
               meta_new user_wrapper_ata False,
               meta_new user_underlying_ata False,
               meta_new vault_underlying_ata False,
               meta_new lulo_pool False,
               meta_new (LULO_POOL_INPUT_TOKEN_ACCOUNT E) False,
               meta_new lulo_pool_user False,
               meta_new lulo_pool_user_lp_token_account False,
               meta_new referrer_pool_user False]))))))))))"

definition lulo_build_deposit ::
    "crates \<Rightarrow> lulo_state \<Rightarrow> wrapper_vault \<Rightarrow> pubkey \<Rightarrow> account_meta list vres" where
  "lulo_build_deposit E state wv user =
     and_then (lulo_build_base E state wv user) (\<lambda>metas.
     Ok (metas @
       [meta_new_readonly (LULO_POOL_JLUSDC_ATA E) False,
        meta_new_readonly (LULO_TRAILING_ACCOUNT E) False,
        meta_new_readonly (LULO_PROGRAM_ID E) False,
        meta_new_readonly (SPL_TOKEN_PROGRAM_ID E) False,
        meta_new_readonly (TOKEN_2022_PROGRAM_ID E) False,
        meta_new_readonly (SPL_TOKEN_PROGRAM_ID E) False,
        meta_new_readonly (ATA_PROGRAM_ID E) False,
        meta_new_readonly (SYSTEM_PROGRAM_ID E) False,
        meta_new_readonly (SYSVAR_RENT_ID E) False]))"

definition lulo_build_withdraw ::
    "crates \<Rightarrow> lulo_state \<Rightarrow> wrapper_vault \<Rightarrow> pubkey \<Rightarrow> account_meta list vres" where
  "lulo_build_withdraw E state wv user =
     and_then (lulo_build_base E state wv user) (\<lambda>metas.
     Ok (metas @
       [meta_new_readonly (LULO_PROGRAM_ID E) False,
        meta_new_readonly (SPL_TOKEN_PROGRAM_ID E) False,
        meta_new_readonly (TOKEN_2022_PROGRAM_ID E) False,
        meta_new_readonly (SPL_TOKEN_PROGRAM_ID E) False,
        meta_new_readonly (ATA_PROGRAM_ID E) False,
        meta_new_readonly (SYSTEM_PROGRAM_ID E) False]
       @ kamino_withdraw_backend E @ withdraw_trailing E))"

section \<open>The refresh (\<open>update.rs\<close>)\<close>

definition lulo_required_pubkeys :: "crates \<Rightarrow> wrapper_vault \<Rightarrow> pubkey list vres" where
  "lulo_required_pubkeys E wv =
     and_then (lulo_referrer_pool_user E) (\<lambda>referrer.
     Ok [wv_source_pool wv, wv_source_position_pda wv, referrer])"

text \<open>
  \<open>run\<close> stores the decoded pool, with cost basis, prices and fee rate 0, before it fetches the
  other two accounts: a failure there leaves them 0.
\<close>

definition lulo_run ::
    "crates \<Rightarrow> wrapper_vault \<Rightarrow> accounts_cache \<Rightarrow> lulo_state \<Rightarrow> lulo_state \<times> unit vres" where
  "lulo_run E wv cache s =
     or_stop (get_account cache (wv_source_pool wv)) s (\<lambda>pool_opt.
     or_stop (ok_or pool_opt (NoAccountFound (EPubkey (wv_source_pool wv)))) s (\<lambda>pool.
     or_stop (lulo_decode (acc_data pool)) s (\<lambda>s1.
     or_stop (get_account cache (wv_source_position_pda wv)) s1 (\<lambda>user_opt.
     or_stop (ok_or user_opt (NoAccountFound (EPubkey (wv_source_position_pda wv)))) s1
       (\<lambda>pool_user.
     or_stop (decode_basis_q60 (acc_data pool_user)) s1 (\<lambda>basis.
     let s2 = s1\<lparr> lu_basis_q60 := basis \<rparr>
     in or_stop (decode_charged_avg_q60 (acc_data pool_user)) s2 (\<lambda>(charged, avg).
        let s3 = s2\<lparr> lu_charged_q60 := charged, lu_avg_q60 := avg \<rparr>
        in or_stop (lulo_referrer_pool_user E) s3 (\<lambda>referrer.
           or_stop (get_account cache referrer) s3 (\<lambda>referrer_opt.
           or_stop (ok_or referrer_opt (NoAccountFound (EPubkey referrer))) s3 (\<lambda>referrer_acct.
           or_stop (decode_ref_bps (acc_data referrer_acct)) s3 (\<lambda>ref_bps.
           (s3\<lparr> lu_ref_bps := ref_bps \<rparr>, Ok ()))))))))))))"

section \<open>The backend (\<open>mod.rs\<close>)\<close>

record lulo =
  ul_state :: lulo_state

definition LULO_DEPOSIT_IX_DISCRIMINATOR :: bytes where
  "LULO_DEPOSIT_IX_DISCRIMINATOR = [0xe7, 0x17, 0x29, 0x7c, 0xe2, 0x0c, 0x4a, 0xef]"

definition LULO_WITHDRAW_IX_DISCRIMINATOR :: bytes where
  "LULO_WITHDRAW_IX_DISCRIMINATOR = [0xf4, 0xa6, 0xeb, 0x1b, 0x92, 0xf2, 0x79, 0x23]"

definition lulo_new :: lulo where
  "lulo_new = \<lparr> ul_state = lulo_state_default \<rparr>"

definition lulo_update ::
    "crates \<Rightarrow> lulo \<Rightarrow> wrapper_vault \<Rightarrow> accounts_cache \<Rightarrow> lulo \<times> unit vres" where
  "lulo_update E self wv cache =
     (let (s, res) = lulo_run E wv cache (ul_state self) in (\<lparr> ul_state = s \<rparr>, res))"

definition lulo_deposit_quote ::
    "crates \<Rightarrow> lulo \<Rightarrow> wrapper_vault \<Rightarrow> global_config \<Rightarrow> u64 \<Rightarrow> u64 vres" where
  "lulo_deposit_quote E self wv gc amount = lulo_quote_deposit E (ul_state self) wv gc amount"

definition lulo_withdraw_quote :: "crates \<Rightarrow> lulo \<Rightarrow> wrapper_vault \<Rightarrow> u64 \<Rightarrow> u64 vres" where
  "lulo_withdraw_quote E self wv amount = lulo_quote_withdraw E (ul_state self) wv amount"

definition lulo_build_deposit_ix ::
    "crates \<Rightarrow> lulo \<Rightarrow> wrapper_vault \<Rightarrow> pubkey \<Rightarrow> u64 \<Rightarrow> u64 \<Rightarrow> instruction vres" where
  "lulo_build_deposit_ix E self wv user in_amount min_out =
     and_then (lulo_build_deposit E (ul_state self) wv user) (\<lambda>accounts.
     Ok \<lparr> ix_program_id = OVERPASS_PROGRAM_ID E, ix_accounts = accounts,
          ix_data = LULO_DEPOSIT_IX_DISCRIMINATOR @ to_le_bytes 8 in_amount
            @ to_le_bytes 8 min_out \<rparr>)"

definition lulo_build_withdraw_ix ::
    "crates \<Rightarrow> lulo \<Rightarrow> wrapper_vault \<Rightarrow> pubkey \<Rightarrow> u64 \<Rightarrow> u64 \<Rightarrow> instruction vres" where
  "lulo_build_withdraw_ix E self wv user in_amount min_out =
     and_then (lulo_build_withdraw E (ul_state self) wv user) (\<lambda>accounts.
     Ok \<lparr> ix_program_id = OVERPASS_PROGRAM_ID E, ix_accounts = accounts,
          ix_data = LULO_WITHDRAW_IX_DISCRIMINATOR @ to_le_bytes 8 in_amount
            @ to_le_bytes 8 min_out \<rparr>)"

definition lulo_lookup_table_keys :: "crates \<Rightarrow> lulo \<Rightarrow> wrapper_vault \<Rightarrow> pubkey list" where
  "lulo_lookup_table_keys E self wv =
     [LULO_PROGRAM_ID E, JUP_LIQUIDITY_PROGRAM E, JUP_PROGRAM E, wv_source_pool wv,
      wv_source_position_pda wv]"

section \<open>The profit of a position\<close>

text \<open>The profit over the integers: gain over cost basis in 60-bit fixed point, rounded down.\<close>

definition lulo_profit :: "u64 \<Rightarrow> u64 \<Rightarrow> u128 \<Rightarrow> u128 \<Rightarrow> nat" where
  "lulo_profit pa pts lp basis =
     (unat pa * 2 ^ 60 - unat basis * unat pts) * unat lp div (unat pts * 2 ^ 60)"

lemma lulo_profit_le: "lulo_profit pa pts lp basis \<le> unat pa * unat lp div unat pts"
proof -
  have "(unat pa * 2 ^ 60 - unat basis * unat pts) * unat lp \<le> unat pa * unat lp * 2 ^ 60"
    using mult_le_mono1 [OF diff_le_self, of "unat pa * 2 ^ 60" "unat basis * unat pts" "unat lp"]
    by (simp add: ac_simps)
  then have "lulo_profit pa pts lp basis \<le> unat pa * unat lp * 2 ^ 60 div (unat pts * 2 ^ 60)"
    unfolding lulo_profit_def by (rule div_le_mono)
  then show ?thesis by simp
qed

lemma lulo_profit_zero [simp]:
  "lulo_profit 0 pts lp b = 0" "lulo_profit pa 0 lp b = 0" "lulo_profit pa pts 0 b = 0"
  by (simp_all add: lulo_profit_def)

lemma u64_shift_fits: "unat (a :: u64) * 2 ^ 60 < 2 ^ 124"
proof -
  have "unat a * 2 ^ 60 < 2 ^ 64 * 2 ^ 60" using unat_lt_64 [of a] by (intro mult_strict_right_mono) auto
  then show ?thesis by simp
qed

lemma div_ceil_u64_le: "plain_div_ceil (ucast (pa :: u64) :: u128) (ucast (pts :: u64)) = Ok c \<Longrightarrow>
    unat c \<le> 2 ^ 64 \<and> unat pa \<le> unat c * unat pts"
proof -
  assume c: "plain_div_ceil (ucast pa :: u128) (ucast pts) = Ok c"
  let ?d = "unat pa div unat pts" and ?m = "unat pa mod unat pts"
  have pts: "0 < unat pts" using c by (auto simp: plain_div_ceil_def unat_gt_0 split: if_splits)
  have d: "?d < 2 ^ 64" by (rule le_less_trans [OF div_le_dividend]) simp
  have split: "unat pa = ?d * unat pts + ?m" by simp
  have "unat c = (if ?m = 0 then ?d else ?d + 1)"
  proof -
    have "unat ((ucast pa :: u128) div ucast pts) = ?d" "unat ((ucast pa :: u128) mod ucast pts) = ?m"
      by (simp_all add: unat_div unat_mod)
    then show ?thesis
      using c d by (auto simp: plain_div_ceil_def unat_word_ariths unat_eq_zero [symmetric] split: if_splits)
  qed
  moreover have "unat pa \<le> (?d + 1) * unat pts"
    using split mod_less_divisor [OF pts, of "unat pa"] unfolding distrib_right by linarith
  ultimately show ?thesis using d split by auto
qed

text \<open>The margin a withdrawal keeps back: the share price rounded up, plus one.\<close>

lemma lulo_margin:
  assumes "(if lu_protected_total_supply st = 0 then Ok 0
      else plain_div_ceil (ucast (lu_protected_amount st)) (ucast (lu_protected_total_supply st)))
      = Ok (c :: u128)"
  shows "unat c \<le> 2 ^ 64 \<and> (lu_protected_total_supply st = 0 \<or>
    unat (lu_protected_amount st) \<le> unat c * unat (lu_protected_total_supply st))"
  using assms div_ceil_u64_le by (auto split: if_splits)

lemma plain_add_one:
  assumes "unat (c :: u128) \<le> 2 ^ 64"
  shows "plain_add chk c 1 = Ok (c + 1)" "unat (c + 1) = unat c + 1"
  using assms by (simp_all add: plain_add_def unat_word_ariths)

context uint_laws
begin

lemma shifted_one: "unat (u256_shl E 1 Q60_SHIFT) = 2 ^ 60"
  by (simp add: shl Q60_SHIFT_def push_bit_eq_mult)

lemma mul_shifted:
  "u256_mul E (u256_of (a :: u64)) (u256_shl E 1 Q60_SHIFT) =
     Some (u256_of a * u256_shl E 1 Q60_SHIFT) \<and>
   unat (u256_of a * u256_shl E 1 Q60_SHIFT) = unat a * 2 ^ 60"
proof -
  note u64_shift_fits [of a]
  also have "(2 :: nat) ^ 124 < 2 ^ 256" by (rule power_strict_increasing) simp_all
  finally have "unat (u256_of a) * unat (u256_shl E 1 Q60_SHIFT) < 2 ^ 256"
    unfolding shifted_one unat_ucast_64_256 .
  note lt = this
  have "unat (u256_of a * u256_shl E 1 Q60_SHIFT) = unat (u256_of a) * unat (u256_shl E 1 Q60_SHIFT)"
    by (rule unat_mult_lem [THEN iffD1]) (use lt in simp)
  with mul_fits [OF lt] show ?thesis by (simp add: shifted_one)
qed

lemma lulo_cpos_eq:
  "lulo_cpos E pa pts lp basis =
     ok_or (try_u64 (word_of_nat (lulo_profit pa pts lp basis) :: u128))
       (math_err ''lulo profit overflow'')"
proof (cases "pts = 0 \<or> pa = 0 \<or> lp = 0")
  case True
  then show ?thesis by (auto simp: lulo_cpos_def try_u64_def)
next
  case False
  let ?q = "u256_shl E 1 Q60_SHIFT"
  let ?paq = "u256_of pa * ?q" and ?bp = "u256_of basis * u256_of pts" and ?den = "u256_of pts * ?q"
  define gain where "gain = (if ?paq \<le> ?bp then 0 else ?paq - ?bp)"
  have pa: "u256_mul E (u256_of pa) ?q = Some ?paq" "unat ?paq = unat pa * 2 ^ 60"
    and den: "u256_mul E (u256_of pts) ?q = Some ?den" "unat ?den = unat pts * 2 ^ 60"
    using mul_shifted by blast+
  have bp: "u256_mul E (u256_of basis) (u256_of pts) = Some ?bp" "unat ?bp = unat basis * unat pts"
    using mul_u128_u64 by blast+
  have gain: "unat gain = unat pa * 2 ^ 60 - unat basis * unat pts"
    by (simp add: gain_def word_le_nat_alt pa(2) bp(2) unat_sub not_le)
  have "unat lp < 2 ^ 128" by simp
  then have "unat gain * unat lp < 2 ^ 124 * 2 ^ 128"
    using le_less_trans [OF diff_le_self u64_shift_fits [of pa]] unfolding gain
    by (intro mult_strict_mono) (simp_all only: zero_le zero_less_power zero_less_numeral)
  then have num: "u256_mul E gain (u256_of lp) = Some (gain * u256_of lp)"
    "unat (gain * u256_of lp) = unat gain * unat lp"
    by (simp_all add: mul_fits unat_word_ariths)
  have den0: "?den \<noteq> 0"
    using False den(2) by (metis mult_is_0 unat_0 unat_eq_zero power_not_zero zero_neq_numeral)
  have gain_step: "(if ?paq \<le> ?bp then Ok 0 else or_panic (u256_sub E ?paq ?bp)) = Ok gain"
    by (auto simp: gain_def sub checked_sub_def not_le)
  have quot: "u256_div E (gain * u256_of lp) ?den = Some (gain * u256_of lp div ?den)"
    "unat (gain * u256_of lp div ?den) = lulo_profit pa pts lp basis"
    using den0 by (simp_all add: div checked_div_def unat_div num(2) den(2) gain lulo_profit_def)
  have low: "(ucast (gain * u256_of lp div ?den) :: u128) = word_of_nat (lulo_profit pa pts lp basis)"
    by (rule word_eq_unatI)
      (simp add: quot(2) unsigned_ucast_eq unsigned_of_nat take_bit_eq_mod)
  show ?thesis
    using False by (simp add: lulo_cpos_def Let_def pa(1) bp(1) gain_step num(1) den(1) quot(1) low)
qed

lemma lulo_cpos_no_panic [no_panic, simp]: "lulo_cpos E pa pts lp basis \<noteq> Panic"
  by (simp add: lulo_cpos_eq)

text \<open>Where the quotient fits 128 bits the dropped half is 0 and the profit is exact.\<close>

lemma lulo_cpos_exact:
  assumes "lulo_profit pa pts lp basis < 2 ^ 128"
  shows "lulo_cpos E pa pts lp basis = Ok r \<longleftrightarrow> unat r = lulo_profit pa pts lp basis"
  using assms by (simp add: lulo_cpos_eq try_u64_Some unsigned_of_nat take_bit_eq_mod)

lemma fee_from_profit_no_panic [no_panic, simp]: "fee_from_profit E p bps \<noteq> Panic"
  by (auto simp: fee_from_profit_def plain_sub_def word_le_nat_alt Suc_le_eq unat_gt_0 split: if_splits)

lemma position_fee_no_panic [no_panic, simp]: "position_fee_usdc E pa pts la ol c v bps \<noteq> Panic"
  by (simp add: position_fee_usdc_def)

lemma lulo_value_no_panic [no_panic, simp]:
  "lulo_lp_value E pa pts ol c v bps \<noteq> Panic" "lulo_value E st lp \<noteq> Panic"
  "lulo_fee E st la ol \<noteq> Panic"
  by (simp_all add: lulo_value_def lulo_fee_def lulo_lp_value_def)

lemma lulo_fee_lp_ceil_no_panic [no_panic, simp]: "pa \<noteq> 0 \<Longrightarrow> lulo_fee_lp_ceil E pa pts fee \<noteq> Panic"
  by (auto simp: lulo_fee_lp_ceil_def plain_sub_def word_le_nat_alt Suc_le_eq unat_gt_0 split: if_splits)

lemma lulo_predict_no_panic [no_panic, simp]: "lulo_predict E st wv net tb \<noteq> Panic"
  unfolding lulo_predict_def Let_def by (intro no_panic; simp)

lemma lulo_mint_no_panic [no_panic, simp]: "lulo_mint s tb np \<noteq> Panic"
  by (simp add: lulo_mint_def Let_def u128_to_u64_def)

lemma lulo_owed_no_panic [no_panic, simp]: "lulo_owed E st wv a v \<noteq> Panic"
proof -
  have div: "(if lu_protected_total_supply st = 0 then Ok 0
      else plain_div_ceil (ucast (lu_protected_amount st)) (ucast (lu_protected_total_supply st)))
      \<noteq> (Panic :: u128 vres)"
    by (simp add: plain_div_ceil_def)
  show ?thesis
    unfolding lulo_owed_def Let_def
    by (intro and_then_no_panic ok_or_no_panic checked_no_panic div;
        ((drule lulo_margin, simp add: plain_add_def) | simp))
qed

lemma lulo_quotes_no_panic [no_panic, simp]:
  "lulo_quote_deposit E st wv gc a \<noteq> Panic" "lulo_quote_withdraw E st wv a \<noteq> Panic"
  unfolding lulo_quote_deposit_def lulo_quote_withdraw_def
  by (intro no_panic no_loss_no_panic checked_no_panic; simp)+

end

section \<open>What a successful quote went through\<close>

lemma lulo_quote_depositE:
  assumes "lulo_quote_deposit E st wv gc a = Ok m"
  obtains pf cf net v tb np ns where "a \<noteq> 0"
    "mul_bps a (gc_protocol_deposit_fee_bps gc) = Ok pf"
    "mul_bps a (wv_creator_deposit_fee_bps wv) = Ok cf"
    "sub_total_fee ''deposit fee sum'' a pf cf = Ok net"
    "lulo_value E st (wv_intermediate_held wv) = Ok v"
    "checked_add (wv_free_underlying_held wv) v = Some tb"
    "lulo_predict E st wv net tb = Ok np" "lulo_mint (wv_wrapper_supply wv) tb np = Ok m" "m \<noteq> 0"
    "checked_add (wv_wrapper_supply wv) m = Some ns"
  using assms unfolding lulo_quote_deposit_def
  by (elim ok_elims) (rule that; (assumption | simp))

lemma lulo_quote_withdrawE:
  assumes "lulo_quote_withdraw E st wv a = Ok n"
  obtains v where "a \<noteq> 0" "n \<noteq> 0" "a \<le> wv_wrapper_supply wv" "wv_wrapper_supply wv \<noteq> 0"
    "lulo_value E st (wv_intermediate_held wv) = Ok v" "lulo_owed E st wv a v = Ok n"
  using assms unfolding lulo_quote_withdraw_def
  by (elim ok_elims) (rule that; (assumption | simp add: not_less))

text \<open>The predicted value is never above the value before plus the deposit.\<close>

lemma lulo_predict_le:
  "lulo_predict E st wv net tb = Ok np \<Longrightarrow> unat np \<le> unat tb + unat net"
  unfolding lulo_predict_def Let_def
  by (elim ok_elims) (auto simp: checked_add_Some word_le_nat_alt min_def)

lemma lulo_fee_lp_ceil_Ok:
  assumes "pa \<noteq> 0" "lulo_fee_lp_ceil E pa pts fee = Ok f"
  shows "unat f = (unat fee * unat pts + unat pa - 1) div unat pa"
proof (cases "fee = 0")
  case True
  with assms show ?thesis by (simp add: lulo_fee_lp_ceil_def unat_gt_0)
next
  case False
  have one: "(1 :: u128) \<le> ucast pa" "unat (ucast pa - 1 :: u128) = unat pa - 1"
    using assms(1) by (simp_all add: word_le_nat_alt unat_gt_0 Suc_le_eq unat_sub)
  from False assms(2) obtain num less sum where
      num: "checked_mul (ucast fee) (ucast pts) = Some (num :: u128)"
    and less: "plain_sub (overflow_checks E) (ucast pa) (1 :: u128) = (Ok less :: u128 vres)"
    and sum: "checked_add num less = Some sum" "checked_div sum (ucast pa) = Some f"
    by (auto simp: lulo_fee_lp_ceil_def split: option.splits)
  from less one have "unat less = unat pa - 1" by (auto simp: plain_sub_def split: if_splits)
  with num sum assms(1) show ?thesis
    by (simp add: checked_mul_Some checked_add_Some checked_div_Some unat_gt_0 Suc_le_eq)
qed

text \<open>
  What the prediction computes: the buffer and the net amount staked at the pool's price, the
  referral fee's shares (rounded up) burned, and the position then revalued, never above the value
  before plus the net amount.
\<close>

lemma lulo_predictE:
  assumes "lulo_predict E st wv net tb = Ok np"
  obtains new_lp lp_a fee fee_lp post pv pfee where "lu_protected_amount st \<noteq> 0"
    "unat (new_lp :: u128) = (unat (wv_free_underlying_held wv) + unat net)
       * unat (lu_protected_total_supply st) div unat (lu_protected_amount st)"
    "unat lp_a = unat (wv_intermediate_held wv) + unat new_lp"
    "lulo_fee E st lp_a (wv_intermediate_held wv) = Ok fee"
    "unat (fee_lp :: u128) = (unat fee * unat (lu_protected_total_supply st)
       + unat (lu_protected_amount st) - 1) div unat (lu_protected_amount st)"
    "unat post = unat (wv_intermediate_held wv) + (unat new_lp - unat fee_lp)"
    "lulo_value E st post = Ok pv" "lulo_fee E st post post = Ok pfee"
    "unat np = min (unat pv + unat pfee) (unat tb + unat net)"
proof -
  let ?pa = "lu_protected_amount st" and ?pts = "lu_protected_total_supply st"
  let ?old = "wv_intermediate_held wv"
  from assms have "\<exists>bt new_lp lp_a fee fee_lp post pv pfee sv dv. ?pa \<noteq> 0 \<and>
    checked_add (wv_free_underlying_held wv) net = Some bt \<and>
    (case checked_mul (ucast bt) (ucast ?pts) of None \<Rightarrow> None | Some x \<Rightarrow> checked_div x (ucast ?pa))
      = Some new_lp \<and>
    checked_add ?old new_lp = Some lp_a \<and> lulo_fee E st lp_a ?old = Ok fee \<and>
    lulo_fee_lp_ceil E ?pa ?pts fee = Ok fee_lp \<and>
    checked_add ?old (saturating_sub new_lp fee_lp) = Some post \<and> lulo_value E st post = Ok pv \<and>
    lulo_fee E st post post = Ok pfee \<and> checked_add pv pfee = Some sv \<and>
    checked_add tb net = Some dv \<and> np = min sv dv"
    unfolding lulo_predict_def Let_def by (elim ok_elims) blast
  then obtain bt new_lp lp_a fee fee_lp post pv pfee sv dv where pa: "?pa \<noteq> 0"
    and bt: "checked_add (wv_free_underlying_held wv) net = Some bt"
    and new: "(case checked_mul (ucast bt) (ucast ?pts) of None \<Rightarrow> None
      | Some x \<Rightarrow> checked_div x (ucast ?pa)) = Some new_lp"
    and lp_a: "checked_add ?old new_lp = Some lp_a" and fee: "lulo_fee E st lp_a ?old = Ok fee"
    and fee_lp: "lulo_fee_lp_ceil E ?pa ?pts fee = Ok fee_lp"
    and post: "checked_add ?old (saturating_sub new_lp fee_lp) = Some post"
    and vals: "lulo_value E st post = Ok pv" "lulo_fee E st post post = Ok pfee"
    and ends: "checked_add pv pfee = Some sv" "checked_add tb net = Some dv" "np = min sv dv"
    by blast
  from bt new have "unat new_lp = (unat (wv_free_underlying_held wv) + unat net) * unat ?pts
      div unat ?pa"
    by (auto simp: checked_mul_Some checked_add_Some checked_div_Some split: option.splits)
  moreover from ends have "unat np = min (unat pv + unat pfee) (unat tb + unat net)"
    by (simp add: checked_add_Some min_def word_le_nat_alt)
  ultimately show thesis
    using that [of new_lp lp_a fee fee_lp post pv pfee] pa lp_a fee vals post
      lulo_fee_lp_ceil_Ok [OF pa fee_lp]
    by (simp add: checked_add_Some unat_saturating_sub)
qed

lemma lulo_mint_Ok:
  "lulo_mint s tb np = Ok m \<longleftrightarrow>
     s = 0 \<and> tb = 0 \<and> m = np \<or>
     s \<noteq> 0 \<and> tb \<noteq> 0 \<and> unat m = (unat np - unat tb) * unat s div unat tb"
proof -
  let ?x = "saturating_sub np tb"
  have "checked_mul (ucast ?x :: u128) (ucast s) = Some (ucast ?x * ucast s)"
    "unat (ucast ?x * ucast s :: u128) = unat ?x * unat s"
    using u64_mul_fits_u128 [of ?x s] by (simp_all add: checked_mul_def unat_word_ariths)
  then show ?thesis
    by (auto simp: lulo_mint_def Let_def checked_div_def u128_to_u64_Ok unat_div unat_saturating_sub)
qed

text \<open>Each part of what is owed is a floor of the pro-rata part.\<close>

lemma two_floors_le:
  fixes v :: nat
  assumes "0 < lp" "ul \<le> a * lp div s"
  shows "v * ul div lp * s \<le> v * a"
proof -
  have "ul * s \<le> a * lp"
    using assms(2) by (metis mult_le_mono1 order.trans times_div_less_eq_dividend mult.commute)
  then have "v * ul * s \<le> v * a * lp" by (metis mult.assoc mult_le_mono2)
  moreover have "v * ul div lp * s * lp \<le> v * ul * s"
    by (metis (no_types) mult.assoc mult.commute mult_le_mono1 times_div_less_eq_dividend)
  ultimately have "v * ul div lp * s * lp \<le> v * a * lp" by linarith
  with assms(1) show ?thesis by simp
qed

lemma lulo_owedE:
  assumes "lulo_owed E st wv a v = Ok n"
  obtains fs ul part c where
    "unat fs = unat a * unat (wv_free_underlying_held wv) div unat (wv_wrapper_supply wv)"
    "unat ul = unat a * unat (wv_intermediate_held wv) div unat (wv_wrapper_supply wv)"
    "wv_intermediate_held wv = 0 \<and> part = (0 :: u128) \<or>
       wv_intermediate_held wv \<noteq> 0 \<and> unat part = unat v * unat (ul :: u128) div unat (wv_intermediate_held wv)"
    "unat (c :: u128) \<le> 2 ^ 64" "lu_protected_total_supply st = 0 \<or>
       unat (lu_protected_amount st) \<le> unat c * unat (lu_protected_total_supply st)"
    "unat n = unat (fs :: u128) + unat part - (unat c + 1)"
proof -
  have ratio: "unat r = unat x * unat y div unat z"
    if "(case checked_mul x y of None \<Rightarrow> None | Some w \<Rightarrow> checked_div w z) = Some r"
    for x y z r :: u128
    using that by (auto simp: checked_mul_Some checked_div_Some split: option.splits)
  from assms obtain fs ul part c g margin where
    fs: "unat fs = unat (ucast a :: u128) * unat (ucast (wv_free_underlying_held wv) :: u128)
      div unat (ucast (wv_wrapper_supply wv) :: u128)"
    and ul: "unat ul = unat (ucast a :: u128) * unat (wv_intermediate_held wv)
      div unat (ucast (wv_wrapper_supply wv) :: u128)"
    and part: "(if wv_intermediate_held wv = 0 then Ok 0
      else ok_or (case checked_mul (ucast v) ul of None \<Rightarrow> None
        | Some x \<Rightarrow> checked_div x (wv_intermediate_held wv)) (math_err ''lp part'')) = Ok part"
    and c: "(if lu_protected_total_supply st = 0 then Ok 0
      else plain_div_ceil (ucast (lu_protected_amount st)) (ucast (lu_protected_total_supply st)))
      = (Ok c :: u128 vres)"
    and g: "checked_add fs part = Some g" and margin: "plain_add (overflow_checks E) c 1 = (Ok margin :: u128 vres)"
    and n: "u128_to_u64 (saturating_sub g margin) = Ok n"
    unfolding lulo_owed_def Let_def
    by (elim ok_elims) (rule that; (erule ratio | assumption))
  note c' = lulo_margin [OF c]
  then have "margin = c + 1" "unat (c + 1) = unat c + 1"
    using margin plain_add_one(2) [of c] by (simp_all add: plain_add_one(1))
  with n g plain_add_one(2) have "unat n = unat fs + unat part - (unat c + 1)"
    by (simp add: u128_to_u64_Ok unat_saturating_sub checked_add_Some)
  moreover have "wv_intermediate_held wv = 0 \<and> part = 0 \<or>
      wv_intermediate_held wv \<noteq> 0 \<and> unat part = unat v * unat ul div unat (wv_intermediate_held wv)"
    using part by (auto dest: ratio split: if_splits)
  moreover have "unat fs = unat a * unat (wv_free_underlying_held wv) div unat (wv_wrapper_supply wv)"
    "unat ul = unat a * unat (wv_intermediate_held wv) div unat (wv_wrapper_supply wv)"
    using fs ul by simp_all
  moreover note c'
  ultimately show ?thesis by (elim conjE) (rule that; assumption)
qed

section \<open>The interface law and the properties\<close>

interpretation lulo_source: quoting_source "lulo_deposit_quote E self" "lulo_withdraw_quote E self"
  for E self
proof unfold_locales
  fix wv gc r a
  show "lulo_deposit_quote E self wv gc 0 \<noteq> Ok r"
    by (simp add: lulo_deposit_quote_def lulo_quote_deposit_def)
  show "lulo_withdraw_quote E self wv 0 \<noteq> Ok r"
    by (simp add: lulo_withdraw_quote_def lulo_quote_withdraw_def)
  show "r \<noteq> 0" if "lulo_deposit_quote E self wv gc a = Ok r"
    using that unfolding lulo_deposit_quote_def by (rule lulo_quote_depositE)
  show "r \<noteq> 0" if "lulo_withdraw_quote E self wv a = Ok r"
    using that unfolding lulo_withdraw_quote_def by (rule lulo_quote_withdrawE)
  show "unat (wv_wrapper_supply wv) + unat r < 2 ^ 64" if "lulo_deposit_quote E self wv gc a = Ok r"
    using that unfolding lulo_deposit_quote_def
    by (rule lulo_quote_depositE) (simp add: checked_add_def split: if_splits)
  show "r \<le> a" if "lulo_deposit_quote E self wv gc a = Ok r" "wv_wrapper_supply wv = 0"
    using that(1) unfolding lulo_deposit_quote_def
    by (rule lulo_quote_depositE)
      (use that(2) in \<open>auto dest!: lulo_predict_le simp: lulo_mint_Ok sub_total_fee_Ok word_le_nat_alt\<close>)
  show "a \<le> wv_wrapper_supply wv" if "lulo_withdraw_quote E self wv a = Ok r"
    using that unfolding lulo_withdraw_quote_def by (rule lulo_quote_withdrawE)
qed

text \<open>The instructions of the backend have the shape of a swap.\<close>

lemma lulo_build_accounts:
  "lulo_build_base E state wv user = Ok metas \<Longrightarrow>
   \<exists>rest. metas = meta_new user True # rest \<and> list_all (\<lambda>meta. \<not> am_is_signer meta) rest"
  unfolding lulo_build_base_def Let_def
  by (elim ok_elims) auto

interpretation lulo_builder: swap_builder "OVERPASS_PROGRAM_ID E" LULO_DEPOSIT_IX_DISCRIMINATOR
    LULO_WITHDRAW_IX_DISCRIMINATOR "lulo_build_deposit_ix E self" "lulo_build_withdraw_ix E self" for E self
  by unfold_locales
    (auto simp: is_swap_ix_def LULO_DEPOSIT_IX_DISCRIMINATOR_def LULO_WITHDRAW_IX_DISCRIMINATOR_def
      lulo_build_deposit_ix_def lulo_build_withdraw_ix_def lulo_build_deposit_def
      lulo_build_withdraw_def kamino_withdraw_backend_def withdraw_trailing_def
      dest!: lulo_build_accounts)

lemma lulo_decode_no_panic [no_panic]: "lulo_decode data \<noteq> Panic"
  unfolding lulo_decode_def by (intro no_panic; simp)

text \<open>
  C7. A Lulo withdrawal pays less than its claim: what it pays, plus the price of one share rounded
  up, plus one, is at most the pro-rata part of the vault's idle tokens and of the position's value
  (its gross value less the referral fee on its profit).
\<close>

theorem lulo_withdraw_below_claim:
  assumes "lulo_quote_withdraw E st wv a = Ok n"
  shows "\<exists>v price. lulo_value E st (wv_intermediate_held wv) = Ok v \<and>
    (lu_protected_total_supply st = 0 \<or>
     unat (lu_protected_amount st) \<le> price * unat (lu_protected_total_supply st)) \<and>
    (unat n + price + 1) * unat (wv_wrapper_supply wv)
      \<le> unat a * (unat (wv_free_underlying_held wv) + unat v)"
proof -
  from assms obtain v where v: "lulo_value E st (wv_intermediate_held wv) = Ok v"
    and n0: "n \<noteq> 0" and owed: "lulo_owed E st wv a v = Ok n"
    by (rule lulo_quote_withdrawE)
  let ?s = "unat (wv_wrapper_supply wv)" and ?f = "unat a * unat (wv_free_underlying_held wv) div unat (wv_wrapper_supply wv)"
  from owed obtain fs ul part c where fs: "unat fs = ?f"
    and ul: "unat ul = unat a * unat (wv_intermediate_held wv) div ?s"
    and part: "wv_intermediate_held wv = 0 \<and> part = (0 :: u128) \<or> wv_intermediate_held wv \<noteq> 0 \<and>
      unat part = unat v * unat (ul :: u128) div unat (wv_intermediate_held wv)"
    and c: "lu_protected_total_supply st = 0 \<or>
      unat (lu_protected_amount st) \<le> unat (c :: u128) * unat (lu_protected_total_supply st)"
    and n: "unat n = unat (fs :: u128) + unat part - (unat c + 1)"
    by (rule lulo_owedE)
  have "unat part * ?s \<le> unat a * unat v"
    using part two_floors_le [of "unat (wv_intermediate_held wv)" "unat ul" "unat a" ?s "unat v"] ul
    by (auto simp: unat_gt_0 mult.commute [of "unat a"])
  moreover have "?f * ?s \<le> unat a * unat (wv_free_underlying_held wv)" by simp
  ultimately have "(?f + unat part) * ?s \<le> unat a * (unat (wv_free_underlying_held wv) + unat v)"
    unfolding distrib_left distrib_right by linarith
  moreover have "?f + unat part = unat n + unat c + 1"
    using n n0 fs by (simp add: unat_eq_zero [symmetric])
  ultimately have "(unat n + unat c + 1) * ?s
      \<le> unat a * (unat (wv_free_underlying_held wv) + unat v)"
    by (simp only:)
  with v c show ?thesis by blast
qed

text \<open>
  C8. A Lulo deposit mints for exactly the value it adds, rounded down at the vault's share price.
  The value added is what the predicted position is worth less what the vault held before: the
  buffer and the deposit after its fees are staked at the pool's price, the shares of the referral
  fee (rounded up) are burned, and the position left is revalued, capped by the value before plus
  the net deposit. So the minted tokens claim at most the value added, which is at most the deposit
  less its fees; the first deposit mints one token per unit of value added, and only into a vault
  that holds nothing.
\<close>

theorem lulo_deposit_within_price:
  assumes "lulo_quote_deposit E st wv gc a = Ok m"
  shows "\<exists>net v new_lp fee fee_lp post pv pfee added.
    unat (net :: u64) + unat a * unat (gc_protocol_deposit_fee_bps gc) div 10000
      + unat a * unat (wv_creator_deposit_fee_bps wv) div 10000 = unat a \<and>
    lulo_value E st (wv_intermediate_held wv) = Ok v \<and>
    unat new_lp = (unat (wv_free_underlying_held wv) + unat net)
      * unat (lu_protected_total_supply st) div unat (lu_protected_amount st) \<and>
    lulo_fee E st (wv_intermediate_held wv + new_lp) (wv_intermediate_held wv) = Ok fee \<and>
    fee_lp = (unat fee * unat (lu_protected_total_supply st) + unat (lu_protected_amount st) - 1)
      div unat (lu_protected_amount st) \<and>
    unat post = unat (wv_intermediate_held wv) + (unat new_lp - fee_lp) \<and>
    lulo_value E st post = Ok pv \<and> lulo_fee E st post post = Ok pfee \<and>
    unat (wv_free_underlying_held wv) + unat v + added
      = max (unat (wv_free_underlying_held wv) + unat v)
          (min (unat pv + unat pfee) (unat (wv_free_underlying_held wv) + unat v + unat net)) \<and>
    added \<le> unat net \<and>
    (if wv_wrapper_supply wv = 0
     then unat (wv_free_underlying_held wv) + unat v = 0 \<and> unat m = added
     else unat m = added * unat (wv_wrapper_supply wv)
         div (unat (wv_free_underlying_held wv) + unat v) \<and>
       unat m * (unat (wv_free_underlying_held wv) + unat v) \<le> added * unat (wv_wrapper_supply wv))"
proof -
  from assms obtain pf cf net v tb np where v: "lulo_value E st (wv_intermediate_held wv) = Ok v"
    and fees: "mul_bps a (gc_protocol_deposit_fee_bps gc) = Ok pf"
      "mul_bps a (wv_creator_deposit_fee_bps wv) = Ok cf"
    and net: "sub_total_fee ''deposit fee sum'' a pf cf = Ok net"
    and tb: "checked_add (wv_free_underlying_held wv) v = Some tb"
    and np: "lulo_predict E st wv net tb = Ok np"
    and m: "lulo_mint (wv_wrapper_supply wv) tb np = Ok m"
    by (rule lulo_quote_depositE)
  have tb': "unat (wv_free_underlying_held wv) + unat v = unat tb"
    using tb by (simp add: checked_add_Some)
  from np obtain new_lp lp_a fee fee_lp post pv pfee where
      lp_a: "unat lp_a = unat (wv_intermediate_held wv) + unat (new_lp :: u128)"
    and steps: "unat (new_lp :: u128) = (unat (wv_free_underlying_held wv) + unat net)
        * unat (lu_protected_total_supply st) div unat (lu_protected_amount st)"
      "lulo_fee E st lp_a (wv_intermediate_held wv) = Ok fee"
      "unat (fee_lp :: u128) = (unat fee * unat (lu_protected_total_supply st)
         + unat (lu_protected_amount st) - 1) div unat (lu_protected_amount st)"
      "unat post = unat (wv_intermediate_held wv) + (unat new_lp - unat fee_lp)"
      "lulo_value E st post = Ok pv" "lulo_fee E st post post = Ok pfee"
    and np': "unat np = min (unat pv + unat pfee) (unat tb + unat net)"
    by (rule lulo_predictE) blast
  have lp_a': "lp_a = wv_intermediate_held wv + new_lp"
    using lp_a unat_lt_128 [of lp_a] by (intro word_unat_eq_iff [THEN iffD2]) (simp add: unat_word_ariths)
  have net': "unat net + unat a * unat (gc_protocol_deposit_fee_bps gc) div 10000
      + unat a * unat (wv_creator_deposit_fee_bps wv) div 10000 = unat a"
    using net fees by (simp add: sub_total_fee_Ok mul_bps_Ok)
  have added: "unat tb + (unat np - unat tb)
      = max (unat tb) (min (unat pv + unat pfee) (unat tb + unat net))" "unat np - unat tb \<le> unat net"
    unfolding np' by simp_all
  have mint: "if wv_wrapper_supply wv = 0 then unat tb = 0 \<and> unat m = unat np - unat tb
     else unat m = (unat np - unat tb) * unat (wv_wrapper_supply wv) div unat tb \<and>
       unat m * unat tb \<le> (unat np - unat tb) * unat (wv_wrapper_supply wv)"
    using m by (auto simp: lulo_mint_Ok)
  show ?thesis
    by (rule exI [of _ net], rule exI [of _ v], rule exI [of _ new_lp], rule exI [of _ fee],
        rule exI [of _ "unat fee_lp"], rule exI [of _ post], rule exI [of _ pv], rule exI [of _ pfee],
        rule exI [of _ "unat np - unat tb"], unfold tb', intro conjI)
      (rule net' v steps steps(2) [unfolded lp_a'] added mint)+
qed

text \<open>
  Decoding a Lulo pool and quoting on any pool state never panic, with overflow checks on or off:
  every native 256-bit product fits, and the plain subtractions and additions stay in range.
\<close>

theorem lulo_never_panics:
  assumes "uint_laws E"
  shows "lulo_decode data \<noteq> Panic \<and> lulo_quote_deposit E st wv gc a \<noteq> Panic \<and>
    lulo_quote_withdraw E st wv a \<noteq> Panic"
  using uint_laws.lulo_quotes_no_panic [OF assms] lulo_decode_no_panic by simp

text \<open>
  The profit of a position is the exact floor over the integers modulo \<open>2 ^ 128\<close>: exact below
  that, an error from \<open>2 ^ 64\<close> on, and wrapped above, because the upper half of the quotient is
  dropped before the range check.
\<close>

theorem lulo_profit_modulo:
  assumes "uint_laws E"
  shows "lulo_cpos E pa pts lp basis = Ok r \<longleftrightarrow> unat r = lulo_profit pa pts lp basis mod 2 ^ 128"
  by (simp add: uint_laws.lulo_cpos_eq [OF assms] try_u64_Some unsigned_of_nat take_bit_eq_mod)

lemma lulo_profit_modulo_witness:
  "lulo_cpos std_crates 2 1 (2 ^ 127) 0 = Ok 0 \<and> lulo_profit 2 1 (2 ^ 127) 0 = 2 ^ 128"
  using lulo_profit_modulo [OF std_uint.uint_laws_axioms, of 2 1 "2 ^ 127" 0 0]
  by (simp add: lulo_profit_def)

text \<open>What a refresh that stops early leaves.\<close>

lemma lulo_decode_no_fee: "lulo_decode data = Ok s \<Longrightarrow> lu_ref_bps s = 0"
  unfolding lulo_decode_def by (elim ok_elims) auto

lemma lulo_run_fails:
  "snd (lulo_run E wv cache s) = Ok () \<or> fst (lulo_run E wv cache s) = s \<or>
    lu_ref_bps (fst (lulo_run E wv cache s)) = 0"
  unfolding lulo_run_def Let_def case_prod_unfold
  by (rule or_stop_rule [where P = "\<lambda>p. snd p = Ok () \<or> fst p = s \<or> lu_ref_bps (fst p) = 0"])+
    (auto dest: lulo_decode_no_fee)

text \<open>
  A Lulo refresh is not atomic: when it fails the backend is as it was, or it holds the new pool
  with a referral fee of 0, whatever fee it had before, because the pool is stored before the
  pool-user and referrer accounts are fetched.
\<close>

theorem lulo_failed_update:
  assumes "lulo_update E self wv cache = (self', res)" "res \<noteq> Ok ()"
  shows "self' = self \<or> lu_ref_bps (ul_state self') = 0"
  using assms lulo_run_fails [of E wv cache "ul_state self"]
  by (auto simp: lulo_update_def split: prod.splits)

text \<open>A cache that has the pool account only, and a backend with a fee of 50 basis points.\<close>

definition lulo_pool_only :: accounts_cache where
  "lulo_pool_only =
     \<lparr> get_account = (\<lambda>k. Ok (if k = replicate 32 3
          then Some \<lparr> acc_data = replicate 216 0, acc_owner = pubkey_default \<rparr> else None)),
       get_accounts = (\<lambda>ks. Ok []) \<rparr>"

definition lulo_sample :: lulo_state where
  "lulo_sample = lulo_state_default\<lparr> lu_protected_total_supply := 2000000,
     lu_protected_amount := 3000000, lu_deposit_limit := 1000000000, lu_charged_q60 := 2 ^ 60,
     lu_avg_q60 := 2 ^ 60, lu_ref_bps := 50 \<rparr>"

lemma lulo_failed_update_witness:
  "\<exists>self' e. lulo_update std_crates \<lparr> ul_state = lulo_sample \<rparr> vault_sample lulo_pool_only = (self', Err e)
    \<and> lu_ref_bps lulo_sample = 50 \<and> lu_ref_bps (ul_state self') = 0"
proof -
  have "\<exists>self' e. lulo_update std_crates \<lparr> ul_state = lulo_sample \<rparr> vault_sample lulo_pool_only = (self', Err e)
      \<and> self' \<noteq> \<lparr> ul_state = lulo_sample \<rparr>"
    by (simp add: lulo_update_def lulo_run_def lulo_pool_only_def vault_sample_def lulo_decode_def
        MIN_BYTES_FOR_QUOTE_def read_eqs index_at_def lulo_sample_def lulo_state_default_def)
  then obtain self' e where u: "lulo_update std_crates \<lparr> ul_state = lulo_sample \<rparr> vault_sample lulo_pool_only
      = (self', Err e)" "self' \<noteq> \<lparr> ul_state = lulo_sample \<rparr>"
    by blast
  with lulo_failed_update [OF u(1)] have "lu_ref_bps (ul_state self') = 0" by simp
  with u(1) show ?thesis by (auto simp: lulo_sample_def)
qed

lemmas lulo_eval = lulo_state_default_def lulo_cpos_def fee_from_profit_def position_fee_usdc_def
  lulo_lp_value_def lulo_value_def lulo_fee_def lulo_fee_lp_ceil_def lulo_predict_def lulo_mint_def
  lulo_quote_deposit_def lulo_owed_def lulo_quote_withdraw_def Q60_SHIFT_def plain_add_def
  plain_sub_def plain_div_ceil_def push_bit_eq_mult

definition lulo_vault_sample :: wrapper_vault where
  "lulo_vault_sample = vault_sample\<lparr> wv_wrapper_supply := 1000000, wv_intermediate_held := 800000,
     wv_free_underlying_held := 5000 \<rparr>"

lemmas lulo_samples = lulo_sample_def lulo_vault_sample_def vault_sample_def config_sample_def

lemma lulo_sample_quotes:
  "\<exists>n. lulo_quote_withdraw std_crates lulo_sample lulo_vault_sample 1000 = Ok n"
  "\<exists>m. lulo_quote_deposit std_crates lulo_sample lulo_vault_sample config_sample 100000 = Ok m"
  by (simp_all add: lulo_eval arith_eval lulo_samples)

lemma lulo_withdraw_below_claim_witness:
  "\<exists>n v. lulo_quote_withdraw std_crates lulo_sample lulo_vault_sample 1000 = Ok n \<and>
    lulo_value std_crates lulo_sample 800000 = Ok v \<and> unat n * 1000000 \<le> 1000 * (5000 + unat v)"
proof -
  obtain n where n: "lulo_quote_withdraw std_crates lulo_sample lulo_vault_sample 1000 = Ok n"
    using lulo_sample_quotes by blast
  then obtain v price where "lulo_value std_crates lulo_sample 800000 = Ok v"
    "(unat n + price + 1) * 1000000 \<le> 1000 * (5000 + unat v)"
    using lulo_withdraw_below_claim [OF n] by (auto simp: lulo_vault_sample_def)
  with n show ?thesis by auto
qed

lemma lulo_deposit_within_price_witness:
  "\<exists>m v added. lulo_quote_deposit std_crates lulo_sample lulo_vault_sample config_sample 100000 = Ok m \<and>
    lulo_value std_crates lulo_sample 800000 = Ok v \<and> added \<le> 99800 \<and>
    unat m = added * 1000000 div (5000 + unat v)"
proof -
  obtain m where m: "lulo_quote_deposit std_crates lulo_sample lulo_vault_sample config_sample 100000 = Ok m"
    using lulo_sample_quotes by blast
  from lulo_deposit_within_price [OF m] obtain net v added where
      "unat (net :: u64) + unat (100000 :: u64) * unat (gc_protocol_deposit_fee_bps config_sample) div 10000
        + unat (100000 :: u64) * unat (wv_creator_deposit_fee_bps lulo_vault_sample) div 10000
        = unat (100000 :: u64)"
      "lulo_value std_crates lulo_sample (wv_intermediate_held lulo_vault_sample) = Ok v"
      "added \<le> unat net"
      "if wv_wrapper_supply lulo_vault_sample = 0
       then unat (wv_free_underlying_held lulo_vault_sample) + unat v = 0 \<and> unat m = added
       else unat m = added * unat (wv_wrapper_supply lulo_vault_sample)
           div (unat (wv_free_underlying_held lulo_vault_sample) + unat v) \<and>
         unat m * (unat (wv_free_underlying_held lulo_vault_sample) + unat v)
           \<le> added * unat (wv_wrapper_supply lulo_vault_sample)"
    by (elim exE conjE) (rule that)
  then have "lulo_value std_crates lulo_sample 800000 = Ok v" "added \<le> 99800"
    "unat m = added * 1000000 div (5000 + unat v)"
    by (simp_all add: lulo_vault_sample_def vault_sample_def config_sample_def)
  with m show ?thesis by blast
qed

lemma lulo_never_panics_witness:
  "lulo_quote_deposit std_crates lulo_sample lulo_vault_sample config_sample 100000 \<noteq> Panic"
  using lulo_never_panics [OF std_uint.uint_laws_axioms] by blast

end
