(* ===== verification/Overpass.thy ===== *)
theory Overpass
  imports Bounds Prices Save Klend Kvault Marginfi Lulo
begin

text \<open>
  The Overpass venue (\<open>src/src/your_venue/mod.rs\<close>): pool creations, the dispatch over the five
  backends, the piecewise prices, and the venue itself with its refresh, quotes, bounds, directions
  and swap instructions. A search for bounds has a value only if it returns, so the operations that
  search have results of type \<open>option\<close>; they are shown to return.
\<close>

section \<open>Pool creations\<close>

definition WRAPPER_MINT_INDEX :: nat where "WRAPPER_MINT_INDEX = 3"
definition WRAPPER_VAULT_INDEX :: nat where "WRAPPER_VAULT_INDEX = 4"

definition CREATE_KLEND :: bytes where "CREATE_KLEND = [136, 245, 198, 59, 16, 197, 150, 217]"
definition CREATE_KVAULT :: bytes where "CREATE_KVAULT = [43, 164, 2, 34, 109, 244, 81, 133]"
definition CREATE_SAVE :: bytes where "CREATE_SAVE = [187, 66, 56, 163, 144, 111, 223, 237]"
definition CREATE_MARGINFI :: bytes where
  "CREATE_MARGINFI = [240, 19, 160, 156, 172, 225, 176, 81]"
definition CREATE_LULO :: bytes where "CREATE_LULO = [170, 183, 146, 74, 209, 199, 235, 168]"

text \<open>Each creation instruction with the index of the underlying mint among its accounts.\<close>

definition CREATIONS :: "(bytes \<times> nat) list" where
  "CREATIONS =
     [(CREATE_KLEND, 7), (CREATE_KVAULT, 7), (CREATE_SAVE, 7), (CREATE_MARGINFI, 9),
      (CREATE_LULO, 9)]"

definition parse_pool_creation :: "parsed_instruction \<Rightarrow> pool_creation option" where
  "parse_pool_creation ix =
     Option.bind (get_slice (pi_data ix) 0 8) (\<lambda>disc.
     Option.bind (map_option snd (find (\<lambda>(d, _). d = disc) CREATIONS)) (\<lambda>underlying_index.
     Option.bind (get_at (pi_accounts ix) WRAPPER_VAULT_INDEX) (\<lambda>pool.
     Option.bind (get_at (pi_accounts ix) WRAPPER_MINT_INDEX) (\<lambda>wrapper_mint.
     Option.bind (get_at (pi_accounts ix) underlying_index) (\<lambda>underlying_mint.
     Some \<lparr> pc_protocol = Overpass, pc_pool = pool,
            pc_mints = [underlying_mint, wrapper_mint] \<rparr>)))))"

definition parse_pool_creations :: "crates \<Rightarrow> parsed_instruction list \<Rightarrow> pool_creation list" where
  "parse_pool_creations E instructions =
     List.map_filter parse_pool_creation
       (filter (\<lambda>ix. pi_program_id ix = OVERPASS_PROGRAM_ID E) instructions)"

section \<open>The backends\<close>

datatype source =
    Source_Klend klend
  | Source_Kvault kvault
  | Source_Save save
  | Source_Marginfi marginfi
  | Source_Lulo lulo

fun source_required_pubkeys :: "crates \<Rightarrow> source \<Rightarrow> wrapper_vault \<Rightarrow> pubkey list vres" where
  "source_required_pubkeys E (Source_Klend s) wv = Ok (klend_required_pubkeys E wv)"
| "source_required_pubkeys E (Source_Kvault s) wv = kvault_required_pubkeys E (vb_state s) wv"
| "source_required_pubkeys E (Source_Save s) wv = Ok (save_required_pubkeys E wv)"
| "source_required_pubkeys E (Source_Marginfi s) wv = Ok (marginfi_required_pubkeys E wv)"
| "source_required_pubkeys E (Source_Lulo s) wv = lulo_required_pubkeys E wv"

fun source_update ::
    "crates \<Rightarrow> source \<Rightarrow> wrapper_vault \<Rightarrow> accounts_cache \<Rightarrow> source \<times> unit vres" where
  "source_update E (Source_Klend s) wv cache = apfst Source_Klend (klend_update E s wv cache)"
| "source_update E (Source_Kvault s) wv cache = apfst Source_Kvault (kvault_update E s wv cache)"
| "source_update E (Source_Save s) wv cache = apfst Source_Save (save_update E s wv cache)"
| "source_update E (Source_Marginfi s) wv cache =
     apfst Source_Marginfi (marginfi_update E s wv cache)"
| "source_update E (Source_Lulo s) wv cache = apfst Source_Lulo (lulo_update E s wv cache)"

fun source_quote_deposit ::
    "crates \<Rightarrow> source \<Rightarrow> wrapper_vault \<Rightarrow> global_config \<Rightarrow> u64 \<Rightarrow> u64 vres" where
  "source_quote_deposit E (Source_Klend s) wv gc amount = klend_deposit_quote E s wv gc amount"
| "source_quote_deposit E (Source_Kvault s) wv gc amount = kvault_deposit_quote E s wv gc amount"
| "source_quote_deposit E (Source_Save s) wv gc amount = save_deposit_quote E s wv gc amount"
| "source_quote_deposit E (Source_Marginfi s) wv gc amount =
     marginfi_deposit_quote E s wv gc amount"
| "source_quote_deposit E (Source_Lulo s) wv gc amount = lulo_deposit_quote E s wv gc amount"

fun source_quote_withdraw :: "crates \<Rightarrow> source \<Rightarrow> wrapper_vault \<Rightarrow> u64 \<Rightarrow> u64 vres" where
  "source_quote_withdraw E (Source_Klend s) wv amount = klend_withdraw_quote E s wv amount"
| "source_quote_withdraw E (Source_Kvault s) wv amount = kvault_withdraw_quote E s wv amount"
| "source_quote_withdraw E (Source_Save s) wv amount = save_withdraw_quote E s wv amount"
| "source_quote_withdraw E (Source_Marginfi s) wv amount = marginfi_withdraw_quote E s wv amount"
| "source_quote_withdraw E (Source_Lulo s) wv amount = lulo_withdraw_quote E s wv amount"

fun source_build_deposit_ix ::
    "crates \<Rightarrow> source \<Rightarrow> wrapper_vault \<Rightarrow> pubkey \<Rightarrow> u64 \<Rightarrow> u64 \<Rightarrow> instruction vres" where
  "source_build_deposit_ix E (Source_Klend s) wv user a m = klend_build_deposit_ix E s wv user a m"
| "source_build_deposit_ix E (Source_Kvault s) wv user a m = kvault_build_deposit_ix E s wv user a m"
| "source_build_deposit_ix E (Source_Save s) wv user a m = save_build_deposit_ix E s wv user a m"
| "source_build_deposit_ix E (Source_Marginfi s) wv user a m =
     marginfi_build_deposit_ix E s wv user a m"
| "source_build_deposit_ix E (Source_Lulo s) wv user a m = lulo_build_deposit_ix E s wv user a m"

fun source_build_withdraw_ix ::
    "crates \<Rightarrow> source \<Rightarrow> wrapper_vault \<Rightarrow> pubkey \<Rightarrow> u64 \<Rightarrow> u64 \<Rightarrow> instruction vres" where
  "source_build_withdraw_ix E (Source_Klend s) wv user a m = klend_build_withdraw_ix E s wv user a m"
| "source_build_withdraw_ix E (Source_Kvault s) wv user a m =
     kvault_build_withdraw_ix E s wv user a m"
| "source_build_withdraw_ix E (Source_Save s) wv user a m = save_build_withdraw_ix E s wv user a m"
| "source_build_withdraw_ix E (Source_Marginfi s) wv user a m =
     marginfi_build_withdraw_ix E s wv user a m"
| "source_build_withdraw_ix E (Source_Lulo s) wv user a m = lulo_build_withdraw_ix E s wv user a m"

fun source_lookup_table_keys :: "crates \<Rightarrow> source \<Rightarrow> wrapper_vault \<Rightarrow> pubkey list" where
  "source_lookup_table_keys E (Source_Klend s) wv = klend_lookup_table_keys E s wv"
| "source_lookup_table_keys E (Source_Kvault s) wv = kvault_lookup_table_keys E s wv"
| "source_lookup_table_keys E (Source_Save s) wv = save_lookup_table_keys E s wv"
| "source_lookup_table_keys E (Source_Marginfi s) wv = marginfi_lookup_table_keys E s wv"
| "source_lookup_table_keys E (Source_Lulo s) wv = lulo_lookup_table_keys E s wv"

fun make_source :: "crates \<Rightarrow> protocol_id \<Rightarrow> source" where
  "make_source E Klend_Id = Source_Klend klend_new"
| "make_source E Kvault_Id = Source_Kvault (kvault_new E)"
| "make_source E Save_Id = Source_Save save_new"
| "make_source E Marginfi_Id = Source_Marginfi (marginfi_new E)"
| "make_source E Lulo_Id = Source_Lulo lulo_new"

text \<open>The protocol of a backend: the pairs that \<open>needs_rebuild\<close> matches.\<close>

fun source_protocol :: "source \<Rightarrow> protocol_id" where
  "source_protocol (Source_Klend s) = Klend_Id"
| "source_protocol (Source_Kvault s) = Kvault_Id"
| "source_protocol (Source_Save s) = Save_Id"
| "source_protocol (Source_Marginfi s) = Marginfi_Id"
| "source_protocol (Source_Lulo s) = Lulo_Id"

section \<open>The venue\<close>

record overpass_venue =
  ov_wrapper_vault_pda :: pubkey
  ov_wrapper_vault :: "wrapper_vault option"
  ov_global_config :: "global_config option"
  ov_token_info :: "token_info list"
  ov_source :: "source option"
  ov_parts_deposit :: "(u64 \<times> f64) list"
  ov_parts_withdraw :: "(u64 \<times> f64) list"

definition overpass_from_account :: "crates \<Rightarrow> pubkey \<Rightarrow> account \<Rightarrow> overpass_venue vres" where
  "overpass_from_account E pk acct =
     and_then (decode_wrapper_vault (acc_data acct)) (\<lambda>wv.
     and_then (protocol_from_byte (wv_protocol wv)) (\<lambda>protocol_id.
     Ok \<lparr> ov_wrapper_vault_pda = pk, ov_wrapper_vault = Some wv, ov_global_config = None,
          ov_token_info = [token_info_default, token_info_default],
          ov_source = Some (make_source E protocol_id), ov_parts_deposit = [],
          ov_parts_withdraw = [] \<rparr>))"

fun is_lulo :: "source option \<Rightarrow> bool" where
  "is_lulo (Some (Source_Lulo _)) = True"
| "is_lulo _ = False"

definition overpass_initialized :: "overpass_venue \<Rightarrow> bool" where
  "overpass_initialized self \<longleftrightarrow>
     ov_wrapper_vault self \<noteq> None \<and> ov_global_config self \<noteq> None \<and> ov_source self \<noteq> None \<and>
     ti_pubkey (ov_token_info self ! 0) \<noteq> pubkey_default \<and> \<not> is_lulo (ov_source self)"

definition overpass_program_id :: "crates \<Rightarrow> pubkey" where
  "overpass_program_id E = OVERPASS_PROGRAM_ID E"

fun source_programs :: "crates \<Rightarrow> source option \<Rightarrow> pubkey list" where
  "source_programs E (Some (Source_Klend _)) = [KLEND_PROGRAM_ID E]"
| "source_programs E (Some (Source_Kvault _)) =
     [KVAULT_PROGRAM_ID E, KLEND_PROGRAM_ID E, FARMS_PROGRAM_ID E]"
| "source_programs E (Some (Source_Save _)) = [SAVE_PROGRAM_ID E]"
| "source_programs E (Some (Source_Marginfi _)) = [MARGINFI_PROGRAM_ID E]"
| "source_programs E (Some (Source_Lulo _)) = [LULO_PROGRAM_ID E]"
| "source_programs E None = []"

definition overpass_program_dependencies :: "crates \<Rightarrow> overpass_venue \<Rightarrow> pubkey list" where
  "overpass_program_dependencies E self =
     foldl (\<lambda>deps info.
         let program = get_token_program E info
         in if program \<in> set deps then deps else deps @ [program])
       (OVERPASS_PROGRAM_ID E # source_programs E (ov_source self)) (ov_token_info self)"

definition overpass_market_id :: "overpass_venue \<Rightarrow> pubkey" where
  "overpass_market_id self = ov_wrapper_vault_pda self"

definition overpass_protocol :: pool_protocol where
  "overpass_protocol = Overpass"

definition overpass_required_pubkeys :: "crates \<Rightarrow> overpass_venue \<Rightarrow> pubkey list vres" where
  "overpass_required_pubkeys E self =
     and_then (ok_or (ov_wrapper_vault self) (NotInitialized (EStaticStr ''wrapper_vault''))) (\<lambda>wv.
     and_then (ok_or (ov_source self) (NotInitialized (EStaticStr ''source''))) (\<lambda>source.
     and_then (global_config_pda E (OVERPASS_PROGRAM_ID E)) (\<lambda>gc_pda.
     and_then (source_required_pubkeys E source wv) (\<lambda>rest.
     Ok ([ov_wrapper_vault_pda self, gc_pda, wv_underlying_mint wv, wv_wrapper_mint wv] @ rest)))))"

section \<open>Quotes and instructions\<close>

definition overpass_quote :: "crates \<Rightarrow> overpass_venue \<Rightarrow> quote_request \<Rightarrow> f64 quote_result vres" where
  "overpass_quote E self request =
     (if is_lulo (ov_source self) then Err (UnsupportedVenue (EStaticStr ''lulo''))
      else if rq_swap_type request = ExactOut then Err ExactOutNotSupported
      else
        and_then (ok_or (ov_wrapper_vault self) (NotInitialized (EStaticStr ''wrapper_vault'')))
          (\<lambda>wv.
        and_then (ok_or (ov_global_config self) (NotInitialized (EStaticStr ''global_config'')))
          (\<lambda>gc.
        and_then (ok_or (ov_source self) (NotInitialized (EStaticStr ''source''))) (\<lambda>source.
        and_then (detect wv (rq_input_mint request) (rq_output_mint request)) (\<lambda>dir.
        let parts = (case dir of Deposit \<Rightarrow> ov_parts_deposit self
                               | Withdraw \<Rightarrow> ov_parts_withdraw self);
            price = price_at parts (rq_amount request)
        in if u64_max div 2 \<le> rq_amount request then
             Ok \<lparr> qr_input_mint = rq_input_mint request, qr_output_mint = rq_output_mint request,
                  qr_amount = 0, qr_expected_output = 0, qr_not_enough_liquidity = True,
                  qr_price = price \<rparr>
           else
             and_then (ok (case dir of
                 Deposit \<Rightarrow> source_quote_deposit E source wv gc (rq_amount request)
               | Withdraw \<Rightarrow> source_quote_withdraw E source wv (rq_amount request))) (\<lambda>out.
             let (amount, expected_output, not_enough_liquidity) =
                   (case out of Some v \<Rightarrow> (rq_amount request, v, False) | None \<Rightarrow> (0, 0, True))
             in Ok \<lparr> qr_input_mint = rq_input_mint request,
                     qr_output_mint = rq_output_mint request, qr_amount = amount,
                     qr_expected_output = expected_output,
                     qr_not_enough_liquidity = not_enough_liquidity, qr_price = price \<rparr>))))))"

definition overpass_generate_swap_instruction ::
    "crates \<Rightarrow> overpass_venue \<Rightarrow> quote_request \<Rightarrow> pubkey \<Rightarrow> instruction vres" where
  "overpass_generate_swap_instruction E self request user =
     (if rq_swap_type request = ExactOut then Err ExactOutNotSupported
      else
        and_then (ok_or (ov_wrapper_vault self) (NotInitialized (EStaticStr ''wrapper_vault'')))
          (\<lambda>wv.
        and_then (ok_or (ov_source self) (NotInitialized (EStaticStr ''source''))) (\<lambda>source.
        and_then (detect wv (rq_input_mint request) (rq_output_mint request)) (\<lambda>dir.
        case dir of
          Deposit \<Rightarrow> source_build_deposit_ix E source wv user (rq_amount request) 0
        | Withdraw \<Rightarrow> source_build_withdraw_ix E source wv user (rq_amount request) 0))))"

definition overpass_lookup_table_keys :: "crates \<Rightarrow> overpass_venue \<Rightarrow> pubkey list vres" where
  "overpass_lookup_table_keys E self =
     and_then (ok_or (ov_wrapper_vault self) (NotInitialized (EStaticStr ''wrapper_vault''))) (\<lambda>wv.
     and_then (ok_or (ov_source self) (NotInitialized (EStaticStr ''source''))) (\<lambda>source.
     Ok (source_lookup_table_keys E source wv)))"

section \<open>Bounds and directions\<close>

definition overpass_bounds ::
    "crates \<Rightarrow> overpass_venue \<Rightarrow> u8 \<Rightarrow> u8 \<Rightarrow> (u64 \<times> u64) vres option" where
  "overpass_bounds E self = venue_bounds (overflow_checks E) (ov_token_info self) (overpass_quote E self)"

definition overpass_directions_num ::
    "crates \<Rightarrow> overpass_venue \<Rightarrow> (u8 \<times> u8) list vres option" where
  "overpass_directions_num E self =
     (let supply = (case ov_wrapper_vault self of Some w \<Rightarrow> wv_wrapper_supply w | None \<Rightarrow> 0)
      in case overpass_bounds E self 0 1 of
           None \<Rightarrow> None
         | Some deposit \<Rightarrow>
             (case overpass_bounds E self 1 0 of
                None \<Rightarrow> None
              | Some withdraw \<Rightarrow> Some (
                  and_then (ok deposit) (\<lambda>d.
                  and_then (ok withdraw) (\<lambda>w.
                  let deposit_ok = (d \<noteq> None); withdraw_ok = (w \<noteq> None)
                  in if 0 < supply \<and> \<not> withdraw_ok then Ok []
                     else Ok ((if deposit_ok then [(0, 1)] else [])
                       @ (if withdraw_ok then [(1, 0)] else [])))))))"

section \<open>The refresh\<close>

text \<open>
  The part up to the stored vault and configuration. The token data is stored before the second
  mint is read, and the backend is replaced and refreshed before the vault is stored: a failure
  leaves what was written before it.
\<close>

definition overpass_refresh_accounts ::
    "crates \<Rightarrow> overpass_venue \<Rightarrow> accounts_cache \<Rightarrow> overpass_venue \<times> unit vres" where
  "overpass_refresh_accounts E self cache =
     or_stop (global_config_pda E (OVERPASS_PROGRAM_ID E)) self (\<lambda>gc_pda.
     or_stop (get_account cache (ov_wrapper_vault_pda self)) self (\<lambda>wv_opt.
     or_stop (ok_or wv_opt (NoAccountFound (EPubkey (ov_wrapper_vault_pda self)))) self (\<lambda>wv_acct.
     or_stop (decode_wrapper_vault (acc_data wv_acct)) self (\<lambda>wv.
     or_stop (get_accounts cache [gc_pda, wv_underlying_mint wv, wv_wrapper_mint wv]) self
       (\<lambda>accounts.
     or_stop (ok_or (try_three accounts) FailedToFetchMultipleAccountData) self
       (\<lambda>(gc_opt, underlying_mint_opt, wrapper_mint_opt).
     or_stop (ok_or gc_opt (NoAccountFound (EPubkey gc_pda))) self (\<lambda>gc_acct.
     or_stop (decode_global_config (acc_data gc_acct)) self (\<lambda>gc.
     or_stop (ok_or underlying_mint_opt (NoAccountFound (EPubkey (wv_underlying_mint wv)))) self
       (\<lambda>underlying_mint_acct.
     or_stop (ok_or wrapper_mint_opt (NoAccountFound (EPubkey (wv_wrapper_mint wv)))) self
       (\<lambda>wrapper_mint_acct.
     or_stop (token_info_new E (wv_underlying_mint wv) underlying_mint_acct u64_max) self (\<lambda>t0.
     let self1 = self\<lparr> ov_token_info := (ov_token_info self)[0 := t0] \<rparr>
     in or_stop (token_info_new E (wv_wrapper_mint wv) wrapper_mint_acct u64_max) self1 (\<lambda>t1.
     let self2 = self1\<lparr> ov_token_info := (ov_token_info self1)[1 := t1] \<rparr>
     in or_stop (protocol_from_byte (wv_protocol wv)) self2 (\<lambda>current_protocol.
     let needs_rebuild =
           (case ov_source self2 of
              Some s \<Rightarrow> source_protocol s \<noteq> current_protocol
            | None \<Rightarrow> True);
         self3 = (if needs_rebuild
                  then self2\<lparr> ov_source := Some (make_source E current_protocol) \<rparr> else self2)
     in or_stop (ok_or (ov_source self3) (NotInitialized (EStaticStr ''source''))) self3 (\<lambda>source.
     let (source', res) = source_update E source wv cache;
         self4 = self3\<lparr> ov_source := Some source' \<rparr>
     in or_stop res self4 (\<lambda>_.
     (self4\<lparr> ov_wrapper_vault := Some wv, ov_global_config := Some gc \<rparr>, Ok ()))))))))))))))))"

text \<open>The part after it: both searches for bounds, then the prices between them.\<close>

definition overpass_prices ::
    "crates \<Rightarrow> overpass_venue \<Rightarrow> (u64 \<times> u64) option \<Rightarrow> (u64 \<times> u64) option \<Rightarrow>
      ((u64 \<times> f64) list \<times> (u64 \<times> f64) list) vres" where
  "overpass_prices E self bd bw =
     (case (ov_source self, ov_wrapper_vault self, ov_global_config self) of
        (Some source, Some wv, Some gc) \<Rightarrow>
          and_then (price_parts (overflow_checks E) bd
                      (\<lambda>x. ok (source_quote_deposit E source wv gc x))) (\<lambda>pd.
          and_then (price_parts (overflow_checks E) bw
                      (\<lambda>x. ok (source_quote_withdraw E source wv x))) (\<lambda>pw.
          Ok (pd, pw)))
      | _ \<Rightarrow> Ok ([], []))"

definition overpass_update_state ::
    "crates \<Rightarrow> overpass_venue \<Rightarrow> accounts_cache \<Rightarrow> (overpass_venue \<times> unit vres) option" where
  "overpass_update_state E self cache =
     (case overpass_refresh_accounts E self cache of
        (self', Ok _) \<Rightarrow>
          (case (overpass_bounds E self' 0 1, overpass_bounds E self' 1 0) of
             (Some bd_res, Some bw_res) \<Rightarrow>
               Some (or_stop (ok bd_res) self' (\<lambda>bd.
                     or_stop (ok bw_res) self' (\<lambda>bw.
                     or_stop (overpass_prices E self' bd bw) self' (\<lambda>(pd, pw).
                     (self'\<lparr> ov_parts_deposit := pd, ov_parts_withdraw := pw \<rparr>, Ok ())))))
           | _ \<Rightarrow> None)
      | stopped \<Rightarrow> Some stopped)"

section \<open>The interface law of the dispatch\<close>

lemmas backend_deposit_zero =
  klend_source.deposit_zero kvault_source.deposit_zero save_source.deposit_zero
  marginfi_source.deposit_zero lulo_source.deposit_zero

lemmas backend_withdraw_zero =
  klend_source.withdraw_zero kvault_source.withdraw_zero save_source.withdraw_zero
  marginfi_source.withdraw_zero lulo_source.withdraw_zero

lemmas backend_deposit_positive =
  klend_source.deposit_positive kvault_source.deposit_positive save_source.deposit_positive
  marginfi_source.deposit_positive lulo_source.deposit_positive

lemmas backend_withdraw_positive =
  klend_source.withdraw_positive kvault_source.withdraw_positive save_source.withdraw_positive
  marginfi_source.withdraw_positive lulo_source.withdraw_positive

lemmas backend_deposit_supply_fits =
  klend_source.deposit_supply_fits kvault_source.deposit_supply_fits
  save_source.deposit_supply_fits marginfi_source.deposit_supply_fits
  lulo_source.deposit_supply_fits

lemmas backend_deposit_first =
  klend_source.deposit_first kvault_source.deposit_first save_source.deposit_first
  marginfi_source.deposit_first lulo_source.deposit_first

lemmas backend_withdraw_within_supply =
  klend_source.withdraw_within_supply kvault_source.withdraw_within_supply
  save_source.withdraw_within_supply marginfi_source.withdraw_within_supply
  lulo_source.withdraw_within_supply

interpretation overpass_source:
  quoting_source "source_quote_deposit E src" "source_quote_withdraw E src" for E src
proof unfold_locales
  fix wv gc a r
  show "source_quote_deposit E src wv gc 0 \<noteq> Ok r"
    by (cases src) (simp_all add: backend_deposit_zero)
  show "source_quote_withdraw E src wv 0 \<noteq> Ok r"
    by (cases src) (simp_all add: backend_withdraw_zero)
  show "r \<noteq> 0" if "source_quote_deposit E src wv gc a = Ok r"
    using that by (cases src) (auto dest: backend_deposit_positive)
  show "r \<noteq> 0" if "source_quote_withdraw E src wv a = Ok r"
    using that by (cases src) (auto dest: backend_withdraw_positive)
  show "unat (wv_wrapper_supply wv) + unat r < 2 ^ 64" if "source_quote_deposit E src wv gc a = Ok r"
    using that by (cases src) (auto dest: backend_deposit_supply_fits)
  show "r \<le> a" if "source_quote_deposit E src wv gc a = Ok r" "wv_wrapper_supply wv = 0"
    using that by (cases src) (auto dest: backend_deposit_first)
  show "a \<le> wv_wrapper_supply wv" if "source_quote_withdraw E src wv a = Ok r"
    using that by (cases src) (auto dest: backend_withdraw_within_supply)
qed

section \<open>What a successful quote says\<close>

abbreviation source_quote ::
    "crates \<Rightarrow> source \<Rightarrow> wrapper_vault \<Rightarrow> global_config \<Rightarrow> direction \<Rightarrow> u64 \<Rightarrow> u64 vres" where
  "source_quote E source wv gc dir amount \<equiv>
     (case dir of Deposit \<Rightarrow> source_quote_deposit E source wv gc amount
                | Withdraw \<Rightarrow> source_quote_withdraw E source wv amount)"

abbreviation parts_of :: "overpass_venue \<Rightarrow> direction \<Rightarrow> (u64 \<times> f64) list" where
  "parts_of self dir \<equiv>
     (case dir of Deposit \<Rightarrow> ov_parts_deposit self | Withdraw \<Rightarrow> ov_parts_withdraw self)"

lemma overpass_quoteE:
  assumes "overpass_quote E self rq = Ok r"
  obtains wv gc src dir where "ov_wrapper_vault self = Some wv" "ov_global_config self = Some gc"
    "ov_source self = Some src" "detect wv (rq_input_mint rq) (rq_output_mint rq) = Ok dir"
    "\<not> is_lulo (ov_source self)" "rq_swap_type rq = ExactIn"
    "qr_input_mint r = rq_input_mint rq" "qr_output_mint r = rq_output_mint rq"
    "qr_price r = price_at (parts_of self dir) (rq_amount rq)"
    "qr_not_enough_liquidity r \<and> qr_amount r = 0 \<and> qr_expected_output r = 0 \<or>
     \<not> qr_not_enough_liquidity r \<and> qr_amount r = rq_amount rq \<and> rq_amount rq < u64_max div 2 \<and>
     source_quote E src wv gc dir (rq_amount rq) = Ok (qr_expected_output r)"
proof -
  from assms obtain wv gc src dir where w: "ov_wrapper_vault self = Some wv"
      "ov_global_config self = Some gc" "ov_source self = Some src"
      "detect wv (rq_input_mint rq) (rq_output_mint rq) = Ok dir"
      "\<not> is_lulo (ov_source self)" "rq_swap_type rq \<noteq> ExactOut"
    and body: "(if u64_max div 2 \<le> rq_amount rq then
        Ok \<lparr> qr_input_mint = rq_input_mint rq, qr_output_mint = rq_output_mint rq, qr_amount = 0,
          qr_expected_output = 0, qr_not_enough_liquidity = True,
          qr_price = price_at (parts_of self dir) (rq_amount rq) \<rparr>
      else
        and_then (ok (source_quote E src wv gc dir (rq_amount rq))) (\<lambda>out.
        case (case out of None \<Rightarrow> (0, 0, True) | Some v \<Rightarrow> (rq_amount rq, v, False)) of
          (amount, expected_output, not_enough_liquidity) \<Rightarrow>
            Ok \<lparr> qr_input_mint = rq_input_mint rq, qr_output_mint = rq_output_mint rq,
              qr_amount = amount, qr_expected_output = expected_output,
              qr_not_enough_liquidity = not_enough_liquidity,
              qr_price = price_at (parts_of self dir) (rq_amount rq) \<rparr>))
      = (Ok r :: f64 quote_result vres)"
    unfolding overpass_quote_def Let_def
    by (elim ok_elims) (rule that; assumption)
  show thesis
  proof (rule that [OF w(1-5)])
    show "rq_swap_type rq = ExactIn" using w(6) by (cases "rq_swap_type rq") simp_all
    show "qr_input_mint r = rq_input_mint rq" "qr_output_mint r = rq_output_mint rq"
      using body by (cases "u64_max div 2 \<le> rq_amount rq"; force split: option.splits)+
    show "qr_price r = price_at (parts_of self dir) (rq_amount rq)"
      using body by (cases "u64_max div 2 \<le> rq_amount rq"; force split: option.splits)
    show "qr_not_enough_liquidity r \<and> qr_amount r = 0 \<and> qr_expected_output r = 0 \<or>
     \<not> qr_not_enough_liquidity r \<and> qr_amount r = rq_amount rq \<and> rq_amount rq < u64_max div 2 \<and>
     source_quote E src wv gc dir (rq_amount rq) = Ok (qr_expected_output r)"
    proof (cases "u64_max div 2 \<le> rq_amount rq")
      case False
      with body obtain out where out: "ok (source_quote E src wv gc dir (rq_amount rq)) = (Ok out :: u64 option vres)"
        and r: "qr_amount r = (case out of Some v \<Rightarrow> rq_amount rq | None \<Rightarrow> 0)"
          "qr_expected_output r = (case out of Some v \<Rightarrow> v | None \<Rightarrow> 0)"
          "qr_not_enough_liquidity r \<longleftrightarrow> out = None"
        by (auto split: option.splits)
      show ?thesis
      proof (cases out)
        case (Some v)
        with out r False show ?thesis by (simp add: not_le)
      qed (use r in simp)
    qed (use body in auto)
  qed
qed

lemma source_quote_positive:
  "source_quote E src wv gc dir a = Ok v \<Longrightarrow> a \<noteq> 0 \<and> v \<noteq> 0"
  by (rule overpass_source.quote_positive)

lemma overpass_quote_no_panic_of:
  assumes "\<And>src wv gc dir a. ov_source self = Some src \<Longrightarrow> source_quote E src wv gc dir a \<noteq> Panic"
  shows "overpass_quote E self rq \<noteq> Panic"
  unfolding overpass_quote_def Let_def
  by (intro no_panic detect_no_panic) (auto simp: assms split: option.splits direction.splits)

section \<open>The searches return\<close>

lemma overpass_bounds_Some: "\<exists>r. overpass_bounds E self i j = Some r"
proof -
  have "\<exists>r. find_boundaries chk f = Some r" for chk f
    by (cases rule: find_boundaries_cases [of chk f]) simp_all
  then show ?thesis
    unfolding overpass_bounds_def venue_bounds_def by (auto split: outcome.splits)
qed

lemma overpass_bounds_valid:
  assumes "overpass_bounds E self i j = Some (Ok (lo, hi))"
  obtains ti tj where
    "get_token (ov_token_info self) (unat i) = Ok ti" "get_token (ov_token_info self) (unat j) = Ok tj"
    "lo \<le> hi" "\<And>x. x = lo \<or> x = hi \<Longrightarrow> valid_at (\<lambda>x. overpass_quote E self
      \<lparr> rq_input_mint = ti_pubkey ti, rq_output_mint = ti_pubkey tj, rq_amount = x,
        rq_swap_type = ExactIn \<rparr>) x"
proof -
  have valid: "valid_at f lo \<and> valid_at f hi \<and> lo \<le> hi"
    if "find_boundaries chk f = Some (Ok (lo, hi))" for chk f
    using that by (cases rule: find_boundaries_cases [of chk f])
      (auto simp: refined_lower_def refined_upper_def)
  from assms obtain ti tj where "get_token (ov_token_info self) (unat i) = Ok ti"
      "get_token (ov_token_info self) (unat j) = Ok tj"
    and "find_boundaries (overflow_checks E) (\<lambda>x. overpass_quote E self
      \<lparr> rq_input_mint = ti_pubkey ti, rq_output_mint = ti_pubkey tj, rq_amount = x,
        rq_swap_type = ExactIn \<rparr>) = Some (Ok (lo, hi))"
    unfolding overpass_bounds_def venue_bounds_def by (auto split: outcome.splits)
  with valid that show thesis by blast
qed

section \<open>What a refresh changes\<close>

lemma source_update_protocol [simp]:
  "source_protocol (fst (source_update E src wv cache)) = source_protocol src"
  by (cases src) simp_all

lemma make_source_protocol [simp]: "source_protocol (make_source E p) = p"
  by (cases p) simp_all

text \<open>Every way out of the first part keeps the shape of the venue, and its prices.\<close>

lemma refresh_accounts_keeps:
  fixes self :: overpass_venue
  defines "P \<equiv> \<lambda>p :: overpass_venue \<times> unit vres.
    length (ov_token_info (fst p)) = length (ov_token_info self) \<and>
    ov_wrapper_vault_pda (fst p) = ov_wrapper_vault_pda self \<and>
    ov_parts_deposit (fst p) = ov_parts_deposit self \<and>
    ov_parts_withdraw (fst p) = ov_parts_withdraw self \<and>
    (ov_source self \<noteq> None \<longrightarrow> ov_source (fst p) \<noteq> None) \<and>
    (snd p \<noteq> Ok () \<longrightarrow> ov_wrapper_vault (fst p) = ov_wrapper_vault self \<and>
       ov_global_config (fst p) = ov_global_config self)"
  shows "P (overpass_refresh_accounts E self cache)"
  unfolding overpass_refresh_accounts_def Let_def case_prod_unfold
  by (rule or_stop_rule [where P = P])+ (auto simp: P_def)

lemma refresh_accounts_OkE:
  assumes "overpass_refresh_accounts E self cache = (self', Ok ())" "length (ov_token_info self) = 2"
  obtains wv gc src where "ov_wrapper_vault self' = Some wv" "ov_global_config self' = Some gc"
    "ov_source self' = Some src" "protocol_from_byte (wv_protocol wv) = Ok (source_protocol src)"
    "map ti_pubkey (ov_token_info self') = [wv_underlying_mint wv, wv_wrapper_mint wv]"
    "wf_wrapper_vault wv"
proof -
  obtain a b where ab: "ov_token_info self = [a, b]"
    using assms(2) by (cases "ov_token_info self" rule: remdups_adj.cases) auto
  have pk: "ti_pubkey t = k" if "token_info_new E k acc ep = Ok t" for t k acc ep
    using that by (auto simp: token_info_new_def Let_def split: option.splits prod.splits)
  have "\<exists>wv gc src. ov_wrapper_vault self' = Some wv \<and> ov_global_config self' = Some gc \<and>
    ov_source self' = Some src \<and> protocol_from_byte (wv_protocol wv) = Ok (source_protocol src) \<and>
    map ti_pubkey (ov_token_info self') = [wv_underlying_mint wv, wv_wrapper_mint wv] \<and>
    wf_wrapper_vault wv"
    using assms(1) unfolding overpass_refresh_accounts_def Let_def case_prod_unfold
    by (elim or_stop_OkE)
      (auto simp: ab pk decode_wrapper_vault_wf split: option.splits if_splits)
  then show thesis by (elim exE conjE) (rule that; assumption)
qed


end
