(* ===== verification/Venue_Properties.thy ===== *)
theory Venue_Properties
  imports Overpass
begin

text \<open>
  What holds of an Overpass venue over its lifetime: the venues that can arise from an account and
  updates, the shape of the instructions, the properties of quotes, prices, bounds, directions,
  updates and pool creations, and a concrete Save venue on which each of them is applied.
\<close>

section \<open>Venues over time\<close>

text \<open>A venue is created from its account and then updated any number of times, in any way.\<close>

inductive venue_reachable :: "crates \<Rightarrow> overpass_venue \<Rightarrow> bool" for E where
  created: "overpass_from_account E pk acct = Ok v \<Longrightarrow> venue_reachable E v"
| updated: "venue_reachable E v \<Longrightarrow> overpass_update_state E v cache = Some (v', res) \<Longrightarrow>
    venue_reachable E v'"

definition wf_venue :: "overpass_venue \<Rightarrow> bool" where
  "wf_venue v \<longleftrightarrow>
     length (ov_token_info v) = 2 \<and> ov_source v \<noteq> None \<and>
     (\<exists>wv. ov_wrapper_vault v = Some wv \<and> wf_wrapper_vault wv) \<and>
     parts_ok (ov_parts_deposit v) \<and> parts_ok (ov_parts_withdraw v)"

text \<open>After the refresh nothing fails any more: a quote that fails has no price.\<close>

lemma or_stop_no_ErrE:
  "or_stop m st k = (st', r) \<Longrightarrow> (\<And>e. m \<noteq> Err e) \<Longrightarrow> (st' = st \<Longrightarrow> r = Panic \<Longrightarrow> P) \<Longrightarrow>
   (\<And>x. m = Ok x \<Longrightarrow> k x = (st', r) \<Longrightarrow> P) \<Longrightarrow> P"
  by (cases m) auto

lemma slope_parts_not_Err: "slope_parts chk (\<lambda>x. ok (q x)) ws \<noteq> Err e"
proof (induction ws)
  case (Cons w ws)
  then show ?case by (cases w) (auto simp: plain_sub_def split: option.splits if_splits)
qed simp

lemma overpass_prices_not_Err: "overpass_prices E w bd bw \<noteq> Err e"
  by (auto simp: overpass_prices_def price_parts_def Let_def slope_parts_not_Err
      split: option.splits prod.splits)

text \<open>How an update ends: with the refresh, with a panic of a quote, or with new prices.\<close>

lemma update_state_cases:
  assumes "overpass_update_state E v cache = Some (v', res)"
  obtains (stopped) "overpass_refresh_accounts E v cache = (v', res)" "res \<noteq> Ok ()"
    | (panicked) "overpass_refresh_accounts E v cache = (v', Ok ())" "res = Panic"
    | (priced) w bd bw pd pw where "overpass_refresh_accounts E v cache = (w, Ok ())"
      "overpass_prices E w bd bw = Ok (pd, pw)" "res = Ok ()"
      "v' = w\<lparr> ov_parts_deposit := pd, ov_parts_withdraw := pw \<rparr>"
proof -
  obtain w r where r: "overpass_refresh_accounts E v cache = (w, r)" by force
  show thesis
  proof (cases "r = Ok ()")
    case False
    with assms r have "v' = w" "res = r"
      by (auto simp: overpass_update_state_def split: outcome.splits)
    with r False stopped show thesis by blast
  next
    case True
    obtain bd_res bw_res where b: "overpass_bounds E w 0 1 = Some bd_res"
      "overpass_bounds E w 1 0 = Some bw_res" using overpass_bounds_Some by blast
    note r' = r [unfolded True]
    from assms b r' have "or_stop (ok bd_res) w (\<lambda>bd. or_stop (ok bw_res) w (\<lambda>bw.
        or_stop (overpass_prices E w bd bw) w (\<lambda>(pd, pw).
        (w\<lparr> ov_parts_deposit := pd, ov_parts_withdraw := pw \<rparr>, Ok ())))) = (v', res)"
      by (simp add: overpass_update_state_def)
    then show thesis
      by (elim or_stop_no_ErrE) (use r' in \<open>auto simp: overpass_prices_not_Err
          intro: panicked priced\<close>)
  qed
qed

lemma update_state_Some: "\<exists>v' res. overpass_update_state E v cache = Some (v', res)"
proof -
  obtain w r where r: "overpass_refresh_accounts E v cache = (w, r)" by force
  obtain bd_res bw_res where "overpass_bounds E w 0 1 = Some bd_res"
    "overpass_bounds E w 1 0 = Some bw_res" using overpass_bounds_Some by blast
  with r show ?thesis by (cases r) (simp_all add: overpass_update_state_def)
qed

lemma overpass_prices_ok:
  "overpass_prices E w bd bw = Ok (pd, pw) \<Longrightarrow> parts_ok pd \<and> parts_ok pw"
  by (auto simp: overpass_prices_def split: option.splits dest: price_parts_ok)

lemma from_account_wf: "overpass_from_account E pk acct = Ok v \<Longrightarrow> wf_venue v"
  by (auto simp: overpass_from_account_def wf_venue_def decode_wrapper_vault_wf)

lemma update_keeps_wf:
  assumes "overpass_update_state E v cache = Some (v', res)" "wf_venue v"
  shows "wf_venue v'"
proof -
  have len: "length (ov_token_info v) = 2" using assms(2) by (simp add: wf_venue_def)
  note keeps = refresh_accounts_keeps [where self = v and E = E and cache = cache]
  have refreshed: "wf_venue w" if w: "overpass_refresh_accounts E v cache = (w, Ok ())" for w
  proof (rule refresh_accounts_OkE [OF w len])
    fix wv gc src
    assume "ov_wrapper_vault w = Some wv" "ov_source w = Some src" "wf_wrapper_vault wv"
    with keeps assms(2) w show "wf_venue w" by (simp add: wf_venue_def)
  qed
  from assms(1) show ?thesis
  proof (cases rule: update_state_cases)
    case stopped
    with keeps assms(2) show ?thesis by (auto simp: wf_venue_def)
  next
    case panicked
    with refreshed show ?thesis by blast
  next
    case (priced w bd bw pd pw)
    with refreshed [of w] overpass_prices_ok [of E w bd bw pd pw] show ?thesis
      by (simp add: wf_venue_def)
  qed
qed

lemma reachable_wf: "venue_reachable E v \<Longrightarrow> wf_venue v"
  by (induction rule: venue_reachable.induct) (auto intro: from_account_wf update_keeps_wf)

lemma wf_venue_parts: "wf_venue v \<Longrightarrow> parts_ok (parts_of v dir)"
  by (cases dir) (simp_all add: wf_venue_def)

section \<open>The instructions of the dispatch\<close>

fun entry_discriminator :: "protocol_id \<Rightarrow> direction \<Rightarrow> bytes" where
  "entry_discriminator Klend_Id Deposit = KLEND_DEPOSIT_IX_DISCRIMINATOR"
| "entry_discriminator Klend_Id Withdraw = KLEND_WITHDRAW_IX_DISCRIMINATOR"
| "entry_discriminator Kvault_Id Deposit = KVAULT_DEPOSIT_IX_DISCRIMINATOR"
| "entry_discriminator Kvault_Id Withdraw = KVAULT_WITHDRAW_IX_DISCRIMINATOR"
| "entry_discriminator Save_Id Deposit = SAVE_DEPOSIT_IX_DISCRIMINATOR"
| "entry_discriminator Save_Id Withdraw = SAVE_WITHDRAW_IX_DISCRIMINATOR"
| "entry_discriminator Marginfi_Id Deposit = MARGINFI_DEPOSIT_IX_DISCRIMINATOR"
| "entry_discriminator Marginfi_Id Withdraw = MARGINFI_WITHDRAW_IX_DISCRIMINATOR"
| "entry_discriminator Lulo_Id Deposit = LULO_DEPOSIT_IX_DISCRIMINATOR"
| "entry_discriminator Lulo_Id Withdraw = LULO_WITHDRAW_IX_DISCRIMINATOR"

lemmas entry_discriminators =
  KLEND_DEPOSIT_IX_DISCRIMINATOR_def KLEND_WITHDRAW_IX_DISCRIMINATOR_def
  KVAULT_DEPOSIT_IX_DISCRIMINATOR_def KVAULT_WITHDRAW_IX_DISCRIMINATOR_def
  SAVE_DEPOSIT_IX_DISCRIMINATOR_def SAVE_WITHDRAW_IX_DISCRIMINATOR_def
  MARGINFI_DEPOSIT_IX_DISCRIMINATOR_def MARGINFI_WITHDRAW_IX_DISCRIMINATOR_def
  LULO_DEPOSIT_IX_DISCRIMINATOR_def LULO_WITHDRAW_IX_DISCRIMINATOR_def

lemma entry_discriminator_length [simp]: "length (entry_discriminator p d) = 8"
  by (cases p; cases d) (simp_all add: entry_discriminators)

text \<open>The ten entry points are told apart by their discriminators.\<close>

lemma entry_discriminator_inject:
  "entry_discriminator p d = entry_discriminator p' d' \<longleftrightarrow> p = p' \<and> d = d'"
  by (cases p; cases d; cases p'; cases d') (simp_all add: entry_discriminators)

lemmas backend_deposit_ix =
  klend_builder.deposit_ix kvault_builder.deposit_ix save_builder.deposit_ix
  marginfi_builder.deposit_ix lulo_builder.deposit_ix

lemmas backend_withdraw_ix =
  klend_builder.withdraw_ix kvault_builder.withdraw_ix save_builder.withdraw_ix
  marginfi_builder.withdraw_ix lulo_builder.withdraw_ix

interpretation overpass_builder: swap_builder "OVERPASS_PROGRAM_ID E"
    "entry_discriminator (source_protocol src) Deposit"
    "entry_discriminator (source_protocol src) Withdraw"
    "source_build_deposit_ix E src" "source_build_withdraw_ix E src" for E src
proof unfold_locales
  fix wv user a m ix
  show "is_swap_ix (OVERPASS_PROGRAM_ID E) (entry_discriminator (source_protocol src) Deposit)
      user a m ix" if "source_build_deposit_ix E src wv user a m = Ok ix"
    using that by (cases src) (auto dest: backend_deposit_ix)
  show "is_swap_ix (OVERPASS_PROGRAM_ID E) (entry_discriminator (source_protocol src) Withdraw)
      user a m ix" if "source_build_withdraw_ix E src wv user a m = Ok ix"
    using that by (cases src) (auto dest: backend_withdraw_ix)
qed simp_all

section \<open>Properties of the venue\<close>

text \<open>
  C21. A quote is all or nothing: it names the mints it was asked about and either reports too little
  liquidity with both amounts 0, or takes the whole amount, which is positive and below
  \<open>u64::MAX / 2\<close>, for the positive output the backend quotes in the direction of the mints. It is
  never given for \<open>ExactOut\<close> or for a Lulo vault.
\<close>

theorem quote_all_or_nothing:
  assumes "overpass_quote E v rq = Ok r"
  shows "qr_input_mint r = rq_input_mint rq \<and> qr_output_mint r = rq_output_mint rq \<and>
    rq_swap_type rq = ExactIn \<and> \<not> is_lulo (ov_source v) \<and>
    (if qr_not_enough_liquidity r then qr_amount r = 0 \<and> qr_expected_output r = 0
     else qr_amount r = rq_amount rq \<and> 0 < rq_amount rq \<and> rq_amount rq < u64_max div 2 \<and>
       0 < qr_expected_output r \<and>
       (\<exists>wv gc src dir. ov_wrapper_vault v = Some wv \<and> ov_global_config v = Some gc \<and>
          ov_source v = Some src \<and>
          detect wv (rq_input_mint rq) (rq_output_mint rq) = Ok dir \<and>
          (case dir of Deposit \<Rightarrow> source_quote_deposit E src wv gc (rq_amount rq)
                     | Withdraw \<Rightarrow> source_quote_withdraw E src wv (rq_amount rq))
            = Ok (qr_expected_output r)))"
  using assms
proof (rule overpass_quoteE)
  fix wv gc src dir
  assume v: "ov_wrapper_vault v = Some wv" "ov_global_config v = Some gc" "ov_source v = Some src"
      "detect wv (rq_input_mint rq) (rq_output_mint rq) = Ok dir"
    and r: "\<not> is_lulo (ov_source v)" "rq_swap_type rq = ExactIn"
      "qr_input_mint r = rq_input_mint rq" "qr_output_mint r = rq_output_mint rq"
    and out: "qr_not_enough_liquidity r \<and> qr_amount r = 0 \<and> qr_expected_output r = 0 \<or>
      \<not> qr_not_enough_liquidity r \<and> qr_amount r = rq_amount rq \<and> rq_amount rq < u64_max div 2 \<and>
      source_quote E src wv gc dir (rq_amount rq) = Ok (qr_expected_output r)"
  have "0 < rq_amount rq \<and> 0 < qr_expected_output r"
    if "source_quote E src wv gc dir (rq_amount rq) = Ok (qr_expected_output r)"
    using source_quote_positive [OF that] by (simp add: word_gt_0)
  with v r out show ?thesis by auto
qed

text \<open>
  C24. Every venue that can arise, from its account and any sequence of updates, successful or not,
  is well formed: it has its two tokens, a backend and a well-formed vault, and in both directions
  prices that are positive and do not increase over increasing breakpoints.
\<close>

theorem reachable_venue_well_formed:
  assumes "venue_reachable E v"
  shows "wf_venue v"
  using assms by (rule reachable_wf)

text \<open>
  C22. The price falls with the size: on a venue that can arise, of two quotes for the same mints the
  one for the larger amount has no better price, and neither price is negative.
\<close>

theorem price_falls_with_amount:
  assumes "venue_reachable E v"
    and "overpass_quote E v rq = Ok r"
    and "overpass_quote E v (rq\<lparr> rq_amount := larger \<rparr>) = Ok r'"
    and "rq_amount rq \<le> larger"
  shows "qr_price r' \<le> qr_price r \<and> 0 \<le> qr_price r'"
proof (rule overpass_quoteE [OF assms(2)], rule overpass_quoteE [OF assms(3)])
  fix wv gc src dir wv' gc' src' dir'
  assume "ov_wrapper_vault v = Some wv" "ov_wrapper_vault v = Some wv'"
      "detect wv (rq_input_mint rq) (rq_output_mint rq) = Ok dir"
      "detect wv' (rq_input_mint (rq\<lparr>rq_amount := larger\<rparr>))
        (rq_output_mint (rq\<lparr>rq_amount := larger\<rparr>)) = Ok dir'"
  then have dir: "dir' = dir" by simp
  assume r: "qr_price r = price_at (parts_of v dir) (rq_amount rq)"
      "qr_price r' = price_at (parts_of v dir') (rq_amount (rq\<lparr>rq_amount := larger\<rparr>))"
  have parts: "parts_ok (parts_of v dir)"
    using reachable_wf [OF assms(1)] by (rule wf_venue_parts)
  have "0 \<le> price_at (parts_of v dir) larger"
    using price_at_pos [OF parts, of larger] by (cases "parts_of v dir = []") (simp_all add: less_imp_le)
  with price_at_antimono [OF parts assms(4)] show ?thesis by (simp add: r dir)
qed

text \<open>C38. An update always comes to an end, whatever the accounts hold and however it ends.\<close>

theorem update_returns: "\<exists>v' res. overpass_update_state E v cache = Some (v', res)"
  by (rule update_state_Some)

text \<open>
  C25. After a successful update the venue agrees with itself: vault and configuration are stored,
  the backend is the one the vault names, and the tokens are the vault's two mints; it is then
  initialized exactly when it is no Lulo vault and its underlying mint is not the default key.
\<close>

theorem update_coherent:
  assumes "venue_reachable E v" "overpass_update_state E v cache = Some (v', Ok ())"
  shows "\<exists>wv gc src. ov_wrapper_vault v' = Some wv \<and> ov_global_config v' = Some gc \<and>
    ov_source v' = Some src \<and> protocol_from_byte (wv_protocol wv) = Ok (source_protocol src) \<and>
    map ti_pubkey (ov_token_info v') = [wv_underlying_mint wv, wv_wrapper_mint wv] \<and>
    overpass_initialized v' =
      (\<not> is_lulo (Some src) \<and> wv_underlying_mint wv \<noteq> pubkey_default)"
  using assms(2)
proof (cases rule: update_state_cases)
  case (priced w bd bw pd pw)
  have "length (ov_token_info v) = 2"
    using reachable_wf [OF assms(1)] by (simp add: wf_venue_def)
  from priced(1) this show ?thesis
  proof (rule refresh_accounts_OkE)
    fix wv gc src
    assume w: "ov_wrapper_vault w = Some wv" "ov_global_config w = Some gc" "ov_source w = Some src"
      "protocol_from_byte (wv_protocol wv) = Ok (source_protocol src)"
      "map ti_pubkey (ov_token_info w) = [wv_underlying_mint wv, wv_wrapper_mint wv]"
    then have "ti_pubkey (ov_token_info w ! 0) = wv_underlying_mint wv"
      by (cases "ov_token_info w") simp_all
    with w priced(4) show ?thesis by (auto simp: overpass_initialized_def)
  qed
qed simp_all

text \<open>
  C37. An update that fails leaves the vault, the configuration and both price lists as they were
  (what it may have changed are the token data and the backend, which are refreshed first).
\<close>

theorem failed_update_keeps:
  assumes "overpass_update_state E v cache = Some (v', Err e)"
  shows "ov_wrapper_vault v' = ov_wrapper_vault v \<and> ov_global_config v' = ov_global_config v \<and>
    ov_parts_deposit v' = ov_parts_deposit v \<and> ov_parts_withdraw v' = ov_parts_withdraw v \<and>
    ov_wrapper_vault_pda v' = ov_wrapper_vault_pda v"
  using assms
  by (cases rule: update_state_cases)
    (use refresh_accounts_keeps [where self = v and E = E and cache = cache] in auto)

text \<open>A refreshed venue of another backend than Lulo answers every \<open>ExactIn\<close> request for its mints.\<close>

lemma overpass_quote_OkI:
  assumes "ov_wrapper_vault v = Some wv" "ov_global_config v = Some gc" "ov_source v = Some src"
    "\<not> is_lulo (Some src)" "rq_swap_type rq = ExactIn"
    "detect wv (rq_input_mint rq) (rq_output_mint rq) = Ok dir"
    "source_quote E src wv gc dir (rq_amount rq) \<noteq> Panic"
  obtains r where "overpass_quote E v rq = Ok r"
    "\<And>out. source_quote E src wv gc dir (rq_amount rq) = Ok out \<Longrightarrow> rq_amount rq < u64_max div 2 \<Longrightarrow>
      \<not> qr_not_enough_liquidity r \<and> qr_amount r = rq_amount rq \<and> qr_expected_output r = out"
proof (cases "u64_max div 2 \<le> rq_amount rq")
  case True
  with assms show thesis by (intro that) (simp_all add: overpass_quote_def Let_def)
next
  case small: False
  show thesis
  proof (cases "source_quote E src wv gc dir (rq_amount rq)")
    case (Ok out)
    show thesis
      by (rule that [of "\<lparr> qr_input_mint = rq_input_mint rq, qr_output_mint = rq_output_mint rq,
            qr_amount = rq_amount rq, qr_expected_output = out, qr_not_enough_liquidity = False,
            qr_price = price_at (parts_of v dir) (rq_amount rq) \<rparr>"])
        (use assms small Ok in \<open>simp_all add: overpass_quote_def Let_def\<close>)
  next
    case (Err e)
    with assms small show thesis by (intro that) (simp_all add: overpass_quote_def Let_def)
  qed (use assms in simp)
qed

text \<open>Where no quote panics, a search for bounds does not either.\<close>

lemma overpass_bounds_no_panic_of:
  assumes "\<And>src wv gc dir a. ov_source v = Some src \<Longrightarrow> source_quote E src wv gc dir a \<noteq> Panic"
  shows "overpass_bounds E v i j \<noteq> Some Panic"
proof -
  have venue: "overpass_quote E v rq \<noteq> Panic" for rq
    using assms by (rule overpass_quote_no_panic_of)
  have "find_boundaries chk (\<lambda>x. overpass_quote E v (rq x)) \<noteq> Some Panic" for chk rq
    by (cases rule: find_boundaries_cases [of chk "\<lambda>x. overpass_quote E v (rq x)"])
      (simp_all add: no_quote_panics_def venue)
  then show ?thesis
    unfolding overpass_bounds_def venue_bounds_def
    using get_token_no_panic by (auto split: outcome.splits)
qed

lemma bounds_end:
  assumes "valid_at (\<lambda>x. overpass_quote E v (rq x)) x" "rq_amount (rq x) = x"
  obtains q where "overpass_quote E v (rq x) = Ok q" "0 < x" "x < u64_max div 2"
    "\<not> qr_not_enough_liquidity q" "qr_amount q = x" "0 < qr_expected_output q"
proof -
  from assms(1) obtain q where q: "overpass_quote E v (rq x) = Ok q" "valid_quote q"
    by (auto simp: valid_at_def split: outcome.splits)
  from q(1) show thesis
  proof (rule overpass_quoteE)
    fix wv gc src dir
    assume out: "qr_not_enough_liquidity q \<and> qr_amount q = 0 \<and> qr_expected_output q = 0 \<or>
      \<not> qr_not_enough_liquidity q \<and> qr_amount q = rq_amount (rq x) \<and>
      rq_amount (rq x) < u64_max div 2 \<and>
      source_quote E src wv gc dir (rq_amount (rq x)) = Ok (qr_expected_output q)"
    from out [unfolded assms(2)] q(2) have r: "\<not> qr_not_enough_liquidity q" "qr_amount q = x" "x < u64_max div 2"
      "source_quote E src wv gc dir x = Ok (qr_expected_output q)"
      by (auto simp: valid_quote_def)
    from source_quote_positive [OF r(4)] have "0 < x" "0 < qr_expected_output q"
      by (simp_all add: word_gt_0)
    with q r that show thesis by blast
  qed
qed

text \<open>
  C26. The bounds a venue reports can be traded: both are positive, in order and below
  \<open>u64::MAX / 2\<close>, and a quote at either of them takes the whole amount for a positive output.
\<close>

theorem bounds_can_be_traded:
  assumes "overpass_bounds E v i j = Some (Ok (lo, hi))"
  shows "0 < lo \<and> lo \<le> hi \<and> hi < u64_max div 2 \<and>
    (\<exists>ti tj qlo qhi. get_token (ov_token_info v) (unat i) = Ok ti \<and>
      get_token (ov_token_info v) (unat j) = Ok tj \<and>
      overpass_quote E v \<lparr> rq_input_mint = ti_pubkey ti, rq_output_mint = ti_pubkey tj,
        rq_amount = lo, rq_swap_type = ExactIn \<rparr> = Ok qlo \<and>
      overpass_quote E v \<lparr> rq_input_mint = ti_pubkey ti, rq_output_mint = ti_pubkey tj,
        rq_amount = hi, rq_swap_type = ExactIn \<rparr> = Ok qhi \<and>
      \<not> qr_not_enough_liquidity qlo \<and> qr_amount qlo = lo \<and> 0 < qr_expected_output qlo \<and>
      \<not> qr_not_enough_liquidity qhi \<and> qr_amount qhi = hi \<and> 0 < qr_expected_output qhi)"
  using assms
proof (rule overpass_bounds_valid)
  fix ti tj :: token_info
  define rq where "rq = (\<lambda>x. \<lparr> rq_input_mint = ti_pubkey ti, rq_output_mint = ti_pubkey tj,
    rq_amount = x, rq_swap_type = ExactIn \<rparr>)"
  have amount: "rq_amount (rq x) = x" for x by (simp add: rq_def)
  assume tokens: "get_token (ov_token_info v) (unat i) = Ok ti"
      "get_token (ov_token_info v) (unat j) = Ok tj" and le: "lo \<le> hi"
    and valid: "\<And>x. x = lo \<or> x = hi \<Longrightarrow> valid_at (\<lambda>x. overpass_quote E v
      \<lparr> rq_input_mint = ti_pubkey ti, rq_output_mint = ti_pubkey tj, rq_amount = x,
        rq_swap_type = ExactIn \<rparr>) x"
  have "valid_at (\<lambda>x. overpass_quote E v (rq x)) lo" "valid_at (\<lambda>x. overpass_quote E v (rq x)) hi"
    using valid by (simp_all add: rq_def)
  note ends = this [THEN bounds_end, OF amount]
  obtain qlo where "overpass_quote E v (rq lo) = Ok qlo" "0 < lo"
    "\<not> qr_not_enough_liquidity qlo" "qr_amount qlo = lo" "0 < qr_expected_output qlo"
    using ends(1) by blast
  moreover obtain qhi where "overpass_quote E v (rq hi) = Ok qhi" "hi < u64_max div 2"
    "\<not> qr_not_enough_liquidity qhi" "qr_amount qhi = hi" "0 < qr_expected_output qhi"
    using ends(2) by blast
  ultimately show ?thesis using tokens le unfolding rq_def by blast
qed

text \<open>
  The directions a venue offers are those it has bounds for, with one exception: a vault with
  wrapper tokens outstanding that cannot be withdrawn from offers none, not even the deposit.
\<close>

theorem directions_have_bounds:
  assumes "overpass_directions_num E v = Some (Ok dirs)"
  shows "set dirs =
    (let open = {(i, j). (i, j) \<in> {(0, 1), (1, 0)} \<and>
           (\<exists>b. overpass_bounds E v i j = Some (Ok b))}
     in if (\<exists>wv. ov_wrapper_vault v = Some wv \<and> 0 < wv_wrapper_supply wv) \<and> (1, 0) \<notin> open
        then {} else open)"
proof -
  obtain d w where b: "overpass_bounds E v 0 1 = Some d" "overpass_bounds E v 1 0 = Some w"
    using overpass_bounds_Some by blast
  define wsupply where "wsupply = (case ov_wrapper_vault v of Some w \<Rightarrow> wv_wrapper_supply w | None \<Rightarrow> 0)"
  have sup: "(\<exists>wv. ov_wrapper_vault v = Some wv \<and> 0 < wv_wrapper_supply wv) \<longleftrightarrow> 0 < wsupply"
    by (simp add: wsupply_def split: option.splits)
  define dok where "dok \<longleftrightarrow> (\<exists>b. d = Ok b)"
  define wok where "wok \<longleftrightarrow> (\<exists>b. w = Ok b)"
  from assms b have "dirs = (if 0 < wsupply \<and> \<not> wok then [] else
      (if dok then [(0, 1)] else []) @ (if wok then [(1, 0)] else []))"
    unfolding overpass_directions_num_def Let_def wsupply_def [symmetric]
    by (cases d; cases w) (auto simp: dok_def wok_def split: if_splits)
  moreover have "{(i, j). (i, j) \<in> {(0, 1), (1, 0)} \<and> (\<exists>b. overpass_bounds E v i j = Some (Ok b))}
      = (if dok then {(0, 1)} else {}) \<union> (if wok then {(1, 0)} else {})"
    using b by (auto simp: dok_def wok_def)
  ultimately show ?thesis unfolding sup Let_def by auto
qed

lemma swap_ix_shape:
  assumes "overpass_generate_swap_instruction E v rq user = Ok ix"
  shows "\<exists>wv src dir. ov_wrapper_vault v = Some wv \<and> ov_source v = Some src \<and>
    rq_swap_type rq = ExactIn \<and> detect wv (rq_input_mint rq) (rq_output_mint rq) = Ok dir \<and>
    is_swap_ix (OVERPASS_PROGRAM_ID E) (entry_discriminator (source_protocol src) dir) user
      (rq_amount rq) 0 ix"
proof -
  have st: "x \<noteq> ExactOut \<Longrightarrow> x = ExactIn" for x by (cases x) simp_all
  from assms show ?thesis
    unfolding overpass_generate_swap_instruction_def
    by (elim ok_elims)
      (auto intro!: st split: direction.splits dest: overpass_builder.deposit_ix
        overpass_builder.withdraw_ix)
qed

text \<open>
  The instruction for a swap goes to the Overpass program, starts with the discriminator of the
  backend's entry point for the direction, carries the requested amount and a least output of 0, and
  asks for one signature, that of the user, who is the first account; no two entry points share a
  discriminator.
\<close>

theorem swap_instruction_shape:
  assumes "overpass_generate_swap_instruction E v rq user = Ok ix"
  shows "\<exists>wv src dir. ov_wrapper_vault v = Some wv \<and> ov_source v = Some src \<and>
    rq_swap_type rq = ExactIn \<and> detect wv (rq_input_mint rq) (rq_output_mint rq) = Ok dir \<and>
    is_swap_ix (OVERPASS_PROGRAM_ID E) (entry_discriminator (source_protocol src) dir) user
      (rq_amount rq) 0 ix \<and>
    (\<forall>p d. entry_discriminator p d = take 8 (ix_data ix) \<longleftrightarrow> p = source_protocol src \<and> d = dir)"
proof -
  have "take 8 (ix_data ix) = disc" if "is_swap_ix pr disc user a m ix" "length disc = 8" for pr disc a m
    using that by (auto simp: is_swap_ix_def)
  with swap_ix_shape [OF assms] show ?thesis
    by (metis entry_discriminator_inject entry_discriminator_length)
qed

text \<open>
  The pause switch of the global configuration has no effect: a venue quotes the same whether
  the program is paused or not.
\<close>

theorem pause_is_ignored:
  "overpass_quote E (v\<lparr> ov_global_config := Some (gc\<lparr> gc_paused := True \<rparr>) \<rparr>) rq =
   overpass_quote E (v\<lparr> ov_global_config := Some (gc\<lparr> gc_paused := False \<rparr>) \<rparr>) rq"
proof -
  have "source_quote E src wv (gc\<lparr> gc_paused := p \<rparr>) dir a = source_quote E src wv gc dir a"
    for src wv p dir a
    by (cases src; cases dir) (simp_all add: klend_deposit_quote_def klend_quote_deposit_def
        kvault_deposit_quote_def kvault_quote_deposit_def save_deposit_quote_def
        save_quote_deposit_def marginfi_deposit_quote_def marginfi_quote_deposit_def
        lulo_deposit_quote_def lulo_quote_deposit_def)
  moreover have "parts_of (v\<lparr> ov_global_config := g \<rparr>) dir = parts_of v dir" for g dir
    by (cases dir) simp_all
  ultimately show ?thesis by (simp add: overpass_quote_def cong: if_cong)
qed

lemma find_fst: "distinct (map fst xs) \<Longrightarrow>
    map_option snd (find (\<lambda>(d, _). d = k) xs) = Some i \<longleftrightarrow> (k, i) \<in> set xs"
  by (induction xs) force+

lemma distinct_creations: "distinct (map fst CREATIONS)"
  by (simp add: CREATIONS_def CREATE_KLEND_def CREATE_KVAULT_def CREATE_SAVE_def
        CREATE_MARGINFI_def CREATE_LULO_def)

lemma parse_pool_creation_Some: "parse_pool_creation ix = Some pc \<longleftrightarrow>
      (\<exists>(disc, i) \<in> set CREATIONS. 8 \<le> length (pi_data ix) \<and> take 8 (pi_data ix) = disc \<and>
        4 < length (pi_accounts ix) \<and> i < length (pi_accounts ix) \<and>
        pc = \<lparr> pc_protocol = Overpass, pc_pool = pi_accounts ix ! 4,
          pc_mints = [pi_accounts ix ! i, pi_accounts ix ! 3] \<rparr>)"
    unfolding parse_pool_creation_def bind_eq_Some_conv find_fst [OF distinct_creations]
    by (auto simp: get_slice_def get_at_def WRAPPER_VAULT_INDEX_def WRAPPER_MINT_INDEX_def
        split: if_splits)

text \<open>
  Pool creations are found exactly where the program's creation instructions are: a pool is
  reported for an instruction of the Overpass program whose first eight bytes are one of the five
  creation discriminators and whose accounts include the vault, the wrapper mint and the underlying
  mint at the index that belongs to the discriminator, and for nothing else.
\<close>

theorem pool_creations_found:
  "pc \<in> set (parse_pool_creations E ixs) \<longleftrightarrow>
   (\<exists>ix \<in> set ixs. \<exists>(disc, underlying_index) \<in> set CREATIONS.
      pi_program_id ix = OVERPASS_PROGRAM_ID E \<and> 8 \<le> length (pi_data ix) \<and>
      take 8 (pi_data ix) = disc \<and> 4 < length (pi_accounts ix) \<and>
      underlying_index < length (pi_accounts ix) \<and>
      pc = \<lparr> pc_protocol = Overpass, pc_pool = pi_accounts ix ! 4,
        pc_mints = [pi_accounts ix ! underlying_index, pi_accounts ix ! 3] \<rparr>)"
proof -
  have "pc \<in> set (parse_pool_creations E ixs) \<longleftrightarrow> (\<exists>ix \<in> set ixs.
      pi_program_id ix = OVERPASS_PROGRAM_ID E \<and> parse_pool_creation ix = Some pc)"
    by (force simp: parse_pool_creations_def List.map_filter_def image_iff)
  then show ?thesis unfolding parse_pool_creation_Some by blast
qed

text \<open>After a refresh, only a panic of a quote can keep an update from succeeding.\<close>

lemma update_after_refresh:
  assumes w: "overpass_refresh_accounts E v cache = (w, Ok ())"
    and quotes: "\<And>src wv gc dir a. ov_source w = Some src \<Longrightarrow> source_quote E src wv gc dir a \<noteq> Panic"
  obtains pd pw where "overpass_update_state E v cache =
    Some (w\<lparr> ov_parts_deposit := pd, ov_parts_withdraw := pw \<rparr>, Ok ())"
proof -
  obtain v' res where u: "overpass_update_state E v cache = Some (v', res)"
    using update_state_Some by blast
  have bounds: "overpass_bounds E w i j \<noteq> Some Panic" for i j
    using quotes by (rule overpass_bounds_no_panic_of)
  have prices: "overpass_prices E w bd bw \<noteq> Panic" for bd bw
  proof -
    have "ok (source_quote_deposit E src wv gc x) \<noteq> Panic" "ok (source_quote_withdraw E src wv x) \<noteq> Panic"
      if "ov_source w = Some src" for src wv gc x
      using quotes [OF that, of wv gc x Deposit] quotes [OF that, of wv gc x Withdraw] by simp_all
    then show ?thesis
      by (auto simp: overpass_prices_def price_parts_no_panic split: option.splits)
  qed
  from u show thesis
  proof (cases rule: update_state_cases)
    case panicked
    obtain bd_res bw_res where b: "overpass_bounds E w 0 1 = Some bd_res"
      "overpass_bounds E w 1 0 = Some bw_res" using overpass_bounds_Some by blast
    with bounds have "bd_res \<noteq> Panic" "bw_res \<noteq> Panic" by metis+
    then have "snd (or_stop (ok bd_res) w (\<lambda>bd. or_stop (ok bw_res) w (\<lambda>bw.
        or_stop (overpass_prices E w bd bw) w (\<lambda>(pd, pw).
        (w\<lparr> ov_parts_deposit := pd, ov_parts_withdraw := pw \<rparr>, Ok ()))))) \<noteq> Panic"
      by (intro or_stop_no_panic) (auto simp: prices)
    with u b w panicked(2) show thesis by (simp add: overpass_update_state_def)
  next
    case (priced w' bd bw pd pw)
    with u w that show thesis by simp
  qed (use w in simp)
qed

text \<open>
  C33. A Save or Lulo vault whose accounts can be read is always updated: once the refresh has
  succeeded, the searches for bounds and the prices cannot fail any more.
\<close>

theorem readable_vault_is_updated:
  assumes "uint_laws E" "overpass_refresh_accounts E v cache = (w, Ok ())"
    and "ov_source w = Some src" "source_protocol src \<in> {Save_Id, Lulo_Id}"
  shows "\<exists>pd pw. overpass_update_state E v cache =
    Some (w\<lparr> ov_parts_deposit := pd, ov_parts_withdraw := pw \<rparr>, Ok ())"
proof -
  have "source_quote E src wv gc dir a \<noteq> Panic" for wv gc dir a
    using assms(4) uint_laws.save_quotes_no_panic [OF assms(1)]
      uint_laws.lulo_quotes_no_panic [OF assms(1)]
    by (cases src; cases dir) (simp_all add: save_deposit_quote_def save_withdraw_quote_def
        lulo_deposit_quote_def lulo_withdraw_quote_def)
  then have "\<And>s wv gc dir a. ov_source w = Some s \<Longrightarrow> source_quote E s wv gc dir a \<noteq> Panic"
    using assms(3) by auto
  from update_after_refresh [OF assms(2) this] show ?thesis by blast
qed

section \<open>Concrete venues\<close>

text \<open>
  A chain with one Save vault: the vault account under every key asked for alone, and, in a list,
  the configuration under its address and accounts of 619 zero bytes (reserve, clock and mints)
  elsewhere.
\<close>

definition config_key :: pubkey where
  "config_key = take 32 (byte_str ''configWRAPdXmxrH37RKUbH1QMnYrKdNe8w4Kz44t1cXmYeum'')"

definition vault_account :: account where
  "vault_account = \<lparr> acc_data = encode_wrapper_vault vault_sample, acc_owner = pubkey_default \<rparr>"

definition config_account :: account where
  "config_account =
     \<lparr> acc_data = GLOBAL_CONFIG_DISCRIMINATOR @ replicate 142 0, acc_owner = pubkey_default \<rparr>"

definition zero_account :: account where
  "zero_account = \<lparr> acc_data = replicate 619 0, acc_owner = pubkey_default \<rparr>"

definition save_chain :: accounts_cache where
  "save_chain = \<lparr> get_account = (\<lambda>k. Ok (Some vault_account)),
     get_accounts = (\<lambda>ks. Ok (map (\<lambda>k.
       Some (if k = config_key then config_account else zero_account)) ks)) \<rparr>"

definition new_venue :: overpass_venue where
  "new_venue = \<lparr> ov_wrapper_vault_pda = replicate 32 9, ov_wrapper_vault = Some vault_sample,
     ov_global_config = None, ov_token_info = [token_info_default, token_info_default],
     ov_source = Some (Source_Save save_new), ov_parts_deposit = [], ov_parts_withdraw = [] \<rparr>"

lemma vault_account_decodes: "decode_wrapper_vault (acc_data vault_account) = Ok vault_sample"
  by (simp add: vault_account_def vault_sample_def decode_wrapper_vault_eq wrapper_vault_of_def
      encode_wrapper_vault_def vault_consts from_to_le_bytes nth_append)

lemma new_venue_created:
  "overpass_from_account std_crates (replicate 32 9) vault_account = Ok new_venue"
  by (simp add: overpass_from_account_def vault_account_decodes new_venue_def protocol_from_byte_def
      vault_sample_def)

lemma new_venue_reachable: "venue_reachable std_crates new_venue"
  using new_venue_created by (rule created)

lemma config_key_pda: "global_config_pda std_crates (OVERPASS_PROGRAM_ID std_crates) = Ok config_key"
  by (simp add: global_config_pda_def find_pda_def std_ops OVERPASS_PROGRAM_ID_def
      SEED_GLOBAL_CONFIG_def byte_str_def config_key_def)

lemma not_config_key: "hd k \<noteq> 99 \<Longrightarrow> k \<noteq> config_key"
  by (auto simp: config_key_def byte_str_def)

lemma sample_keys:
  "wv_source_pool vault_sample \<noteq> config_key" "wv_underlying_mint vault_sample \<noteq> config_key"
  "wv_wrapper_mint vault_sample \<noteq> config_key" "CLOCK_SYSVAR_ID std_crates \<noteq> config_key"
  by (rule not_config_key; simp add: vault_sample_def CLOCK_SYSVAR_ID_def std_ops)+

lemma config_account_decodes: "\<exists>gc. decode_global_config (acc_data config_account) = Ok gc"
  by (simp add: config_account_def decode_global_config_eq vault_consts)

lemma save_reserve_refreshes:
  "\<exists>s'. save_update std_crates save_new vault_sample save_chain = (s', Ok ())"
  by (simp add: save_update_def save_run_def save_chain_def sample_keys)
    (simp add: zero_account_def try_two_def save_decode_def SAVE_RESERVE_LEN_def read_eqs
      index_at_def clock_field_def get_slice_def try_array_def save_pre_accrue_def
      save_accrue_interest_def saturating_sub_def min_def Let_def)

lemma new_venue_refreshes:
  obtains w s where "overpass_refresh_accounts std_crates new_venue save_chain = (w, Ok ())"
    "ov_source w = Some (Source_Save s)" "ov_wrapper_vault w = Some vault_sample"
proof -
  obtain s where s: "save_update std_crates save_new vault_sample save_chain = (s, Ok ())"
    using save_reserve_refreshes by blast
  obtain gc where gc: "decode_global_config (acc_data config_account) = Ok gc"
    using config_account_decodes by blast
  have "pubkey_default \<noteq> replicate 31 0 @ [2 :: u8]"
    by (rule notI, drule arg_cong [where f = last]) simp
  then have token: "token_info_new std_crates k zero_account ep = Ok \<lparr> ti_pubkey = k, ti_decimals = 0,
      ti_is_token_2022 = False, ti_transfer_fee = None, ti_maximum_fee = None \<rparr>" for k ep
    by (simp add: token_info_new_def std_ops zero_account_def)
  have "\<exists>w. overpass_refresh_accounts std_crates new_venue save_chain = (w, Ok ()) \<and>
    ov_source w = Some (Source_Save s) \<and> ov_wrapper_vault w = Some vault_sample"
    using s gc sample_keys
    by (simp add: overpass_refresh_accounts_def config_key_pda save_chain_def vault_account_decodes
        try_three_def token new_venue_def protocol_from_byte_def vault_sample_def)
  then show thesis using that by blast
qed

lemma new_venue_updates:
  obtains v' s where "overpass_update_state std_crates new_venue save_chain = Some (v', Ok ())"
    "ov_source v' = Some (Source_Save s)" "ov_wrapper_vault v' = Some vault_sample"
    "venue_reachable std_crates v'"
proof -
  obtain w s where w: "overpass_refresh_accounts std_crates new_venue save_chain = (w, Ok ())"
    "ov_source w = Some (Source_Save s)" "ov_wrapper_vault w = Some vault_sample"
    by (rule new_venue_refreshes)
  have "source_quote std_crates src wv gc dir a \<noteq> Panic" if "ov_source w = Some src" for src wv gc dir a
    using that w(2) std_uint.save_quotes_no_panic
    by (cases dir) (auto simp: save_deposit_quote_def save_withdraw_quote_def)
  from update_after_refresh [OF w(1) this] obtain pd pw where
    u: "overpass_update_state std_crates new_venue save_chain =
      Some (w\<lparr> ov_parts_deposit := pd, ov_parts_withdraw := pw \<rparr>, Ok ())" by blast
  from new_venue_reachable u have "venue_reachable std_crates
    (w\<lparr> ov_parts_deposit := pd, ov_parts_withdraw := pw \<rparr>)" by (rule updated)
  with u w that show thesis by simp
qed

lemma reachable_venue_well_formed_witness: "wf_venue new_venue"
  using reachable_venue_well_formed [OF new_venue_reachable] .

lemma update_coherent_witness:
  "\<exists>v' src. overpass_update_state std_crates new_venue save_chain = Some (v', Ok ()) \<and>
    ov_source v' = Some src \<and> overpass_initialized v'"
proof -
  obtain v' s where u: "overpass_update_state std_crates new_venue save_chain = Some (v', Ok ())"
    "ov_source v' = Some (Source_Save s)" "ov_wrapper_vault v' = Some vault_sample"
    by (rule new_venue_updates)
  have "wv_underlying_mint vault_sample \<noteq> pubkey_default" by (simp add: vault_sample_def)
  with update_coherent [OF new_venue_reachable u(1)] u show ?thesis by auto
qed

lemma failed_update_keeps_witness:
  "\<exists>v' e. overpass_update_state std_crates new_venue
      (save_chain\<lparr> get_account := \<lambda>k. Ok None \<rparr>) = Some (v', Err e) \<and>
    ov_wrapper_vault v' = Some vault_sample"
proof -
  have "\<exists>v' e. overpass_update_state std_crates new_venue
      (save_chain\<lparr> get_account := \<lambda>k. Ok None \<rparr>) = Some (v', Err e)"
    by (simp add: overpass_update_state_def overpass_refresh_accounts_def config_key_pda)
  then obtain v' e where u: "overpass_update_state std_crates new_venue
      (save_chain\<lparr> get_account := \<lambda>k. Ok None \<rparr>) = Some (v', Err e)" by blast
  with failed_update_keeps [OF u] show ?thesis by (auto simp: new_venue_def)
qed

lemma readable_vault_is_updated_witness:
  "\<exists>v'. overpass_update_state std_crates new_venue save_chain = Some (v', Ok ())"
proof -
  obtain w s where w: "overpass_refresh_accounts std_crates new_venue save_chain = (w, Ok ())"
    "ov_source w = Some (Source_Save s)" by (rule new_venue_refreshes)
  have "source_protocol (Source_Save s) \<in> {Save_Id, Lulo_Id}" by simp
  from readable_vault_is_updated [OF std_uint.uint_laws_axioms w this] show ?thesis by blast
qed

definition deposit_request :: "u64 \<Rightarrow> quote_request" where
  "deposit_request amount = \<lparr> rq_input_mint = wv_underlying_mint vault_sample,
     rq_output_mint = wv_wrapper_mint vault_sample, rq_amount = amount, rq_swap_type = ExactIn \<rparr>"

lemma price_falls_with_amount_witness:
  "\<exists>v r r'. overpass_quote std_crates v (deposit_request 1000) = Ok r \<and>
    overpass_quote std_crates v (deposit_request 5000) = Ok r' \<and> qr_price r' \<le> qr_price r"
proof -
  obtain v s where v: "overpass_update_state std_crates new_venue save_chain = Some (v, Ok ())"
    "ov_source v = Some (Source_Save s)" "ov_wrapper_vault v = Some vault_sample"
    "venue_reachable std_crates v" by (rule new_venue_updates)
  from v(1) obtain gc where gc: "ov_global_config v = Some gc"
  proof (cases rule: update_state_cases)
    case (priced w bd bw pd pw)
    from priced(1) have "length (ov_token_info new_venue) = 2" by (simp add: new_venue_def)
    with priced(1) obtain gc where "ov_global_config w = Some gc" by (rule refresh_accounts_OkE)
    with priced(4) that show thesis by simp
  qed simp_all
  have quotes: "\<exists>r. overpass_quote std_crates v (deposit_request a) = Ok r" for a
    by (rule overpass_quote_OkI [OF v(3) gc v(2), of "deposit_request a" Deposit std_crates])
      (auto simp: deposit_request_def detect_def save_deposit_quote_def
        std_uint.save_quotes_no_panic)
  obtain r r' where r: "overpass_quote std_crates v (deposit_request 1000) = Ok r"
    "overpass_quote std_crates v (deposit_request 5000) = Ok r'" using quotes by blast
  have "(deposit_request 1000)\<lparr> rq_amount := 5000 \<rparr> = deposit_request 5000"
    by (simp add: deposit_request_def)
  with r price_falls_with_amount [OF v(4) r(1), of 5000 r'] show ?thesis
    by (auto simp: deposit_request_def)
qed

text \<open>A venue on the Save reserve of \<open>save_sample\<close>.\<close>

definition save_venue :: overpass_venue where
  "save_venue = new_venue\<lparr> ov_global_config := Some config_sample,
     ov_token_info := [token_info_default\<lparr> ti_pubkey := wv_underlying_mint vault_sample \<rparr>,
       token_info_default\<lparr> ti_pubkey := wv_wrapper_mint vault_sample \<rparr>],
     ov_source := Some (Source_Save \<lparr> sb_state = save_sample, sb_current_slot = 5 \<rparr>) \<rparr>"

lemma sample_mints: "wv_underlying_mint vault_sample \<noteq> wv_wrapper_mint vault_sample"
  by (rule notI, drule arg_cong [where f = hd]) (simp add: vault_sample_def)

lemma save_venue_quote:
  assumes "save_quote_deposit std_crates save_sample 5 vault_sample config_sample a = Ok out"
    "a < u64_max div 2"
  obtains r where "overpass_quote std_crates save_venue (deposit_request a) = Ok r"
    "\<not> qr_not_enough_liquidity r" "qr_amount r = a" "qr_expected_output r = out"
proof -
  have v: "ov_wrapper_vault save_venue = Some vault_sample"
    "ov_global_config save_venue = Some config_sample"
    "ov_source save_venue = Some (Source_Save \<lparr> sb_state = save_sample, sb_current_slot = 5 \<rparr>)"
    by (simp_all add: save_venue_def new_venue_def)
  show thesis
    by (rule overpass_quote_OkI [OF v, of "deposit_request a" Deposit std_crates])
      (use assms that in \<open>auto simp: deposit_request_def detect_def save_deposit_quote_def
        std_uint.save_quotes_no_panic\<close>)
qed

lemma quote_all_or_nothing_witness:
  "\<exists>r. overpass_quote std_crates save_venue (deposit_request 100000) = Ok r \<and>
    qr_amount r = 100000 \<and> 0 < qr_expected_output r"
proof -
  obtain r where r: "overpass_quote std_crates save_venue (deposit_request 100000) = Ok r"
    "\<not> qr_not_enough_liquidity r"
    by (rule save_venue_quote [OF save_sample_deposit]) (simp_all add: word_less_nat_alt)
  with quote_all_or_nothing [OF r(1)] show ?thesis by (auto simp: deposit_request_def)
qed

lemma save_venue_no_panic:
  "ov_source save_venue = Some src \<Longrightarrow> source_quote std_crates src wv gc dir a \<noteq> Panic"
  by (cases dir) (auto simp: save_venue_def save_deposit_quote_def save_withdraw_quote_def
        std_uint.save_quotes_no_panic)

lemma save_sample_deposit_65536:
  "save_quote_deposit std_crates save_sample 5 vault_sample config_sample 65536 = Ok 65406"
  by (simp add: save_eval arith_eval save_sample_def vault_sample_def config_sample_def)

lemma save_venue_bounds: "\<exists>lo hi. overpass_bounds std_crates save_venue 0 1 = Some (Ok (lo, hi))"
proof -
  define f where "f = (\<lambda>a. overpass_quote std_crates save_venue (deposit_request a))"
  obtain r where "f 65536 = Ok r" "\<not> qr_not_enough_liquidity r" "qr_expected_output r = 65406"
    unfolding f_def by (rule save_venue_quote [OF save_sample_deposit_65536]) (simp_all add: word_less_nat_alt)
  then have "\<exists>i \<le> 63. valid_at f (word_of_nat (2 ^ i))"
    by (intro exI [of _ 16]) (simp add: valid_quote_def)
  moreover have "no_quote_panics f"
    unfolding no_quote_panics_def f_def
    by (intro allI overpass_quote_no_panic_of) (rule save_venue_no_panic)
  ultimately have "\<exists>lo hi. find_boundaries True f = Some (Ok (lo, hi))"
    by (cases rule: find_boundaries_cases [of True f]) auto
  then show ?thesis
    by (simp add: overpass_bounds_def venue_bounds_def std_ops save_venue_def get_token_def
        get_at_def f_def deposit_request_def)
qed

lemma bounds_can_be_traded_witness:
  "\<exists>lo hi. overpass_bounds std_crates save_venue 0 1 = Some (Ok (lo, hi)) \<and> 0 < lo \<and> lo \<le> hi"
  using save_venue_bounds bounds_can_be_traded [of std_crates save_venue 0 1] by blast

lemma directions_have_bounds_witness:
  "\<exists>dirs. overpass_directions_num std_crates save_venue = Some (Ok dirs) \<and> (0, 1) \<in> set dirs"
proof -
  obtain lo hi where d: "overpass_bounds std_crates save_venue 0 1 = Some (Ok (lo, hi))"
    using save_venue_bounds by blast
  obtain w where w: "overpass_bounds std_crates save_venue 1 0 = Some w"
    using overpass_bounds_Some by blast
  have "overpass_bounds std_crates save_venue 1 0 \<noteq> Some Panic"
    by (rule overpass_bounds_no_panic_of) (rule save_venue_no_panic)
  with w have "w \<noteq> Panic" by auto
  with d w have "\<exists>dirs. overpass_directions_num std_crates save_venue = Some (Ok dirs)"
    by (cases w) (simp_all add: overpass_directions_num_def Let_def)
  then obtain dirs where dirs: "overpass_directions_num std_crates save_venue = Some (Ok dirs)" by blast
  have "ov_wrapper_vault save_venue = Some vault_sample" "wv_wrapper_supply vault_sample = 0"
    by (simp_all add: save_venue_def new_venue_def vault_sample_def)
  with dirs d directions_have_bounds [OF dirs] show ?thesis by (auto simp: Let_def)
qed

lemma save_venue_ix:
  obtains ix where "overpass_generate_swap_instruction std_crates save_venue (deposit_request a) user
      = Ok ix" "take 8 (ix_data ix) = SAVE_DEPOSIT_IX_DISCRIMINATOR"
proof -
  have "\<exists>ix. overpass_generate_swap_instruction std_crates save_venue (deposit_request a) user = Ok ix"
    by (simp add: overpass_generate_swap_instruction_def save_venue_def new_venue_def
        deposit_request_def detect_def save_build_deposit_ix_def save_build_deposit_def
        save_build_base_def config_key_pda find_pda_def derive_ata_def std_ops Let_def)
  then obtain ix where ix: "overpass_generate_swap_instruction std_crates save_venue
      (deposit_request a) user = Ok ix" by blast
  have "detect vault_sample (rq_input_mint (deposit_request a))
      (rq_output_mint (deposit_request a)) = Ok Deposit"
    by (simp add: detect_def deposit_request_def)
  with swap_ix_shape [OF ix]
  have "is_swap_ix (OVERPASS_PROGRAM_ID std_crates) SAVE_DEPOSIT_IX_DISCRIMINATOR user
      (rq_amount (deposit_request a)) 0 ix"
    by (auto simp: save_venue_def new_venue_def)
  then have "take 8 (ix_data ix) = SAVE_DEPOSIT_IX_DISCRIMINATOR"
    by (simp add: is_swap_ix_def SAVE_DEPOSIT_IX_DISCRIMINATOR_def)
  with ix that show thesis by blast
qed

lemma swap_instruction_shape_witness:
  "\<exists>ix rest. overpass_generate_swap_instruction std_crates save_venue (deposit_request 1000)
      (replicate 32 7) = Ok ix \<and> ix_accounts ix = meta_new (replicate 32 7) True # rest"
proof -
  obtain ix where ix: "overpass_generate_swap_instruction std_crates save_venue
      (deposit_request 1000) (replicate 32 7) = Ok ix" by (rule save_venue_ix)
  with swap_instruction_shape [OF ix] show ?thesis by (auto simp: is_swap_ix_def)
qed

end
