(* ===== verification/Swap_Route.thy ===== *)
theory Swap_Route
  imports Venue_Properties
begin

text \<open>
  The off-chain side of a route (\<open>src/src/swap_route/mod.rs\<close>): the venue selector, the legs and the
  data of the route instruction. The types are declared again, with the same variants and fields, in
  \<open>state.rs\<close> of the program template, which reads this encoding. The lemmas give the decoder of the
  encoding and show that it takes every encoded route back.
\<close>

section \<open>Legs\<close>

definition SWAP_ROUTE_V3_DISCRIMINATOR :: u8 where "SWAP_ROUTE_V3_DISCRIMINATOR = 42"
definition ROUTE_WEIGHT_ALL :: u32 where "ROUTE_WEIGHT_ALL = 1000000000"

datatype venue = Venue_RaydiumAmm | Venue_Overpass (discriminator: bytes)

text \<open>The Borsh form the derive gives: the index of the variant, then its fields.\<close>

fun to_borsh_bytes :: "venue \<Rightarrow> bytes" where
  "to_borsh_bytes Venue_RaydiumAmm = [0]"
| "to_borsh_bytes (Venue_Overpass disc) = 1 # disc"

record swap_spec =
  sp_venue :: venue
  sp_from :: u8
  sp_to :: u8
  sp_weight_nanos :: u32
  sp_n_accounts :: u8

definition swap_spec_bytes :: "swap_spec \<Rightarrow> bytes" where
  "swap_spec_bytes spec =
     to_borsh_bytes (sp_venue spec) @ [sp_from spec, sp_to spec]
       @ to_le_bytes 4 (sp_weight_nanos spec) @ [sp_n_accounts spec]"

text \<open>The methods of \<open>TradingVenue\<close> a leg is built from.\<close>

record trading_venue =
  tv_protocol :: pool_protocol
  tv_program_id :: pubkey
  tv_generate_swap_instruction :: "quote_request \<Rightarrow> pubkey \<Rightarrow> instruction vres"

definition protocol_to_venue :: "trading_venue \<Rightarrow> quote_request \<Rightarrow> venue vres" where
  "protocol_to_venue venue request =
     (case tv_protocol venue of
        RaydiumAMM \<Rightarrow> Ok Venue_RaydiumAmm
      | Overpass \<Rightarrow>
          and_then (tv_generate_swap_instruction venue request pubkey_default) (\<lambda>ix.
          and_then (ok_or (Option.bind (get_slice (ix_data ix) 0 8) (try_array 8))
              (UnsupportedVenue (EStaticStr ''overpass ix missing discriminator''))) (\<lambda>disc.
          Ok (Venue_Overpass disc))))"

definition assemble_leg_accounts :: "instruction \<Rightarrow> pubkey \<Rightarrow> pubkey \<Rightarrow> account_meta list" where
  "assemble_leg_accounts swap_ix titan_pda venue_program_id =
     map (\<lambda>acc. if am_pubkey acc = titan_pda then acc\<lparr> am_is_signer := False \<rparr> else acc)
       (ix_accounts swap_ix)
     @ [meta_new_readonly venue_program_id False]"

definition build_swap_leg ::
    "trading_venue \<Rightarrow> quote_request \<Rightarrow> pubkey \<Rightarrow> u8 \<Rightarrow> u8 \<Rightarrow> u32 \<Rightarrow>
      (swap_spec \<times> account_meta list) vres" where
  "build_swap_leg venue request titan_pda from_index to_index weight_nanos =
     and_then (tv_generate_swap_instruction venue request titan_pda) (\<lambda>swap_ix.
     let accounts = assemble_leg_accounts swap_ix titan_pda (tv_program_id venue)
     in and_then (protocol_to_venue venue request) (\<lambda>route_venue.
        Ok (\<lparr> sp_venue = route_venue, sp_from = from_index, sp_to = to_index,
              sp_weight_nanos = weight_nanos, sp_n_accounts = word_of_nat (length accounts) \<rparr>,
            accounts)))"

definition encode_swap_route_v3_data :: "u64 \<Rightarrow> u8 \<Rightarrow> swap_spec list \<Rightarrow> bytes" where
  "encode_swap_route_v3_data amount mints swaps =
     [SWAP_ROUTE_V3_DISCRIMINATOR] @ to_le_bytes 8 amount @ [mints]
       @ to_le_bytes 4 (word_of_nat (length swaps) :: u32) @ concat (map swap_spec_bytes swaps)"

section \<open>The decoder of the encoding\<close>

text \<open>What reads a Borsh route back: every parser returns the value and the rest of the input.\<close>

definition take_bytes :: "nat \<Rightarrow> bytes \<Rightarrow> (bytes \<times> bytes) option" where
  "take_bytes n bs = (if length bs < n then None else Some (take n bs, drop n bs))"

fun venue_of_bytes :: "bytes \<Rightarrow> (venue \<times> bytes) option" where
  "venue_of_bytes [] = None"
| "venue_of_bytes (tag # bs) =
     (if tag = 0 then Some (Venue_RaydiumAmm, bs)
      else if tag = 1 then map_option (apfst Venue_Overpass) (take_bytes 8 bs)
      else None)"

definition swap_spec_of_bytes :: "bytes \<Rightarrow> (swap_spec \<times> bytes) option" where
  "swap_spec_of_bytes bs =
     Option.bind (venue_of_bytes bs) (\<lambda>(v, bs).
     Option.bind (take_bytes 7 bs) (\<lambda>(f, bs).
     Some (\<lparr> sp_venue = v, sp_from = f ! 0, sp_to = f ! 1,
             sp_weight_nanos = from_le_bytes (take 4 (drop 2 f)), sp_n_accounts = f ! 6 \<rparr>, bs)))"

fun swap_specs_of_bytes :: "nat \<Rightarrow> bytes \<Rightarrow> (swap_spec list \<times> bytes) option" where
  "swap_specs_of_bytes 0 bs = Some ([], bs)"
| "swap_specs_of_bytes (Suc n) bs =
     Option.bind (swap_spec_of_bytes bs) (\<lambda>(spec, bs).
     map_option (apfst ((#) spec)) (swap_specs_of_bytes n bs))"

text \<open>The arguments of the route instruction; as in Anchor, bytes behind them are ignored.\<close>

definition decode_swap_route_v3_data :: "bytes \<Rightarrow> (u64 \<times> u8 \<times> swap_spec list) option" where
  "decode_swap_route_v3_data bs =
     Option.bind (take_bytes 14 bs) (\<lambda>(h, bs).
     if h ! 0 \<noteq> SWAP_ROUTE_V3_DISCRIMINATOR then None
     else map_option (\<lambda>(swaps, _). (from_le_bytes (take 8 (drop 1 h)), h ! 9, swaps))
       (swap_specs_of_bytes (unat (from_le_bytes (drop 10 h) :: u32)) bs))"

text \<open>The discriminator of a selector is an array of eight bytes.\<close>

fun wf_venue_selector :: "venue \<Rightarrow> bool" where
  "wf_venue_selector Venue_RaydiumAmm = True"
| "wf_venue_selector (Venue_Overpass disc) = (length disc = 8)"

lemma take_bytes_append [simp]: "length xs = n \<Longrightarrow> take_bytes n (xs @ ys) = Some (xs, ys)"
  by (simp add: take_bytes_def)

lemma venue_of_to_borsh_bytes [simp]:
  "wf_venue_selector v \<Longrightarrow> venue_of_bytes (to_borsh_bytes v @ bs) = Some (v, bs)"
  by (cases v) simp_all

lemma swap_spec_of_bytes_append:
  assumes "wf_venue_selector (sp_venue spec)"
  shows "swap_spec_of_bytes (swap_spec_bytes spec @ bs) = Some (spec, bs)"
proof -
  define f where "f = [sp_from spec, sp_to spec] @ to_le_bytes 4 (sp_weight_nanos spec) @ [sp_n_accounts spec]"
  have f: "length f = 7" "f ! 0 = sp_from spec" "f ! 1 = sp_to spec" "f ! 6 = sp_n_accounts spec"
    "take 4 (drop 2 f) = to_le_bytes 4 (sp_weight_nanos spec)"
    by (simp_all add: f_def nth_append)
  have "swap_spec_bytes spec @ bs = to_borsh_bytes (sp_venue spec) @ f @ bs"
    by (simp add: swap_spec_bytes_def f_def)
  with assms f show ?thesis by (simp add: swap_spec_of_bytes_def from_to_le_bytes)
qed

lemma swap_specs_of_bytes_append:
  "list_all (wf_venue_selector \<circ> sp_venue) swaps \<Longrightarrow>
   swap_specs_of_bytes (length swaps) (concat (map swap_spec_bytes swaps) @ bs) = Some (swaps, bs)"
  by (induction swaps) (simp_all add: swap_spec_of_bytes_append)

lemma decode_encode_route:
  assumes "list_all (wf_venue_selector \<circ> sp_venue) swaps" "length swaps < 2 ^ 32"
  shows "decode_swap_route_v3_data (encode_swap_route_v3_data amount mints swaps @ rest)
    = Some (amount, mints, swaps)"
proof -
  define h where "h = [SWAP_ROUTE_V3_DISCRIMINATOR] @ to_le_bytes 8 amount @ [mints]
    @ to_le_bytes 4 (word_of_nat (length swaps) :: u32)"
  have h: "length h = 14" "h ! 0 = SWAP_ROUTE_V3_DISCRIMINATOR" "h ! 9 = mints"
    "take 8 (drop 1 h) = to_le_bytes 8 amount"
    "drop 10 h = to_le_bytes 4 (word_of_nat (length swaps) :: u32)"
    by (simp_all add: h_def nth_append)
  have "encode_swap_route_v3_data amount mints swaps @ rest =
      h @ concat (map swap_spec_bytes swaps) @ rest"
    by (simp add: encode_swap_route_v3_data_def h_def)
  moreover have "unat (word_of_nat (length swaps) :: u32) = length swaps"
    using assms(2) by (simp add: unsigned_of_nat take_bit_eq_mod)
  ultimately show ?thesis
    using h swap_specs_of_bytes_append [OF assms(1)]
    by (simp add: decode_swap_route_v3_data_def from_to_le_bytes)
qed

section \<open>Properties\<close>

text \<open>
  C32. The route data is read back as it was written: amount, number of mints and every leg, for any
  list of legs whose length fits the 32-bit length field.
\<close>

theorem route_data_round_trip:
  assumes "list_all (wf_venue_selector \<circ> sp_venue) swaps" "length swaps < 2 ^ 32"
  shows "decode_swap_route_v3_data (encode_swap_route_v3_data amount mints swaps)
    = Some (amount, mints, swaps)"
  using decode_encode_route [OF assms, of amount mints "[]"] by simp

lemma leg_accounts_ok:
  "list_all (\<lambda>acc. am_pubkey acc = titan_pda \<longrightarrow> \<not> am_is_signer acc)
     (assemble_leg_accounts ix titan_pda program)"
  "last (assemble_leg_accounts ix titan_pda program) = meta_new_readonly program False"
  "map am_pubkey (assemble_leg_accounts ix titan_pda program)
     = map am_pubkey (ix_accounts ix) @ [program]"
  "map am_is_writable (assemble_leg_accounts ix titan_pda program)
     = map am_is_writable (ix_accounts ix) @ [False]"
proof -
  have keeps: "am_pubkey (if b then acc\<lparr> am_is_signer := False \<rparr> else acc) = am_pubkey acc"
    "am_is_writable (if b then acc\<lparr> am_is_signer := False \<rparr> else acc) = am_is_writable acc"
    for b and acc :: account_meta
    by simp_all
  show "list_all (\<lambda>acc. am_pubkey acc = titan_pda \<longrightarrow> \<not> am_is_signer acc)
     (assemble_leg_accounts ix titan_pda program)"
    unfolding assemble_leg_accounts_def list_all_append list.pred_map comp_def
    by (simp add: list.pred_True)
  show "last (assemble_leg_accounts ix titan_pda program) = meta_new_readonly program False"
    "map am_pubkey (assemble_leg_accounts ix titan_pda program)
       = map am_pubkey (ix_accounts ix) @ [program]"
    "map am_is_writable (assemble_leg_accounts ix titan_pda program)
       = map am_is_writable (ix_accounts ix) @ [False]"
    by (simp_all add: assemble_leg_accounts_def comp_def keeps)
qed

text \<open>
  A leg takes the accounts of the venue's own instruction, in order and with their write flags,
  and the venue program behind them; the route authority is nowhere a signer. Its account count is
  the number of these accounts modulo 256: it is wrong for an instruction of 255 accounts or more.
\<close>

theorem leg_accounts:
  assumes "build_swap_leg V rq pda f t w = Ok (spec, accounts)"
  shows "\<exists>ix. tv_generate_swap_instruction V rq pda = Ok ix \<and>
    map am_pubkey accounts = map am_pubkey (ix_accounts ix) @ [tv_program_id V] \<and>
    map am_is_writable accounts = map am_is_writable (ix_accounts ix) @ [False] \<and>
    list_all (\<lambda>acc. am_pubkey acc = pda \<longrightarrow> \<not> am_is_signer acc) accounts \<and>
    unat (sp_n_accounts spec) = (length (ix_accounts ix) + 1) mod 256"
proof -
  from assms obtain ix where ix: "tv_generate_swap_instruction V rq pda = Ok ix"
    and acc: "accounts = assemble_leg_accounts ix pda (tv_program_id V)"
    and n: "sp_n_accounts spec = word_of_nat (length accounts)"
    by (auto simp: build_swap_leg_def Let_def)
  have "length accounts = length (ix_accounts ix) + 1" by (simp add: acc assemble_leg_accounts_def)
  then have "unat (sp_n_accounts spec) = (length (ix_accounts ix) + 1) mod 256"
    unfolding n by (simp only: unsigned_of_nat take_bit_eq_mod) simp
  with ix leg_accounts_ok [where titan_pda = pda and ix = ix and program = "tv_program_id V"] show ?thesis by (simp add: acc)
qed

text \<open>The methods of an Overpass venue.\<close>

definition overpass_trading_venue :: "crates \<Rightarrow> overpass_venue \<Rightarrow> trading_venue" where
  "overpass_trading_venue E v =
     \<lparr> tv_protocol = overpass_protocol, tv_program_id = overpass_program_id E,
       tv_generate_swap_instruction = overpass_generate_swap_instruction E v \<rparr>"

lemma overpass_leg_spec:
  assumes "build_swap_leg (overpass_trading_venue E v) rq pda f t w = Ok (spec, accounts)"
  obtains ix wv src dir where "overpass_generate_swap_instruction E v rq pda = Ok ix"
    "accounts = assemble_leg_accounts ix pda (overpass_program_id E)"
    "ov_wrapper_vault v = Some wv" "ov_source v = Some src"
    "detect wv (rq_input_mint rq) (rq_output_mint rq) = Ok dir"
    "is_swap_ix (OVERPASS_PROGRAM_ID E) (entry_discriminator (source_protocol src) dir) pda
      (rq_amount rq) 0 ix"
    "sp_venue spec = Venue_Overpass (entry_discriminator (source_protocol src) dir)"
proof -
  from assms obtain ix ix' where ix: "overpass_generate_swap_instruction E v rq pda = Ok ix"
      "overpass_generate_swap_instruction E v rq pubkey_default = Ok ix'"
    and acc: "accounts = assemble_leg_accounts ix pda (overpass_program_id E)"
    and sel: "sp_venue spec = Venue_Overpass (take 8 (ix_data ix'))"
    by (auto simp: build_swap_leg_def protocol_to_venue_def overpass_trading_venue_def
        overpass_protocol_def get_slice_def try_array_def Let_def split: if_splits)
  obtain wv src dir where v: "ov_wrapper_vault v = Some wv" "ov_source v = Some src"
    "detect wv (rq_input_mint rq) (rq_output_mint rq) = Ok dir"
    and sw: "is_swap_ix (OVERPASS_PROGRAM_ID E) (entry_discriminator (source_protocol src) dir) pda
      (rq_amount rq) 0 ix"
    using swap_ix_shape [OF ix(1)] by blast
  have "is_swap_ix (OVERPASS_PROGRAM_ID E) (entry_discriminator (source_protocol src) dir)
      pubkey_default (rq_amount rq) 0 ix'"
    using swap_ix_shape [OF ix(2)] v by auto
  then have "take 8 (ix_data ix') = entry_discriminator (source_protocol src) dir"
    by (auto simp: is_swap_ix_def)
  with ix(1) acc v sw sel that show thesis by simp
qed

text \<open>
  A leg for an Overpass venue asks for no signature at all, since its instruction asks for that
  of the route authority only, and its selector carries the discriminator of the entry point for
  the venue's protocol and the direction of the request.
\<close>

theorem overpass_leg:
  assumes "build_swap_leg (overpass_trading_venue E v) rq pda f t w = Ok (spec, accounts)"
  shows "list_all (\<lambda>acc. \<not> am_is_signer acc) accounts \<and>
    (\<exists>wv src dir. ov_wrapper_vault v = Some wv \<and> ov_source v = Some src \<and>
       detect wv (rq_input_mint rq) (rq_output_mint rq) = Ok dir \<and>
       sp_venue spec = Venue_Overpass (entry_discriminator (source_protocol src) dir))"
  using assms
proof (rule overpass_leg_spec)
  fix ix wv src dir
  assume v: "ov_wrapper_vault v = Some wv" "ov_source v = Some src"
      "detect wv (rq_input_mint rq) (rq_output_mint rq) = Ok dir"
      "sp_venue spec = Venue_Overpass (entry_discriminator (source_protocol src) dir)"
    and acc: "accounts = assemble_leg_accounts ix pda (overpass_program_id E)"
      "is_swap_ix (OVERPASS_PROGRAM_ID E) (entry_discriminator (source_protocol src) dir) pda
        (rq_amount rq) 0 ix"
  from acc have "list_all (\<lambda>acc. \<not> am_is_signer acc) accounts"
    by (auto simp: is_swap_ix_def assemble_leg_accounts_def list_all_iff)
  with v show ?thesis by blast
qed

section \<open>Concrete routes\<close>

definition leg_sample :: swap_spec where
  "leg_sample = \<lparr> sp_venue = Venue_Overpass SAVE_DEPOSIT_IX_DISCRIMINATOR, sp_from = 0, sp_to = 1,
     sp_weight_nanos = ROUTE_WEIGHT_ALL, sp_n_accounts = 23 \<rparr>"

lemma route_data_round_trip_witness:
  "decode_swap_route_v3_data (encode_swap_route_v3_data 5000 2 [leg_sample, leg_sample])
    = Some (5000, 2, [leg_sample, leg_sample])"
  by (rule route_data_round_trip) (simp_all add: leg_sample_def SAVE_DEPOSIT_IX_DISCRIMINATOR_def)

text \<open>A venue whose instruction has 255 accounts: the count of its leg is 0.\<close>

definition wide_venue :: trading_venue where
  "wide_venue = \<lparr> tv_protocol = RaydiumAMM, tv_program_id = replicate 32 7,
     tv_generate_swap_instruction = (\<lambda>rq user. Ok \<lparr> ix_program_id = replicate 32 7,
       ix_accounts = replicate 255 (meta_new user True), ix_data = [] \<rparr>) \<rparr>"

lemma leg_accounts_witness:
  "\<exists>spec accounts. build_swap_leg wide_venue (deposit_request 1000) (replicate 32 9) 0 1
      ROUTE_WEIGHT_ALL = Ok (spec, accounts) \<and>
    length accounts = 256 \<and> sp_n_accounts spec = 0"
proof -
  have "\<exists>spec accounts. build_swap_leg wide_venue (deposit_request 1000) (replicate 32 9) 0 1
      ROUTE_WEIGHT_ALL = Ok (spec, accounts)"
    by (simp add: build_swap_leg_def wide_venue_def protocol_to_venue_def Let_def)
  then obtain spec accounts where leg: "build_swap_leg wide_venue (deposit_request 1000)
      (replicate 32 9) 0 1 ROUTE_WEIGHT_ALL = Ok (spec, accounts)" by blast
  from leg_accounts [OF leg] obtain ix where
    ix: "tv_generate_swap_instruction wide_venue (deposit_request 1000) (replicate 32 9) = Ok ix"
    and keys: "map am_pubkey accounts = map am_pubkey (ix_accounts ix) @ [tv_program_id wide_venue]"
    and n: "unat (sp_n_accounts spec) = (length (ix_accounts ix) + 1) mod 256" by blast
  from ix have len: "length (ix_accounts ix) = 255" by (auto simp: wide_venue_def)
  have "length accounts = 256" using arg_cong [where f = length, OF keys] len by simp
  moreover from n len have "sp_n_accounts spec = 0" by (simp add: unat_eq_zero)
  ultimately show ?thesis using leg by blast
qed

lemma overpass_leg_witness:
  "\<exists>spec accounts. build_swap_leg (overpass_trading_venue std_crates save_venue)
      (deposit_request 1000) (replicate 32 7) 0 1 ROUTE_WEIGHT_ALL = Ok (spec, accounts) \<and>
    sp_venue spec = Venue_Overpass SAVE_DEPOSIT_IX_DISCRIMINATOR"
proof -
  obtain ix where ix: "overpass_generate_swap_instruction std_crates save_venue
      (deposit_request 1000) (replicate 32 7) = Ok ix" by (rule save_venue_ix)
  obtain ix' where ix': "overpass_generate_swap_instruction std_crates save_venue
      (deposit_request 1000) pubkey_default = Ok ix'"
      "take 8 (ix_data ix') = SAVE_DEPOSIT_IX_DISCRIMINATOR" by (rule save_venue_ix)
  have len: "length SAVE_DEPOSIT_IX_DISCRIMINATOR = 8"
    by (simp add: SAVE_DEPOSIT_IX_DISCRIMINATOR_def)
  then have "8 \<le> length (ix_data ix')" using arg_cong [where f = length, OF ix'(2)] by simp
  with ix ix' len have "\<exists>spec accounts. build_swap_leg (overpass_trading_venue std_crates save_venue)
      (deposit_request 1000) (replicate 32 7) 0 1 ROUTE_WEIGHT_ALL = Ok (spec, accounts)"
    by (simp add: build_swap_leg_def protocol_to_venue_def overpass_trading_venue_def
        overpass_protocol_def get_slice_def try_array_def Let_def)
  then obtain spec accounts where leg: "build_swap_leg (overpass_trading_venue std_crates save_venue)
      (deposit_request 1000) (replicate 32 7) 0 1 ROUTE_WEIGHT_ALL = Ok (spec, accounts)" by blast
  have "detect vault_sample (rq_input_mint (deposit_request 1000))
      (rq_output_mint (deposit_request 1000)) = Ok Deposit"
    by (simp add: detect_def deposit_request_def)
  with overpass_leg [OF leg] leg show ?thesis by (auto simp: save_venue_def new_venue_def)
qed

end
