(* ===== verification/Route_Program.thy ===== *)
theory Route_Program
  imports Swap_Route
begin

text \<open>
  The on-chain side of a route, the program template
  (\<open>src/program-template/programs/titan-v3-venue-template/src\<close>): the state account, the readers of
  token accounts and mints, the bitmap of tracked accounts, the calls of the token programs, and the
  handler \<open>swap_route_v3\<close>. The programs it calls are parameters: nothing is assumed of what a venue
  does with the accounts it is given.

  A step works on the \<open>world\<close>, the content of every account by key; two account infos with the same
  key share it. An error or a panic aborts the transaction, so outcomes carry the new world only if
  they are \<open>Ok\<close>. Anchor's checks of the account list, which its macros generate, come before the
  handler and are not part of it.
\<close>

section \<open>State and errors (\<open>state.rs\<close>, \<open>error.rs\<close>)\<close>

definition MAX_SWAPS :: nat where "MAX_SWAPS = 12"
definition MAX_MINTS :: nat where "MAX_MINTS = 12"

record titan_pda_state =
  tp_bump :: u8

definition TITAN_PDA_SIZE :: nat where "TITAN_PDA_SIZE = 1"
definition TITAN_PDA_SEED :: bytes where "TITAN_PDA_SEED = byte_str ''titan_pda''"

text \<open>\<open>Program_Error\<close> stands for an error of a called program.\<close>

datatype template_error =
    InvalidSwapInput
  | MissingRemainingAccount
  | InvalidAccountData
  | ReservedBalanceViolation
  | Program_Error nat

type_synonym 'a route_res = "(template_error, 'a) outcome"

definition require_that :: "bool \<Rightarrow> template_error \<Rightarrow> unit route_res" where
  "require_that c e = (if c then Ok () else Err e)"

section \<open>Accounts and called programs\<close>

record chain_account =
  ca_lamports :: u64
  ca_data :: bytes
  ca_owner :: pubkey

type_synonym world = "pubkey \<Rightarrow> chain_account"

record account_info =
  ai_key :: pubkey
  ai_is_signer :: bool
  ai_is_writable :: bool

type_synonym seeds = "bytes list list"

text \<open>
  What the program calls: instruction constructors and constants of the SPL crates, \<open>invoke\<close> and
  \<open>invoke_signed\<close>, and the token operations of \<open>anchor_spl\<close> (token program, accounts, seeds of the
  signing context if any, amounts).
\<close>

record runtime =
  rt_native_mint :: pubkey
  rt_create_ata_ix :: "pubkey \<Rightarrow> pubkey \<Rightarrow> pubkey \<Rightarrow> pubkey \<Rightarrow> instruction"
  rt_system_transfer_ix :: "pubkey \<Rightarrow> pubkey \<Rightarrow> u64 \<Rightarrow> instruction"
  rt_sync_native_ix :: "pubkey \<Rightarrow> pubkey \<Rightarrow> instruction route_res"
  rt_invoke :: "instruction \<Rightarrow> account_info list \<Rightarrow> world \<Rightarrow> world route_res"
  rt_invoke_signed :: "instruction \<Rightarrow> account_info list \<Rightarrow> seeds \<Rightarrow> world \<Rightarrow> world route_res"
  rt_transfer :: "account_info \<Rightarrow> account_info \<Rightarrow> account_info \<Rightarrow> account_info \<Rightarrow> seeds option \<Rightarrow>
    u64 \<Rightarrow> world \<Rightarrow> world route_res"
  rt_transfer_checked :: "account_info \<Rightarrow> account_info \<Rightarrow> account_info \<Rightarrow> account_info \<Rightarrow>
    account_info \<Rightarrow> seeds option \<Rightarrow> u64 \<Rightarrow> u8 \<Rightarrow> world \<Rightarrow> world route_res"
  rt_close_account :: "account_info \<Rightarrow> account_info \<Rightarrow> account_info \<Rightarrow> account_info \<Rightarrow>
    seeds option \<Rightarrow> world \<Rightarrow> world route_res"

section \<open>Readers\<close>

definition account_exists :: "world \<Rightarrow> account_info \<Rightarrow> bool" where
  "account_exists w a \<longleftrightarrow> 0 < ca_lamports (w (ai_key a)) \<and> 0 < length (ca_data (w (ai_key a)))"

definition is_native_mint :: "runtime \<Rightarrow> account_info \<Rightarrow> bool" where
  "is_native_mint R mint \<longleftrightarrow> ai_key mint = rt_native_mint R"

definition extract_token_amount :: "world \<Rightarrow> account_info \<Rightarrow> u64 route_res" where
  "extract_token_amount w a =
     and_then (ok_or (get_slice (ca_data (w (ai_key a))) 64 72) InvalidAccountData) (\<lambda>bs.
     and_then (ok_or (try_array 8 bs) InvalidAccountData) (\<lambda>arr. Ok (from_le_bytes arr)))"

definition extract_token_owner :: "world \<Rightarrow> account_info \<Rightarrow> pubkey route_res" where
  "extract_token_owner w a =
     and_then (ok_or (get_slice (ca_data (w (ai_key a))) 32 64) InvalidAccountData) (\<lambda>bs.
     ok_or (try_array 32 bs) InvalidAccountData)"

definition extract_mint_decimals :: "world \<Rightarrow> account_info \<Rightarrow> u8 route_res" where
  "extract_mint_decimals w mint = ok_or (get_at (ca_data (w (ai_key mint))) 44) InvalidAccountData"

definition is_titan_pda_token_account ::
    "crates \<Rightarrow> world \<Rightarrow> account_info \<Rightarrow> pubkey \<Rightarrow> bool" where
  "is_titan_pda_token_account E w a expected_authority =
     (if ca_owner (w (ai_key a)) \<noteq> spl_token_id E \<and> ca_owner (w (ai_key a)) \<noteq> spl_token_2022_id E
      then False
      else if length (ca_data (w (ai_key a))) < 165 then False
      else case extract_token_owner w a of Ok owner \<Rightarrow> owner = expected_authority | _ \<Rightarrow> False)"

definition read_token_ledger ::
    "world \<Rightarrow> account_info option \<Rightarrow> account_info \<Rightarrow> u64 option route_res" where
  "read_token_ledger w token_ledger input_token_account =
     (case token_ledger of
        None \<Rightarrow> Ok None
      | Some ledger_account \<Rightarrow>
          let data = ca_data (w (ai_key ledger_account))
          in if length data < 48 then Err InvalidAccountData
             else and_then (ok_or (get_slice data 8 40) InvalidAccountData) (\<lambda>account_slice.
               and_then (ok_or (try_array 32 account_slice) InvalidAccountData) (\<lambda>token_account.
               if token_account \<noteq> ai_key input_token_account then Err InvalidAccountData
               else and_then (ok_or (get_slice data 40 48) InvalidAccountData) (\<lambda>amount_slice.
                 and_then (ok_or (try_array 8 amount_slice) InvalidAccountData) (\<lambda>arr.
                 Ok (Some (from_le_bytes arr)))))))"

definition get_token_program_for_mint ::
    "crates \<Rightarrow> world \<Rightarrow> account_info \<Rightarrow> account_info \<Rightarrow> account_info \<Rightarrow> account_info" where
  "get_token_program_for_mint E w mint token_program token_2022_program =
     (if ca_owner (w (ai_key mint)) = spl_token_2022_id E then token_2022_program else token_program)"

section \<open>The bitmap\<close>

text \<open>Four words of 64 bits.\<close>

type_synonym titan_pda_bitmap = "u64 list"

definition bitmap_new :: titan_pda_bitmap where
  "bitmap_new = replicate 4 0"

definition bitmap_set :: "titan_pda_bitmap \<Rightarrow> nat \<Rightarrow> titan_pda_bitmap" where
  "bitmap_set bits index =
     (if index < 256
      then bits[index div 64 := or (bits ! (index div 64)) (push_bit (index mod 64) 1)] else bits)"

definition bitmap_is_set :: "titan_pda_bitmap \<Rightarrow> nat \<Rightarrow> bool" where
  "bitmap_is_set bits index \<longleftrightarrow>
     index < 256 \<and> and (bits ! (index div 64)) (push_bit (index mod 64) 1) \<noteq> 0"

section \<open>Venue instructions (\<open>venues/\<close>)\<close>

definition RAYDIUM_PROGRAM_ID :: "crates \<Rightarrow> pubkey" where
  "RAYDIUM_PROGRAM_ID E = from_str_const E ''675kPX9MHTjS2zt1qfr1NYHuzeLXfQM9H24wFSUt1Mp8''"

definition raydium_swap_base_in_v2 :: "crates \<Rightarrow> u64 \<Rightarrow> account_meta list \<Rightarrow> instruction list" where
  "raydium_swap_base_in_v2 E amount_in account_metas =
     [\<lparr> ix_program_id = RAYDIUM_PROGRAM_ID E, ix_accounts = account_metas,
        ix_data = [16] @ to_le_bytes 8 amount_in @ to_le_bytes 8 (0 :: u64) \<rparr>]"

definition ROUTE_OVERPASS_PROGRAM_ID :: "crates \<Rightarrow> pubkey" where
  "ROUTE_OVERPASS_PROGRAM_ID E = from_str_const E ''WRAPdXmxrH37RKUbH1QMnYrKdNe8w4Kz44t1cXmYeum''"

definition route_overpass_swap :: "crates \<Rightarrow> bytes \<Rightarrow> u64 \<Rightarrow> account_meta list \<Rightarrow> instruction list" where
  "route_overpass_swap E disc amount_in account_metas =
     [\<lparr> ix_program_id = ROUTE_OVERPASS_PROGRAM_ID E, ix_accounts = account_metas,
        ix_data = disc @ to_le_bytes 8 amount_in @ to_le_bytes 8 (0 :: u64) \<rparr>]"

section \<open>Calls of the token programs\<close>

definition transfer_tokens ::
    "crates \<Rightarrow> runtime \<Rightarrow> account_info \<Rightarrow> account_info \<Rightarrow> account_info \<Rightarrow> account_info \<Rightarrow>
      account_info option \<Rightarrow> u64 \<Rightarrow> u8 \<Rightarrow> seeds option \<Rightarrow> world \<Rightarrow> world route_res" where
  "transfer_tokens E R token_program from_acc to_acc authority mint amount decimals signer_seeds w =
     (if amount = 0 then Ok w
      else if ai_key token_program = spl_token_2022_id E then
        and_then (ok_or mint MissingRemainingAccount) (\<lambda>mint_acc.
        rt_transfer_checked R token_program from_acc mint_acc to_acc authority signer_seeds amount
          decimals w)
      else rt_transfer R token_program from_acc to_acc authority signer_seeds amount w)"

text \<open>\<open>create_titan_pda_ata\<close> and \<open>create_user_ata\<close>, which differ in the owner only.\<close>

definition create_ata ::
    "runtime \<Rightarrow> account_info \<Rightarrow> account_info \<Rightarrow> account_info \<Rightarrow> account_info \<Rightarrow> account_info \<Rightarrow>
      account_info \<Rightarrow> world \<Rightarrow> world route_res" where
  "create_ata R payer owner mint ata token_program system_program w =
     rt_invoke R
       (rt_create_ata_ix R (ai_key payer) (ai_key owner) (ai_key mint) (ai_key token_program))
       [payer, ata, owner, mint, system_program, token_program] w"

definition create_titan_pda_ata ::
    "runtime \<Rightarrow> account_info \<Rightarrow> account_info \<Rightarrow> account_info \<Rightarrow> account_info \<Rightarrow> account_info \<Rightarrow>
      account_info \<Rightarrow> world \<Rightarrow> world route_res" where
  "create_titan_pda_ata R payer titan_pda mint ata token_program system_program w =
     create_ata R payer titan_pda mint ata token_program system_program w"

definition create_user_ata ::
    "runtime \<Rightarrow> account_info \<Rightarrow> account_info \<Rightarrow> account_info \<Rightarrow> account_info \<Rightarrow> account_info \<Rightarrow>
      account_info \<Rightarrow> world \<Rightarrow> world route_res" where
  "create_user_ata R payer owner mint ata token_program system_program w =
     create_ata R payer owner mint ata token_program system_program w"

definition close_titan_pda_ata ::
    "runtime \<Rightarrow> account_info \<Rightarrow> account_info \<Rightarrow> account_info \<Rightarrow> account_info \<Rightarrow> seeds \<Rightarrow> world \<Rightarrow>
      world route_res" where
  "close_titan_pda_ata R ata destination titan_pda token_program signer_seeds w =
     rt_close_account R token_program ata destination titan_pda (Some signer_seeds) w"

definition close_token_account ::
    "runtime \<Rightarrow> account_info \<Rightarrow> account_info \<Rightarrow> account_info \<Rightarrow> account_info \<Rightarrow> seeds option \<Rightarrow>
      world \<Rightarrow> world route_res" where
  "close_token_account R token_account destination authority token_program signer_seeds w =
     rt_close_account R token_program token_account destination authority signer_seeds w"

definition transfer_sol_and_sync ::
    "runtime \<Rightarrow> account_info \<Rightarrow> account_info \<Rightarrow> account_info \<Rightarrow> u64 \<Rightarrow> world \<Rightarrow> world route_res" where
  "transfer_sol_and_sync R from_acc wsol_ata token_program amount w =
     (if amount = 0 then Ok w
      else
        and_then (rt_invoke R (rt_system_transfer_ix R (ai_key from_acc) (ai_key wsol_ata) amount)
          [from_acc, wsol_ata] w) (\<lambda>w.
        and_then (rt_sync_native_ix R (ai_key token_program) (ai_key wsol_ata)) (\<lambda>sync_ix.
        rt_invoke R sync_ix [wsol_ata] w)))"

definition setup_wsol_input_account ::
    "crates \<Rightarrow> runtime \<Rightarrow> account_info \<Rightarrow> account_info \<Rightarrow> account_info \<Rightarrow> account_info \<Rightarrow>
      account_info \<Rightarrow> account_info \<Rightarrow> u64 \<Rightarrow> world \<Rightarrow> (bool \<times> world) route_res" where
  "setup_wsol_input_account E R payer owner wsol_ata mint token_program system_program amount w =
     (if account_exists w wsol_ata then
        and_then (extract_token_amount w wsol_ata) (\<lambda>current_balance.
        if current_balance < amount then
          and_then (plain_sub (overflow_checks E) amount current_balance) (\<lambda>deficit.
          and_then (transfer_sol_and_sync R owner wsol_ata token_program deficit w) (\<lambda>w.
          Ok (False, w)))
        else Ok (False, w))
      else
        and_then (create_ata R payer owner mint wsol_ata token_program system_program w) (\<lambda>w.
        and_then (transfer_sol_and_sync R owner wsol_ata token_program amount w) (\<lambda>w.
        Ok (True, w))))"

section \<open>The handler (\<open>instructions/swap_route_v3.rs\<close>)\<close>

record swap_route_accounts =
  sa_payer :: account_info
  sa_user :: account_info
  sa_titan_pda :: account_info
  sa_titan_pda_state :: titan_pda_state
  sa_input_token_account :: account_info
  sa_output_token_account :: account_info
  sa_token_program :: account_info
  sa_token_2022_program :: account_info
  sa_system_program :: account_info
  sa_associated_token_program :: account_info
  sa_token_ledger :: "account_info option"
  sa_reserved_optional_account_0 :: "account_info option"
  sa_reserved_optional_account_1 :: "account_info option"

abbreviation program_for :: "crates \<Rightarrow> swap_route_accounts \<Rightarrow> world \<Rightarrow> account_info \<Rightarrow> account_info" where
  "program_for E ctx w mint \<equiv>
     get_token_program_for_mint E w mint (sa_token_program ctx) (sa_token_2022_program ctx)"

text \<open>\<open>remaining_accounts.get(i)\<close>.\<close>

abbreviation remaining :: "account_info list \<Rightarrow> nat \<Rightarrow> account_info route_res" where
  "remaining rem i \<equiv> ok_or (get_at rem i) MissingRemainingAccount"

text \<open>The checks of the arguments.\<close>

definition validate_route :: "account_info list \<Rightarrow> u8 \<Rightarrow> swap_spec list \<Rightarrow> unit route_res" where
  "validate_route rem mints swaps =
     and_then (require_that (1 < mints \<and> swaps \<noteq> []) InvalidSwapInput) (\<lambda>_.
     and_then (require_that (length swaps \<le> MAX_SWAPS) InvalidSwapInput) (\<lambda>_.
     and_then (require_that (unat mints \<le> MAX_MINTS) InvalidSwapInput) (\<lambda>_.
     and_then (require_that (2 * unat mints \<le> length rem) MissingRemainingAccount) (\<lambda>_.
     and_then (index_at swaps 0) (\<lambda>first.
     and_then (require_that (sp_from first = 0) InvalidSwapInput) (\<lambda>_.
     and_then (map_outcome (\<lambda>swap.
       require_that (sp_from swap < mints \<and> sp_to swap < mints) InvalidSwapInput) swaps) (\<lambda>_.
     Ok ())))))))"

text \<open>The loop that creates the missing token accounts, and remembers which in a \<open>u16\<close>.\<close>

fun create_missing_atas ::
    "crates \<Rightarrow> runtime \<Rightarrow> swap_route_accounts \<Rightarrow> account_info list \<Rightarrow> nat \<Rightarrow> nat list \<Rightarrow> u16 \<Rightarrow>
      world \<Rightarrow> (u16 \<times> world) route_res" where
  "create_missing_atas E R ctx rem mints_count [] created_atas w = Ok (created_atas, w)"
| "create_missing_atas E R ctx rem mints_count (i # is) created_atas w =
     and_then (remaining rem i) (\<lambda>ata.
     if account_exists w ata then create_missing_atas E R ctx rem mints_count is created_atas w
     else
       and_then (remaining rem (mints_count + i)) (\<lambda>mint_account.
       and_then (create_titan_pda_ata R (sa_payer ctx) (sa_titan_pda ctx) mint_account ata
                   (program_for E ctx w mint_account) (sa_system_program ctx) w) (\<lambda>w.
       create_missing_atas E R ctx rem mints_count is (or created_atas (push_bit i 1)) w)))"

text \<open>The loop over all remaining accounts that records the balances to be kept.\<close>

fun record_balances ::
    "crates \<Rightarrow> world \<Rightarrow> pubkey \<Rightarrow> nat \<Rightarrow> (nat \<times> account_info) list \<Rightarrow>
      titan_pda_bitmap \<times> u64 list \<times> u64 list \<Rightarrow>
      (titan_pda_bitmap \<times> u64 list \<times> u64 list) route_res" where
  "record_balances E w pda mints_count [] st = Ok st"
| "record_balances E w pda mints_count ((i, account) # rest) (bitmap, balances, reserved) =
     (if i < mints_count then
        and_then (require_that (is_titan_pda_token_account E w account pda) InvalidAccountData) (\<lambda>_.
        and_then (extract_token_amount w account) (\<lambda>balance.
        and_then (index_at reserved i) (\<lambda>_.
        record_balances E w pda mints_count rest
          (bitmap_set bitmap i, balances @ [balance], reserved[i := balance]))))
      else if is_titan_pda_token_account E w account pda then
        and_then (extract_token_amount w account) (\<lambda>balance.
        record_balances E w pda mints_count rest (bitmap_set bitmap i, balances @ [balance], reserved))
      else record_balances E w pda mints_count rest (bitmap, balances, reserved))"

definition effective_route_amount ::
    "world \<Rightarrow> account_info \<Rightarrow> u64 option \<Rightarrow> u64 \<Rightarrow> u64 route_res" where
  "effective_route_amount w input_token_account ledger_amount amount =
     (case ledger_amount of
        Some stored \<Rightarrow>
          and_then (extract_token_amount w input_token_account) (\<lambda>current.
          and_then (ok_or (checked_sub current stored) InvalidAccountData) (\<lambda>delta.
          and_then (require_that (0 < delta) InvalidAccountData) (\<lambda>_. Ok delta)))
      | None \<Rightarrow> Ok amount)"

text \<open>The share of a balance a leg spends.\<close>

definition leg_input_amount :: "u64 \<Rightarrow> u64 \<Rightarrow> u32 \<Rightarrow> u64 route_res" where
  "leg_input_amount input_token_balance reserved_balance weight_nanos =
     (let available_balance = saturating_sub input_token_balance reserved_balance;
          weight = (ucast (min weight_nanos 1000000000) :: u128)
      in and_then (plain_div (saturating_mul (ucast available_balance) weight) 1000000000)
           (\<lambda>share. Ok (ucast share)))"

definition perform_cpi_swap ::
    "crates \<Rightarrow> runtime \<Rightarrow> u64 \<Rightarrow> swap_spec \<Rightarrow> account_meta list \<Rightarrow> account_info list \<Rightarrow> seeds \<Rightarrow>
      world \<Rightarrow> world route_res" where
  "perform_cpi_swap E R amount swap account_metas account_infos signer_seeds w =
     (let instructions =
        (case sp_venue swap of
           Venue_RaydiumAmm \<Rightarrow> raydium_swap_base_in_v2 E amount account_metas
         | Venue_Overpass disc \<Rightarrow> route_overpass_swap E disc amount account_metas)
      in fold_outcome (\<lambda>w instruction. rt_invoke_signed R instruction account_infos signer_seeds w)
           w instructions)"

text \<open>The metas of a call: the accounts of the leg without the program, the authority signing.\<close>

definition leg_metas :: "pubkey \<Rightarrow> account_info list \<Rightarrow> account_meta list" where
  "leg_metas pda infos =
     map (\<lambda>a. \<lparr> am_pubkey = ai_key a, am_is_signer = ai_key a = pda \<or> ai_is_signer a,
               am_is_writable = ai_is_writable a \<rparr>) infos"

fun run_legs ::
    "crates \<Rightarrow> runtime \<Rightarrow> pubkey \<Rightarrow> account_info list \<Rightarrow> u64 list \<Rightarrow> seeds \<Rightarrow> swap_spec list \<Rightarrow>
      nat \<Rightarrow> world \<Rightarrow> world route_res" where
  "run_legs E R pda rem reserved signer_seeds [] index w = Ok w"
| "run_legs E R pda rem reserved signer_seeds (swap # swaps) index w =
     (let account_increment = unat (sp_n_accounts swap)
      in and_then (require_that (0 < account_increment) InvalidSwapInput) (\<lambda>_.
         and_then (require_that (index + account_increment \<le> length rem) MissingRemainingAccount) (\<lambda>_.
         and_then (remaining rem (unat (sp_from swap))) (\<lambda>input_token_account.
         and_then (extract_token_amount w input_token_account) (\<lambda>input_token_balance.
         and_then (index_at reserved (unat (sp_from swap))) (\<lambda>reserved_balance.
         and_then (leg_input_amount input_token_balance reserved_balance (sp_weight_nanos swap))
           (\<lambda>input_amount.
         and_then
           (if 0 < input_amount then
              and_then (slice rem index (index + account_increment)) (\<lambda>leg_accounts.
              and_then (slice leg_accounts 0 (account_increment - 1)) (\<lambda>cpi_accounts.
              perform_cpi_swap E R input_amount swap (leg_metas pda cpi_accounts) leg_accounts
                signer_seeds w))
            else Ok w) (\<lambda>w.
         run_legs E R pda rem reserved signer_seeds swaps (index + account_increment) w))))))))"

text \<open>The loop that closes the created accounts that are empty.\<close>

fun close_created_atas ::
    "crates \<Rightarrow> runtime \<Rightarrow> swap_route_accounts \<Rightarrow> account_info list \<Rightarrow> nat \<Rightarrow> u16 \<Rightarrow> seeds \<Rightarrow> nat list \<Rightarrow>
      world \<Rightarrow> world route_res" where
  "close_created_atas E R ctx rem mints_count created_atas signer_seeds [] w = Ok w"
| "close_created_atas E R ctx rem mints_count created_atas signer_seeds (i # is) w =
     (if and created_atas (push_bit i 1) = 0 then
        close_created_atas E R ctx rem mints_count created_atas signer_seeds is w
      else
        and_then (remaining rem i) (\<lambda>ata.
        if 0 < (case extract_token_amount w ata of Ok a \<Rightarrow> a | _ \<Rightarrow> 0) then
          close_created_atas E R ctx rem mints_count created_atas signer_seeds is w
        else
          and_then (remaining rem (mints_count + i)) (\<lambda>mint.
          and_then (close_titan_pda_ata R ata (sa_payer ctx) (sa_titan_pda ctx)
                      (program_for E ctx w mint) signer_seeds w) (\<lambda>w.
          close_created_atas E R ctx rem mints_count created_atas signer_seeds is w))))"

text \<open>The last loop: no recorded balance may have fallen.\<close>

fun check_reserves ::
    "world \<Rightarrow> titan_pda_bitmap \<Rightarrow> u64 list \<Rightarrow> (nat \<times> account_info) list \<Rightarrow> nat \<Rightarrow> unit route_res" where
  "check_reserves w bitmap balances [] balance_idx = Ok ()"
| "check_reserves w bitmap balances ((i, account) # rest) balance_idx =
     (if bitmap_is_set bitmap i then
        let final_balance = (case extract_token_amount w account of Ok a \<Rightarrow> a | _ \<Rightarrow> 0)
        in and_then (index_at balances balance_idx) (\<lambda>balance.
           and_then (require_that (balance \<le> final_balance) ReservedBalanceViolation) (\<lambda>_.
           check_reserves w bitmap balances rest (balance_idx + 1)))
      else check_reserves w bitmap balances rest balance_idx)"

text \<open>
  The handler in three parts: up to the recorded balances, from the transfer in to the transfer out,
  and the end. The first part hands over what the others need.
\<close>

record route_plan =
  pl_ledger_amount :: "u64 option"
  pl_input_mint :: account_info
  pl_output_mint :: account_info
  pl_output_ata_index :: nat
  pl_input_mint_decimals :: u8
  pl_output_mint_decimals :: u8
  pl_created_atas :: u16
  pl_bitmap :: titan_pda_bitmap
  pl_balances :: "u64 list"
  pl_reserved :: "u64 list"

definition prepare_route ::
    "crates \<Rightarrow> runtime \<Rightarrow> swap_route_accounts \<Rightarrow> account_info list \<Rightarrow> u8 \<Rightarrow> swap_spec list \<Rightarrow> world \<Rightarrow>
      (route_plan \<times> world) route_res" where
  "prepare_route E R ctx rem mints swaps w =
     and_then (validate_route rem mints swaps) (\<lambda>_.
     let mints_count = unat mints; pda = ai_key (sa_titan_pda ctx)
     in and_then (read_token_ledger w (sa_token_ledger ctx) (sa_input_token_account ctx))
          (\<lambda>ledger_amount.
        and_then (remaining rem mints_count) (\<lambda>input_mint.
        and_then (index_at swaps (length swaps - 1)) (\<lambda>last_swap.
        let output_ata_index = unat (sp_to last_swap)
        in and_then (remaining rem (mints_count + output_ata_index)) (\<lambda>output_mint.
           and_then (extract_mint_decimals w input_mint) (\<lambda>input_mint_decimals.
           and_then (extract_mint_decimals w output_mint) (\<lambda>output_mint_decimals.
           and_then (create_missing_atas E R ctx rem mints_count [0..<mints_count] 0 w)
             (\<lambda>(created_atas, w).
           and_then (record_balances E w pda mints_count (enumerate 0 rem)
                       (bitmap_new, [], replicate MAX_MINTS 0)) (\<lambda>(bitmap, balances, reserved).
           Ok (\<lparr> pl_ledger_amount = ledger_amount, pl_input_mint = input_mint,
                 pl_output_mint = output_mint, pl_output_ata_index = output_ata_index,
                 pl_input_mint_decimals = input_mint_decimals,
                 pl_output_mint_decimals = output_mint_decimals, pl_created_atas = created_atas,
                 pl_bitmap = bitmap, pl_balances = balances, pl_reserved = reserved \<rparr>, w))))))))))"

definition transfer_route_input ::
    "crates \<Rightarrow> runtime \<Rightarrow> swap_route_accounts \<Rightarrow> account_info list \<Rightarrow> u64 \<Rightarrow> route_plan \<Rightarrow> world \<Rightarrow>
      world route_res" where
  "transfer_route_input E R ctx rem amount plan w =
     and_then (effective_route_amount w (sa_input_token_account ctx) (pl_ledger_amount plan) amount)
       (\<lambda>effective_amount.
     and_then (remaining rem 0) (\<lambda>first_titan_pda_ata.
     let input_token_program = program_for E ctx w (pl_input_mint plan)
     in and_then
          (if pl_ledger_amount plan = None \<and> is_native_mint R (pl_input_mint plan) then
             setup_wsol_input_account E R (sa_payer ctx) (sa_user ctx) (sa_input_token_account ctx)
               (pl_input_mint plan) input_token_program (sa_system_program ctx) effective_amount w
           else Ok (False, w)) (\<lambda>(created_wsol_input, w).
        and_then (transfer_tokens E R input_token_program (sa_input_token_account ctx)
                    first_titan_pda_ata (sa_user ctx) (Some (pl_input_mint plan)) effective_amount
                    (pl_input_mint_decimals plan) None w) (\<lambda>w.
        if created_wsol_input then
          close_token_account R (sa_input_token_account ctx) (sa_payer ctx) (sa_user ctx)
            input_token_program None w
        else Ok w))))"

definition transfer_route_output ::
    "crates \<Rightarrow> runtime \<Rightarrow> swap_route_accounts \<Rightarrow> account_info list \<Rightarrow> seeds \<Rightarrow> route_plan \<Rightarrow> world \<Rightarrow>
      world route_res" where
  "transfer_route_output E R ctx rem signer_seeds plan w =
     and_then (remaining rem (pl_output_ata_index plan)) (\<lambda>titan_pda_output_token_account.
     and_then (extract_token_amount w titan_pda_output_token_account) (\<lambda>raw_output_balance.
     and_then (index_at (pl_reserved plan) (pl_output_ata_index plan)) (\<lambda>reserved_output.
     let user_output = saturating_sub raw_output_balance reserved_output;
         output_token_program = program_for E ctx w (pl_output_mint plan)
     in and_then
          (if \<not> account_exists w (sa_output_token_account ctx) then
             create_user_ata R (sa_payer ctx) (sa_user ctx) (pl_output_mint plan)
               (sa_output_token_account ctx) output_token_program (sa_system_program ctx) w
           else Ok w) (\<lambda>w.
        transfer_tokens E R output_token_program titan_pda_output_token_account
          (sa_output_token_account ctx) (sa_titan_pda ctx) (Some (pl_output_mint plan)) user_output
          (pl_output_mint_decimals plan) (Some signer_seeds) w))))"

definition swap_route_execute ::
    "crates \<Rightarrow> runtime \<Rightarrow> swap_route_accounts \<Rightarrow> account_info list \<Rightarrow> u64 \<Rightarrow> u8 \<Rightarrow> swap_spec list \<Rightarrow>
      world \<Rightarrow> world route_res" where
  "swap_route_execute E R ctx rem amount mints swaps w =
     and_then (prepare_route E R ctx rem mints swaps w) (\<lambda>(plan, w).
     let mints_count = unat mints; pda = ai_key (sa_titan_pda ctx);
         signer_seeds = [[TITAN_PDA_SEED, [tp_bump (sa_titan_pda_state ctx)]]]
     in and_then (transfer_route_input E R ctx rem amount plan w) (\<lambda>w.
        and_then (run_legs E R pda rem (pl_reserved plan) signer_seeds swaps (2 * mints_count) w) (\<lambda>w.
        and_then (transfer_route_output E R ctx rem signer_seeds plan w) (\<lambda>w.
        and_then (close_created_atas E R ctx rem mints_count (pl_created_atas plan) signer_seeds
                    [0..<mints_count] w) (\<lambda>w.
        and_then (check_reserves w (pl_bitmap plan) (pl_balances plan) (enumerate 0 rem) 0) (\<lambda>_.
        Ok w))))))"

text \<open>\<open>initialize\<close> stores the bump Anchor found.\<close>

definition initialize_execute :: "u8 \<Rightarrow> titan_pda_state \<Rightarrow> titan_pda_state" where
  "initialize_execute bump st = st\<lparr> tp_bump := bump \<rparr>"

end
