(* ===== verification/Route_Properties.thy ===== *)
theory Route_Properties
  imports Route_Program
begin

text \<open>
  What holds of the route program whatever the programs it calls do: the balances it guards, what a
  leg spends, the routes it accepts, that it does not panic, and that the call it makes for an
  Overpass leg is the instruction the quoter built. At the end a concrete route.
\<close>

section \<open>The bitmap and the recorded balances\<close>

lemma bitmap_new_is_set [simp]: "\<not> bitmap_is_set bitmap_new i"
  by (auto simp: bitmap_is_set_def bitmap_new_def)

lemma bitmap_set_length [simp]: "length (bitmap_set bits i) = length bits"
  by (simp add: bitmap_set_def)

lemma bitmap_set_is_set [simp]:
  assumes "length bits = 4"
  shows "bitmap_is_set (bitmap_set bits i) j \<longleftrightarrow> j < 256 \<and> (i = j \<or> bitmap_is_set bits j)"
proof -
  have word: "k div 64 < 4" if "k < 256" for k :: nat using that by (simp add: less_mult_imp_div_less)
  have bit_or: "bit (or (x :: u64) (push_bit (i mod 64) 1)) (j mod 64) \<longleftrightarrow>
      bit x (j mod 64) \<or> i mod 64 = j mod 64" for x
    by (auto simp: bit_simps)
  have "i = j \<longleftrightarrow> i div 64 = j div 64 \<and> i mod 64 = j mod 64"
    by (metis div_mult_mod_eq)
  then show ?thesis
    using assms word [of i] word [of j] bit_or [unfolded push_bit_of_1]
    by (auto simp: bitmap_is_set_def bitmap_set_def and_exp_eq_0_iff_not_bit nth_list_update)
qed

text \<open>The accounts whose balances are recorded.\<close>

definition tracked :: "crates \<Rightarrow> world \<Rightarrow> pubkey \<Rightarrow> nat \<Rightarrow> nat \<times> account_info \<Rightarrow> bool" where
  "tracked E w pda mints_count = (\<lambda>(i, account).
     i < mints_count \<or> is_titan_pda_token_account E w account pda)"

definition token_balance :: "world \<Rightarrow> account_info \<Rightarrow> u64" where
  "token_balance w a = (case extract_token_amount w a of Ok x \<Rightarrow> x | _ \<Rightarrow> 0)"

lemma extract_no_panic [no_panic, simp]:
  "extract_token_amount w a \<noteq> Panic" "extract_token_owner w a \<noteq> Panic"
  "extract_mint_decimals w a \<noteq> Panic"
  by (simp_all add: extract_token_amount_def extract_token_owner_def extract_mint_decimals_def)

lemma require_that_simps [simp]:
  "require_that c e = Ok u \<longleftrightarrow> c" "require_that c e \<noteq> Panic" "require_that c e = Err e' \<longleftrightarrow> \<not> c \<and> e = e'"
  by (auto simp: require_that_def)

text \<open>Recording sets the bits of the tracked accounts and lists their balances in order.\<close>

lemma record_balances_spec:
  assumes "record_balances E w pda mints_count xs (bm, bal, res) = Ok (bm', bal', res')"
    and "length bm = 4"
  shows "length bm' = 4 \<and> length res' = length res \<and>
    bal' = bal @ map (token_balance w \<circ> snd) (filter (tracked E w pda mints_count) xs) \<and>
    (\<forall>j < 256. bitmap_is_set bm' j \<longleftrightarrow>
       bitmap_is_set bm j \<or> (\<exists>x \<in> set xs. fst x = j \<and> tracked E w pda mints_count x))"
  using assms
proof (induction xs arbitrary: bm bal res)
  case (Cons x rest)
  obtain i account where x: "x = (i, account)" by force
  show ?case
  proof (cases "tracked E w pda mints_count x")
    case True
    then have "\<exists>res2. length res2 = length res \<and>
      record_balances E w pda mints_count rest
        (bitmap_set bm i, bal @ [token_balance w account], res2) = Ok (bm', bal', res')"
      using Cons.prems(1) by (cases "i < mints_count")
        (auto simp: x tracked_def token_balance_def intro: exI [of _ "res[i := y]" for y])
    then obtain res2 where len: "length res2 = length res" and
      "record_balances E w pda mints_count rest
        (bitmap_set bm i, bal @ [token_balance w account], res2) = Ok (bm', bal', res')" by blast
    from Cons.IH [OF this(2)] Cons.prems(2) len True show ?thesis by (auto simp: x)
  next
    case False
    then have "record_balances E w pda mints_count rest (bm, bal, res) = Ok (bm', bal', res')"
      using Cons.prems(1) by (auto simp: x tracked_def split: if_splits)
    from Cons.IH [OF this Cons.prems(2)] False show ?thesis by (auto simp: x)
  qed
qed simp

text \<open>
  The check walks the accounts with its own index into the balances; the two stay aligned up to
  account 255, and the bitmap has no bit behind it.
\<close>

lemma check_reserves_behind:
  "256 \<le> n \<Longrightarrow> check_reserves w' bm balances (enumerate n xs) k = Ok ()"
  by (induction xs arbitrary: n) (simp_all add: bitmap_is_set_def)

lemma check_reserves_spec:
  assumes "\<And>j. n \<le> j \<Longrightarrow> j < 256 \<Longrightarrow> bitmap_is_set bm j \<longleftrightarrow>
      (\<exists>x \<in> set (enumerate n xs). fst x = j \<and> tracked E w pda mints_count x)"
    and "balances = pre @ map (token_balance w \<circ> snd) (filter (tracked E w pda mints_count) (enumerate n xs))"
  shows "check_reserves w' bm balances (enumerate n xs) (length pre) \<noteq> Panic \<and>
    (check_reserves w' bm balances (enumerate n xs) (length pre) = Ok () \<longrightarrow>
      (\<forall>x \<in> set (enumerate n xs). fst x < 256 \<longrightarrow> tracked E w pda mints_count x \<longrightarrow>
        token_balance w (snd x) \<le> token_balance w' (snd x)))"
  using assms
proof (induction xs arbitrary: n pre)
  case (Cons a xs)
  show ?case
  proof (cases "n < 256")
    case False
    then have "\<forall>x \<in> set (enumerate n (a # xs)). \<not> fst x < 256" by (auto simp: in_set_enumerate_eq)
    then show ?thesis using False check_reserves_behind [of n w' bm balances "a # xs"] by auto
  next
    case True
    have set: "bitmap_is_set bm n \<longleftrightarrow> tracked E w pda mints_count (n, a)"
      using Cons.prems(1) [of n] True by (auto simp: in_set_enumerate_eq)
    have later: "bitmap_is_set bm j \<longleftrightarrow>
        (\<exists>x \<in> set (enumerate (Suc n) xs). fst x = j \<and> tracked E w pda mints_count x)"
      if "Suc n \<le> j" "j < 256" for j
      using Cons.prems(1) [of j] that by auto
    show ?thesis
    proof (cases "tracked E w pda mints_count (n, a)")
      case tr: True
      have bal: "balances = (pre @ [token_balance w a]) @ map (token_balance w \<circ> snd)
          (filter (tracked E w pda mints_count) (enumerate (Suc n) xs))"
        using Cons.prems(2) tr by simp
      then have "index_at balances (length pre) = (Ok (token_balance w a) :: u64 route_res)"
        by (simp add: index_at_def nth_append)
      with Cons.IH [OF later bal] tr set show ?thesis
        by (auto simp: token_balance_def [of w'])
    next
      case False
      then have bal: "balances = pre @ map (token_balance w \<circ> snd)
          (filter (tracked E w pda mints_count) (enumerate (Suc n) xs))"
        using Cons.prems(2) by simp
      with Cons.IH [OF later bal] False set show ?thesis by auto
    qed
  qed
qed simp

section \<open>What a prepared route holds\<close>

lemma validate_route_Ok:
  "validate_route rem mints swaps = Ok u \<longleftrightarrow>
     1 < mints \<and> swaps \<noteq> [] \<and> length swaps \<le> 12 \<and> unat mints \<le> 12 \<and>
     2 * unat mints \<le> length rem \<and> sp_from (hd swaps) = 0 \<and>
     list_all (\<lambda>swap. sp_from swap < mints \<and> sp_to swap < mints) swaps"
proof -
  have "(\<exists>us. map_outcome (\<lambda>swap. require_that (sp_from swap < mints \<and> sp_to swap < mints)
      InvalidSwapInput) swaps = Ok us) \<longleftrightarrow>
      list_all (\<lambda>swap. sp_from swap < mints \<and> sp_to swap < mints) swaps"
    by (induction swaps) auto
  then show ?thesis
    by (cases swaps) (auto simp: validate_route_def MAX_SWAPS_def MAX_MINTS_def index_at_def)
qed

lemma prepare_routeE:
  assumes "prepare_route E R ctx rem mints swaps w0 = Ok (plan, w)"
  obtains "validate_route rem mints swaps = Ok ()" "pl_output_ata_index plan < unat mints"
    "record_balances E w (ai_key (sa_titan_pda ctx)) (unat mints) (enumerate 0 rem)
       (bitmap_new, [], replicate MAX_MINTS 0) = Ok (pl_bitmap plan, pl_balances plan, pl_reserved plan)"
    "length (pl_reserved plan) = 12"
proof -
  from assms obtain last_swap where v: "validate_route rem mints swaps = Ok ()"
    and l: "index_at swaps (length swaps - 1) = (Ok last_swap :: swap_spec route_res)"
    and i: "pl_output_ata_index plan = unat (sp_to last_swap)"
    and r: "record_balances E w (ai_key (sa_titan_pda ctx)) (unat mints) (enumerate 0 rem)
       (bitmap_new, [], replicate MAX_MINTS 0) = Ok (pl_bitmap plan, pl_balances plan, pl_reserved plan)"
    unfolding prepare_route_def Let_def case_prod_unfold by (elim ok_elims) force
  from l have "last_swap \<in> set swaps" by (auto simp: index_at_eq_Ok)
  with v have "sp_to last_swap < mints" by (simp add: validate_route_Ok list_all_iff)
  moreover have "length bitmap_new = 4" by (simp add: bitmap_new_def)
  with record_balances_spec [OF r] have "length (pl_reserved plan) = 12" by (simp add: MAX_MINTS_def)
  ultimately show thesis using that v i r by (simp add: word_less_nat_alt)
qed

text \<open>The recorded bitmap and balances, as the check needs them.\<close>

lemma prepared_tracks:
  assumes "prepare_route E R ctx rem mints swaps w0 = Ok (plan, w)"
  shows "j < 256 \<Longrightarrow> bitmap_is_set (pl_bitmap plan) j \<longleftrightarrow> (\<exists>x \<in> set (enumerate 0 rem).
      fst x = j \<and> tracked E w (ai_key (sa_titan_pda ctx)) (unat mints) x)"
    and "pl_balances plan = [] @ map (token_balance w \<circ> snd)
      (filter (tracked E w (ai_key (sa_titan_pda ctx)) (unat mints)) (enumerate 0 rem))"
proof -
  have new: "length bitmap_new = 4" by (simp add: bitmap_new_def)
  from assms have r: "record_balances E w (ai_key (sa_titan_pda ctx)) (unat mints) (enumerate 0 rem)
       (bitmap_new, [], replicate MAX_MINTS 0) = Ok (pl_bitmap plan, pl_balances plan, pl_reserved plan)"
    by (rule prepare_routeE)
  from record_balances_spec [OF r new]
  show "j < 256 \<Longrightarrow> bitmap_is_set (pl_bitmap plan) j \<longleftrightarrow> (\<exists>x \<in> set (enumerate 0 rem).
      fst x = j \<and> tracked E w (ai_key (sa_titan_pda ctx)) (unat mints) x)"
    "pl_balances plan = [] @ map (token_balance w \<circ> snd)
      (filter (tracked E w (ai_key (sa_titan_pda ctx)) (unat mints)) (enumerate 0 rem))"
    by simp_all
qed

section \<open>Legs\<close>

lemma leg_input_amount_eq:
  "leg_input_amount balance reserve weight = Ok (word_of_nat
     ((unat balance - unat reserve) * min (unat weight) 1000000000 div 1000000000))"
proof -
  define a where "a = unat balance - unat reserve"
  define m where "m = min (unat weight) 1000000000"
  have a: "unat (ucast (saturating_sub balance reserve) :: u128) = a"
    by (simp add: a_def unat_saturating_sub unat_ucast_up)
  have m: "unat (ucast (min weight 1000000000) :: u128) = m"
    by (simp add: m_def unat_ucast_up min_def word_le_nat_alt)
  have "a < 2 ^ 64" unfolding a_def by (rule le_less_trans [OF diff_le_self]) simp
  moreover have "m \<le> 10 ^ 9" by (simp add: m_def)
  ultimately have "a * m < 2 ^ 128"
    by (rule le_less_trans [OF mult_mono [OF less_imp_le], of _ "2 ^ 64" _ "10 ^ 9"]) simp_all
  then have "unat (saturating_mul (ucast (saturating_sub balance reserve)) (ucast (min weight 1000000000)) :: u128)
      = a * m"
    unfolding unat_saturating_mul a m by simp
  then have "unat (saturating_mul (ucast (saturating_sub balance reserve)) (ucast (min weight 1000000000))
      div 1000000000 :: u128) = a * m div 1000000000"
    by (simp add: unat_div)
  then have "(ucast (saturating_mul (ucast (saturating_sub balance reserve))
      (ucast (min weight 1000000000)) div 1000000000 :: u128) :: u64) = word_of_nat (a * m div 1000000000)"
    by (intro word_eq_unatI) (simp add: unsigned_ucast_eq unsigned_of_nat take_bit_eq_mod)
  then show ?thesis
    unfolding a_def [symmetric] m_def [symmetric]
    by (simp add: leg_input_amount_def Let_def plain_div_def)
qed

lemma leg_input_le: "(a :: nat) * min m 1000000000 div 1000000000 \<le> a"
  using div_le_mono [of "a * min m 1000000000" "a * 1000000000" 1000000000] by simp

text \<open>
  C29. A leg never spends what was there before the route: it puts in the floor of its weight in
  billionths of the balance above the reserve, all of it from a weight of a billion on.
\<close>

theorem leg_spends_surplus:
  "\<exists>input. leg_input_amount balance reserve weight = Ok input \<and>
    unat input = (unat balance - unat reserve) * min (unat weight) 1000000000 div 1000000000 \<and>
    unat input \<le> unat balance - unat reserve \<and>
    (1000000000 \<le> weight \<longrightarrow> unat input = unat balance - unat reserve)"
proof -
  define n where "n = (unat balance - unat reserve) * min (unat weight) 1000000000 div 1000000000"
  have "n \<le> unat balance - unat reserve" unfolding n_def by (rule leg_input_le)
  moreover have "unat balance - unat reserve < 2 ^ 64"
    by (rule le_less_trans [OF diff_le_self]) simp
  with \<open>n \<le> unat balance - unat reserve\<close> have "n < 2 ^ 64" by (rule le_less_trans)
  then have "unat (word_of_nat n :: u64) = n" by (simp add: unsigned_of_nat take_bit_eq_mod)
  moreover have "1000000000 \<le> weight \<longrightarrow> n = unat balance - unat reserve"
    by (simp add: n_def word_le_nat_alt min_absorb2)
  moreover have "leg_input_amount balance reserve weight = Ok (word_of_nat n)"
    by (simp add: leg_input_amount_eq n_def)
  ultimately show ?thesis unfolding n_def [symmetric] by metis
qed

section \<open>No panic\<close>

text \<open>The called programs return: an error of theirs ends the transaction, a panic is none of ours.\<close>

definition runtime_returns :: "runtime \<Rightarrow> bool" where
  "runtime_returns R \<longleftrightarrow>
     (\<forall>ix infos w. rt_invoke R ix infos w \<noteq> Panic) \<and>
     (\<forall>ix infos seeds w. rt_invoke_signed R ix infos seeds w \<noteq> Panic) \<and>
     (\<forall>p a. rt_sync_native_ix R p a \<noteq> Panic) \<and>
     (\<forall>p f t a s n w. rt_transfer R p f t a s n w \<noteq> Panic) \<and>
     (\<forall>p f m t a s n d w. rt_transfer_checked R p f m t a s n d w \<noteq> Panic) \<and>
     (\<forall>p a d t s w. rt_close_account R p a d t s w \<noteq> Panic)"

lemma runtime_no_panic:
  assumes "runtime_returns R"
  shows "rt_invoke R ix infos w \<noteq> Panic" "rt_invoke_signed R ix infos seeds w \<noteq> Panic"
    "rt_sync_native_ix R k1 k2 \<noteq> Panic" "rt_transfer R p f t a s n w \<noteq> Panic"
    "rt_transfer_checked R p f m t a s n d w \<noteq> Panic" "rt_close_account R p acc ds t s w \<noteq> Panic"
  using assms by (simp_all add: runtime_returns_def)

lemma calls_no_panic:
  assumes "runtime_returns R"
  shows "transfer_tokens E R tp f t a m n d s w \<noteq> Panic" "create_ata R py ow mt ata tp sp w \<noteq> Panic"
    "close_titan_pda_ata R ata ds pd tp sd w \<noteq> Panic" "close_token_account R ta ds au tp s w \<noteq> Panic"
    "transfer_sol_and_sync R f wa tp n w \<noteq> Panic"
    "setup_wsol_input_account E R py ow wa mt tp sp n w \<noteq> Panic"
    "perform_cpi_swap E R n swap metas infos sd w \<noteq> Panic"
  using runtime_no_panic [OF assms]
  by (simp_all add: transfer_tokens_def create_ata_def close_titan_pda_ata_def
      close_token_account_def transfer_sol_and_sync_def setup_wsol_input_account_def plain_sub_def
      perform_cpi_swap_def raydium_swap_base_in_v2_def route_overpass_swap_def Let_def
      order.strict_implies_order split: venue.split)

lemma create_missing_no_panic:
  "runtime_returns R \<Longrightarrow> create_missing_atas E R ctx rem n is c w \<noteq> Panic"
  by (induction "is" arbitrary: c w)
    (auto simp: create_titan_pda_ata_def dest: calls_no_panic(2))

lemma record_balances_no_panic:
  "mints_count \<le> length res \<Longrightarrow> record_balances E w pda mints_count xs (bm, bal, res) \<noteq> Panic"
  by (induction xs arbitrary: bm bal res) (auto split: if_splits)

lemma run_legs_no_panic:
  assumes "runtime_returns R"
  shows "list_all (\<lambda>swap. unat (sp_from swap) < length reserved) swaps \<Longrightarrow>
    run_legs E R pda rem reserved sd swaps index w \<noteq> Panic"
proof (induction swaps arbitrary: index w)
  case (Cons swap swaps)
  then have IH: "run_legs E R pda rem reserved sd swaps i w \<noteq> Panic" for i w by simp
  have legs: "leg_input_amount b r wt \<noteq> Panic" for b r wt by (simp add: leg_input_amount_eq)
  from Cons.prems show ?case
    unfolding run_legs.simps Let_def
    by (intro no_panic IH legs extract_no_panic)
      (auto simp: calls_no_panic(7) [OF assms])
qed simp

lemma close_created_no_panic:
  "runtime_returns R \<Longrightarrow> close_created_atas E R ctx rem n c sd is w \<noteq> Panic"
  by (induction "is" arbitrary: w) (auto dest: calls_no_panic(3))

lemma index_at_last: "xs \<noteq> [] \<Longrightarrow> index_at xs (length xs - Suc 0) = Ok (last xs)"
  by (simp add: index_at_def last_conv_nth)

lemma validate_no_panic: "validate_route rem mints swaps \<noteq> Panic"
proof -
  have "map_outcome (\<lambda>swap. require_that (sp_from swap < mints \<and> sp_to swap < mints)
      InvalidSwapInput) swaps \<noteq> Panic"
    by (rule map_outcome_no_panic) simp
  then show ?thesis by (auto simp: validate_route_def)
qed

lemma ledger_no_panic: "read_token_ledger w ledger ita \<noteq> Panic"
  by (auto simp: read_token_ledger_def Let_def split: option.splits)

lemma prepare_no_panic:
  assumes "runtime_returns R"
  shows "prepare_route E R ctx rem mints swaps w \<noteq> Panic"
  unfolding prepare_route_def Let_def case_prod_unfold
  by (intro no_panic validate_no_panic ledger_no_panic extract_no_panic
      create_missing_no_panic [OF assms] record_balances_no_panic)
    (simp_all add: validate_route_Ok MAX_MINTS_def index_at_last del: index_at_eq_Panic)

lemma transfer_input_no_panic:
  assumes "runtime_returns R"
  shows "transfer_route_input E R ctx rem amount plan w \<noteq> Panic"
proof -
  have "effective_route_amount w ita la amount \<noteq> Panic" for w ita la
    by (auto simp: effective_route_amount_def split: option.splits)
  then show ?thesis
    unfolding transfer_route_input_def Let_def case_prod_unfold
    by (intro no_panic calls_no_panic [OF assms])
qed

lemma transfer_output_no_panic:
  assumes "runtime_returns R" "pl_output_ata_index plan < length (pl_reserved plan)"
  shows "transfer_route_output E R ctx rem sd plan w \<noteq> Panic"
  unfolding transfer_route_output_def create_user_ata_def Let_def
  by (intro no_panic extract_no_panic calls_no_panic [OF assms(1)]) (use assms(2) in auto)

text \<open>
  C31. The handler never panics, whatever accounts and arguments it is given: if the called programs
  return, it ends with success or an error.
\<close>

theorem route_never_panics:
  assumes "runtime_returns R"
  shows "swap_route_execute E R ctx rem amount mints swaps w0 \<noteq> Panic"
proof (cases "prepare_route E R ctx rem mints swaps w0")
  case (Ok r)
  obtain plan w where "r = (plan, w)" by force
  note prep = Ok [unfolded this]
  obtain v: "validate_route rem mints swaps = Ok ()"
    and out: "pl_output_ata_index plan < unat mints" and res: "length (pl_reserved plan) = 12"
    using prep by (rule prepare_routeE)
  have legs: "list_all (\<lambda>swap. unat (sp_from swap) < length (pl_reserved plan)) swaps"
    using v by (auto simp: validate_route_Ok list_all_iff res word_less_nat_alt)
  have "pl_output_ata_index plan < length (pl_reserved plan)"
    using v out by (simp add: validate_route_Ok res)
  note no_panics = transfer_input_no_panic [OF assms] run_legs_no_panic [OF assms legs]
    transfer_output_no_panic [OF assms this] close_created_no_panic [OF assms]
  have "check_reserves w' (pl_bitmap plan) (pl_balances plan) (enumerate 0 rem) 0 \<noteq> Panic" for w'
    using check_reserves_spec [where n = 0 and pre = "[]", OF prepared_tracks [OF prep]] by simp
  note no_panics = no_panics this
  show ?thesis
    unfolding swap_route_execute_def prep and_then.simps prod.case Let_def
    by (intro no_panic no_panics)
next
  case Panic
  with prepare_no_panic [OF assms] show ?thesis by blast
qed (simp add: swap_route_execute_def)

lemma swap_route_executeE:
  assumes "swap_route_execute E R ctx rem amount mints swaps w0 = Ok w'"
  obtains plan w1 w2 w3 w4 sd where
    "prepare_route E R ctx rem mints swaps w0 = Ok (plan, w1)"
    "transfer_route_input E R ctx rem amount plan w1 = Ok w2"
    "run_legs E R (ai_key (sa_titan_pda ctx)) rem (pl_reserved plan) sd swaps (2 * unat mints) w2
      = Ok w3"
    "transfer_route_output E R ctx rem sd plan w3 = Ok w4"
    "close_created_atas E R ctx rem (unat mints) (pl_created_atas plan) sd [0..<unat mints] w4 = Ok w'"
    "check_reserves w' (pl_bitmap plan) (pl_balances plan) (enumerate 0 rem) 0 = Ok ()"
proof -
  from assms obtain plan w1 where prep: "prepare_route E R ctx rem mints swaps w0 = Ok (plan, w1)"
    unfolding swap_route_execute_def by (elim and_thenE) force
  from assms [unfolded swap_route_execute_def prep and_then.simps prod.case Let_def] show thesis
    by (elim ok_elims) (rule that [OF prep]; (assumption | simp))
qed

text \<open>
  C9. Whatever the venues do with the accounts they are given, a route that succeeds leaves every
  token account of the authority among its accounts with at least the balance it had before any
  token was moved: those of the route's mints and every other one it was passed (up to index 255,
  more than a transaction can have).
\<close>

theorem route_keeps_reserves:
  assumes "swap_route_execute E R ctx rem amount mints swaps w0 = Ok w'"
  shows "\<exists>plan w. prepare_route E R ctx rem mints swaps w0 = Ok (plan, w) \<and>
    (\<forall>i < min 256 (length rem).
       i < unat mints \<or> is_titan_pda_token_account E w (rem ! i) (ai_key (sa_titan_pda ctx)) \<longrightarrow>
       token_balance w (rem ! i) \<le> token_balance w' (rem ! i))"
proof -
  from assms obtain plan w where prep: "prepare_route E R ctx rem mints swaps w0 = Ok (plan, w)"
    and check: "check_reserves w' (pl_bitmap plan) (pl_balances plan) (enumerate 0 rem) 0 = Ok ()"
    by (rule swap_route_executeE)
  from check_reserves_spec [where n = 0 and pre = "[]", OF prepared_tracks [OF prep], of w'] check
  have "\<forall>x \<in> set (enumerate 0 rem). fst x < 256 \<longrightarrow>
      tracked E w (ai_key (sa_titan_pda ctx)) (unat mints) x \<longrightarrow>
      token_balance w (snd x) \<le> token_balance w' (snd x)"
    by simp
  then have "token_balance w (rem ! i) \<le> token_balance w' (rem ! i)"
    if "i < length rem" "i < 256" "tracked E w (ai_key (sa_titan_pda ctx)) (unat mints) (i, rem ! i)" for i
    using that by (force simp: in_set_enumerate_eq)
  then show ?thesis using prep by (auto simp: tracked_def)
qed

text \<open>
  C30. A route that succeeds was well formed: two to twelve mints with their accounts, one to twelve
  legs between these mints, the first from the first mint, and for every leg a window of at least
  one account behind them, the windows lying one after the other within the remaining accounts.
\<close>

theorem accepted_route_well_formed:
  assumes "swap_route_execute E R ctx rem amount mints swaps w0 = Ok w'"
  shows "2 \<le> unat mints \<and> unat mints \<le> 12 \<and> swaps \<noteq> [] \<and> length swaps \<le> 12 \<and>
    sp_from (hd swaps) = 0 \<and>
    list_all (\<lambda>swap. sp_from swap < mints \<and> sp_to swap < mints \<and> 0 < sp_n_accounts swap) swaps \<and>
    2 * unat mints + sum_list (map (unat \<circ> sp_n_accounts) swaps) \<le> length rem"
proof -
  have legs: "list_all (\<lambda>swap. 0 < sp_n_accounts swap) swaps \<and>
      (swaps \<noteq> [] \<longrightarrow> index + sum_list (map (unat \<circ> sp_n_accounts) swaps) \<le> length rem)"
    if "run_legs E R pda rem reserved sd swaps index w = Ok w'" for pda reserved sd swaps index w w'
    using that
  proof (induction swaps arbitrary: index w)
    case (Cons swap swaps)
    from Cons.prems obtain w1 where "0 < unat (sp_n_accounts swap)"
      "index + unat (sp_n_accounts swap) \<le> length rem"
      "run_legs E R pda rem reserved sd swaps (index + unat (sp_n_accounts swap)) w1 = Ok w'"
      unfolding run_legs.simps Let_def by (elim ok_elims) (rule that; simp)
    with Cons.IH [OF this(3)] show ?case by (cases "swaps = []") (simp_all add: word_less_nat_alt)
  qed simp
  from assms obtain plan w w1 w2 sd where
    prep: "prepare_route E R ctx rem mints swaps w0 = Ok (plan, w)"
    and run: "run_legs E R (ai_key (sa_titan_pda ctx)) rem (pl_reserved plan) sd swaps
      (2 * unat mints) w1 = Ok w2"
    by (rule swap_route_executeE)
  from prep have "validate_route rem mints swaps = Ok ()" by (rule prepare_routeE)
  with legs [OF run] show ?thesis
    by (auto simp: validate_route_Ok list_all_iff word_less_nat_alt)
qed

text \<open>
  C28. On chain a leg of an Overpass venue makes exactly the call the quoter built: with the accounts
  of the leg as the transaction passes them and the amount of the request, the program invoked, its
  data and every account with its flags are those of the venue's own swap instruction for the route
  authority (which signs for nothing else in it).
\<close>

theorem route_call_is_venue_instruction:
  assumes "build_swap_leg (overpass_trading_venue E v) rq pda f t wt = Ok (spec, accounts)"
    and "overpass_generate_swap_instruction E v rq pda = Ok ix"
    and "map (\<lambda>a. \<lparr> am_pubkey = ai_key a, am_is_signer = ai_is_signer a,
      am_is_writable = ai_is_writable a \<rparr>) infos = accounts"
    and "pda \<notin> am_pubkey ` set (tl (ix_accounts ix))"
  shows "perform_cpi_swap E R (rq_amount rq) spec (leg_metas pda (butlast infos)) infos sd w =
    rt_invoke_signed R ix infos sd w"
  using assms(1)
proof (rule overpass_leg_spec)
  fix ix' wv src dir
  assume gen: "overpass_generate_swap_instruction E v rq pda = Ok ix'"
    and acc: "accounts = assemble_leg_accounts ix' pda (overpass_program_id E)"
    and sw: "is_swap_ix (OVERPASS_PROGRAM_ID E) (entry_discriminator (source_protocol src) dir) pda
      (rq_amount rq) 0 ix'"
    and sel: "sp_venue spec = Venue_Overpass (entry_discriminator (source_protocol src) dir)"
  from gen assms(2) have ix': "ix' = ix" by simp
  from sw obtain rest where rest: "ix_accounts ix = meta_new pda True # rest"
      "list_all (\<lambda>meta. \<not> am_is_signer meta) rest"
    and ix: "ix_program_id ix = OVERPASS_PROGRAM_ID E"
      "ix_data ix = entry_discriminator (source_protocol src) dir
        @ to_le_bytes 8 (rq_amount rq) @ to_le_bytes 8 (0 :: u64)"
    by (auto simp: is_swap_ix_def ix')
  define metas where "metas = map (\<lambda>a. \<lparr> am_pubkey = ai_key a, am_is_signer = ai_is_signer a,
      am_is_writable = ai_is_writable a \<rparr>) (butlast infos)"
  have "metas = butlast accounts" by (simp add: metas_def map_butlast assms(3) [symmetric])
  also have "\<dots> = meta_new pda False # rest"
    using assms(4) rest
    by (auto simp: acc ix' assemble_leg_accounts_def image_iff intro!: map_idI)
  finally have metas: "metas = meta_new pda False # rest" .
  have "leg_metas pda (butlast infos) =
      map (\<lambda>m. m\<lparr> am_is_signer := am_pubkey m = pda \<or> am_is_signer m \<rparr>) metas"
    by (simp add: leg_metas_def metas_def)
  also have "\<dots> = ix_accounts ix"
    using assms(4) rest by (auto simp: metas list_all_iff image_iff intro!: map_idI)
  finally have "leg_metas pda (butlast infos) = ix_accounts ix" .
  then have "\<lparr> ix_program_id = ROUTE_OVERPASS_PROGRAM_ID E, ix_accounts = leg_metas pda (butlast infos),
      ix_data = entry_discriminator (source_protocol src) dir
        @ to_le_bytes 8 (rq_amount rq) @ to_le_bytes 8 (0 :: u64) \<rparr> = ix"
    using ix by (cases ix) (simp add: ROUTE_OVERPASS_PROGRAM_ID_def OVERPASS_PROGRAM_ID_def)
  then show ?thesis
    by (cases "rt_invoke_signed R ix infos sd w") (simp_all add: perform_cpi_swap_def sel route_overpass_swap_def)
qed

section \<open>A concrete route\<close>

text \<open>Programs that accept every call and change nothing.\<close>

definition still_runtime :: runtime where
  "still_runtime = \<lparr> rt_native_mint = replicate 32 4,
     rt_create_ata_ix = (\<lambda>p ow m t. \<lparr> ix_program_id = t, ix_accounts = [], ix_data = [] \<rparr>),
     rt_system_transfer_ix = (\<lambda>f t n. \<lparr> ix_program_id = f, ix_accounts = [], ix_data = [] \<rparr>),
     rt_sync_native_ix = (\<lambda>p a. Ok \<lparr> ix_program_id = p, ix_accounts = [], ix_data = [] \<rparr>),
     rt_invoke = (\<lambda>ix infos w. Ok w), rt_invoke_signed = (\<lambda>ix infos sd w. Ok w),
     rt_transfer = (\<lambda>p f t a s n w. Ok w), rt_transfer_checked = (\<lambda>p f m t a s n d w. Ok w),
     rt_close_account = (\<lambda>p acc ds a s w. Ok w) \<rparr>"

lemma still_runtime_returns: "runtime_returns still_runtime"
  by (simp add: runtime_returns_def still_runtime_def)

text \<open>Every account is a token account of the authority (the zero key) with 5 tokens.\<close>

definition world_sample :: world where
  "world_sample = (\<lambda>k. \<lparr> ca_lamports = 1,
     ca_data = replicate 64 0 @ to_le_bytes 8 (5 :: u64) @ replicate 93 0,
     ca_owner = spl_token_id std_crates \<rparr>)"

definition info_sample :: "u8 \<Rightarrow> account_info" where
  "info_sample n = \<lparr> ai_key = replicate 32 n, ai_is_signer = False, ai_is_writable = True \<rparr>"

definition route_accounts_sample :: swap_route_accounts where
  "route_accounts_sample = \<lparr> sa_payer = info_sample 1, sa_user = info_sample 1,
     sa_titan_pda = info_sample 0, sa_titan_pda_state = \<lparr> tp_bump = 255 \<rparr>,
     sa_input_token_account = info_sample 2, sa_output_token_account = info_sample 3,
     sa_token_program = info_sample 10, sa_token_2022_program = info_sample 11,
     sa_system_program = info_sample 12, sa_associated_token_program = info_sample 13,
     sa_token_ledger = None, sa_reserved_optional_account_0 = None,
     sa_reserved_optional_account_1 = None \<rparr>"

definition remaining_sample :: "account_info list" where
  "remaining_sample = map info_sample [20, 21, 22, 23, 24]"

definition route_sample :: "swap_spec list" where
  "route_sample = [leg_sample\<lparr> sp_n_accounts := 1 \<rparr>]"

lemma world_sample_readers:
  "extract_token_amount world_sample a = Ok 5" "account_exists world_sample a"
  "is_titan_pda_token_account std_crates world_sample a (replicate 32 0)"
  "extract_mint_decimals world_sample a = Ok 0"
proof -
  show "extract_token_amount world_sample a = Ok 5"
    by (simp add: extract_token_amount_def world_sample_def get_slice_def try_array_def from_to_le_bytes)
  show "account_exists world_sample a" "extract_mint_decimals world_sample a = Ok 0"
    by (simp_all add: account_exists_def extract_mint_decimals_def world_sample_def get_at_def nth_append)
  show "is_titan_pda_token_account std_crates world_sample a (replicate 32 0)"
    by (simp add: is_titan_pda_token_account_def world_sample_def extract_token_owner_def
        get_slice_def try_array_def)
qed

lemma route_sample_runs:
  "swap_route_execute std_crates still_runtime route_accounts_sample remaining_sample 0 2
    route_sample world_sample = Ok world_sample"
  by (simp add: swap_route_execute_def prepare_route_def validate_route_def require_that_def
      route_sample_def leg_sample_def index_at_def MAX_SWAPS_def MAX_MINTS_def remaining_sample_def
      read_token_ledger_def route_accounts_sample_def get_at_def world_sample_readers upt_rec
      info_sample_def transfer_route_input_def effective_route_amount_def is_native_mint_def
      transfer_tokens_def still_runtime_def leg_input_amount_eq transfer_route_output_def
      saturating_sub_def bitmap_is_set_def bitmap_set_def bitmap_new_def Let_def)

lemma route_keeps_reserves_witness:
  "\<exists>plan w. prepare_route std_crates still_runtime route_accounts_sample remaining_sample 2
      route_sample world_sample = Ok (plan, w) \<and>
    token_balance w (remaining_sample ! 1) \<le> token_balance world_sample (remaining_sample ! 1)"
proof -
  from route_keeps_reserves [OF route_sample_runs] obtain plan w where
    "prepare_route std_crates still_runtime route_accounts_sample remaining_sample 2
      route_sample world_sample = Ok (plan, w)"
    "\<forall>i < min 256 (length remaining_sample). i < unat (2 :: u8) \<or>
      is_titan_pda_token_account std_crates w (remaining_sample ! i)
        (ai_key (sa_titan_pda route_accounts_sample)) \<longrightarrow>
      token_balance w (remaining_sample ! i) \<le> token_balance world_sample (remaining_sample ! i)"
    by blast
  moreover have "1 < min 256 (length remaining_sample)" by (simp add: remaining_sample_def)
  ultimately show ?thesis by force
qed

lemma accepted_route_well_formed_witness:
  "length route_sample \<le> 12 \<and> list_all (\<lambda>swap. 0 < sp_n_accounts swap) route_sample"
  using accepted_route_well_formed [OF route_sample_runs] by (simp add: list_all_iff)

lemma route_never_panics_witness:
  "swap_route_execute std_crates still_runtime route_accounts_sample [] 7 2 route_sample
    world_sample \<noteq> Panic"
  by (rule route_never_panics [OF still_runtime_returns])

lemma leg_spends_surplus_witness: "\<exists>input. leg_input_amount 105 5 250000000 = Ok input \<and> unat input = 25"
  using leg_spends_surplus [of 105 5 250000000] by auto

text \<open>Program addresses that collide with no other key of the sample venue.\<close>

definition far_crates :: crates where
  "far_crates = std_crates\<lparr> find_program_address := \<lambda>seeds p. Some (replicate 32 99) \<rparr>"

lemma route_call_is_venue_instruction_witness:
  "\<exists>ix spec accounts. build_swap_leg (overpass_trading_venue far_crates save_venue)
      (deposit_request 1000) (replicate 32 7) 0 1 ROUTE_WEIGHT_ALL = Ok (spec, accounts) \<and>
    ix_program_id ix = OVERPASS_PROGRAM_ID far_crates \<and>
    (\<exists>infos. perform_cpi_swap far_crates still_runtime 1000 spec
      (leg_metas (replicate 32 7) (butlast infos)) infos [] world_sample
        = rt_invoke_signed still_runtime ix infos [] world_sample)"
proof -
  let ?pda = "replicate 32 7 :: pubkey"
  have gen: "\<exists>ix. overpass_generate_swap_instruction far_crates save_venue (deposit_request 1000) user
      = Ok ix \<and> list_all (\<lambda>m. hd (am_pubkey m) \<noteq> 7) (tl (ix_accounts ix)) \<and> 8 \<le> length (ix_data ix)" for user
    by (simp add: overpass_generate_swap_instruction_def save_venue_def new_venue_def
        deposit_request_def detect_def save_build_deposit_ix_def save_build_deposit_def
        save_build_base_def global_config_pda_def find_pda_def derive_ata_def far_crates_def std_ops
        Let_def vault_sample_def save_sample_def save_state_default_def SPL_TOKEN_PROGRAM_ID_def
        ATA_PROGRAM_ID_def SYSTEM_PROGRAM_ID_def SAVE_PROGRAM_ID_def)
  obtain ix where ix: "overpass_generate_swap_instruction far_crates save_venue (deposit_request 1000)
      ?pda = Ok ix" "list_all (\<lambda>m. hd (am_pubkey m) \<noteq> 7) (tl (ix_accounts ix))"
    using gen by blast
  obtain ix' where ix': "overpass_generate_swap_instruction far_crates save_venue
      (deposit_request 1000) pubkey_default = Ok ix'" "8 \<le> length (ix_data ix')"
    using gen by blast
  have "\<exists>spec accounts. build_swap_leg (overpass_trading_venue far_crates save_venue)
      (deposit_request 1000) ?pda 0 1 ROUTE_WEIGHT_ALL = Ok (spec, accounts)"
    using ix(1) ix' by (simp add: build_swap_leg_def protocol_to_venue_def overpass_trading_venue_def
        overpass_protocol_def get_slice_def try_array_def Let_def)
  then obtain spec accounts where leg: "build_swap_leg (overpass_trading_venue far_crates save_venue)
      (deposit_request 1000) ?pda 0 1 ROUTE_WEIGHT_ALL = Ok (spec, accounts)" by blast
  define infos where "infos = map (\<lambda>m. \<lparr> ai_key = am_pubkey m, ai_is_signer = am_is_signer m,
      ai_is_writable = am_is_writable m \<rparr>) accounts"
  have infos: "map (\<lambda>a. \<lparr> am_pubkey = ai_key a, am_is_signer = ai_is_signer a,
      am_is_writable = ai_is_writable a \<rparr>) infos = accounts"
    by (simp add: infos_def map_idI)
  have "hd ?pda = 7" by simp
  with ix(2) have "?pda \<notin> am_pubkey ` set (tl (ix_accounts ix))" by (force simp: list_all_iff)
  note call = route_call_is_venue_instruction [OF leg ix(1) infos this, of still_runtime "[]" world_sample]
  have "ix_program_id ix = OVERPASS_PROGRAM_ID far_crates"
    using swap_ix_shape [OF ix(1)] by (auto simp: is_swap_ix_def)
  with leg call show ?thesis by (auto simp: deposit_request_def)
qed

end
