(* ===== verification/Raydium_Properties.thy ===== *)
theory Raydium_Properties
  imports Raydium Route_Properties
begin

text \<open>
  What holds of a Raydium example venue: its quotes are the constant-product curve, on every branch;
  the curve keeps the product of the reserves, and its output and price move the right way; what an
  update stores and leaves behind on a failure; the venues that can arise; the swap instruction,
  its route leg and the call the route program makes from it.
\<close>

section \<open>Quotes\<close>

text \<open>The reserves of a venue on the two sides of a swap, as numbers.\<close>

abbreviation reserve_in :: "calculate_result \<Rightarrow> swap_direction \<Rightarrow> nat" where
  "reserve_in cr dir \<equiv>
     unat (in_reserve dir (cr_pool_pc_vault_amount cr) (cr_pool_coin_vault_amount cr))"

abbreviation reserve_out :: "calculate_result \<Rightarrow> swap_direction \<Rightarrow> nat" where
  "reserve_out cr dir \<equiv>
     unat (out_reserve dir (cr_pool_pc_vault_amount cr) (cr_pool_coin_vault_amount cr))"

abbreviation fee_num :: "calculate_result \<Rightarrow> nat" where
  "fee_num cr \<equiv> unat (cr_swap_fee_numerator cr)"

abbreviation fee_den :: "calculate_result \<Rightarrow> nat" where
  "fee_den cr \<equiv> unat (cr_swap_fee_denominator cr)"

text \<open>The overflow guard of a quote: the vault of the input must be able to take the amount.\<close>

definition vault_overflows :: "raydium_venue \<Rightarrow> swap_direction \<Rightarrow> u64 \<Rightarrow> bool" where
  "vault_overflows v dir amount \<longleftrightarrow>
     2 ^ 64 \<le> unat (in_reserve dir (rv_pc_balance v) (rv_coin_balance v)) + unat amount"

lemma and_then_if: "and_then (if b then m else n) k = (if b then and_then m k else and_then n k)"
  by simp

text \<open>The quote of a positive amount, by the direction of the request.\<close>

lemma quote_positive_eq:
  assumes "rv_calculate_result v = Some cr" "raydium_direction v rq = Ok dir" "rq_amount rq \<noteq> 0"
  shows "raydium_quote R v rq =
    (if vault_overflows v dir (rq_amount rq) then Err (math_err ''Amount exceeds possible threshold'')
     else and_then (swap_exact_amount R (cr_pool_pc_vault_amount cr) (cr_pool_coin_vault_amount cr)
         (cr_swap_fee_numerator cr) (cr_swap_fee_denominator cr) dir (rq_amount rq)
         (rq_swap_type rq = ExactIn)) (\<lambda>a.
       and_then (if rq_swap_type rq = ExactIn then Ok a else max_amount_with_slippage a 0) (\<lambda>a.
       if reserve_out cr dir \<le> unat a then Err (math_err ''Output amounds exceed tolerance'')
       else Ok \<lparr> qr_input_mint = rq_input_mint rq, qr_output_mint = rq_output_mint rq,
              qr_amount = rq_amount rq, qr_expected_output = a, qr_not_enough_liquidity = False,
              qr_price = amm_price cr dir (rq_amount rq) \<rparr>)))"
proof -
  let ?swap = "swap_exact_amount R (cr_pool_pc_vault_amount cr) (cr_pool_coin_vault_amount cr)
    (cr_swap_fee_numerator cr) (cr_swap_fee_denominator cr) dir (rq_amount rq)
    (rq_swap_type rq = ExactIn)"
  have "swap_with_slippage R (rv_pc_balance v) (rv_coin_balance v) (cr_pool_pc_vault_amount cr)
      (cr_pool_coin_vault_amount cr) (cr_swap_fee_numerator cr) (cr_swap_fee_denominator cr) dir
      (rq_amount rq) (rq_swap_type rq = ExactIn) 0 =
    (if vault_overflows v dir (rq_amount rq) then Err (math_err ''Amount exceeds possible threshold'')
     else and_then ?swap (\<lambda>a.
       and_then (if rq_swap_type rq = ExactIn then Ok a else max_amount_with_slippage a 0) (\<lambda>a.
       if reserve_out cr dir \<le> unat a then Err (math_err ''Output amounds exceed tolerance'')
       else Ok a)))"
    by (cases dir; cases "rq_swap_type rq = ExactIn")
      (simp_all add: swap_with_slippage_def vault_overflows_def checked_add_None word_le_nat_alt)
  then show ?thesis
    unfolding raydium_quote_def assms(1,2) ok_or.simps and_then.simps if_not_P [OF assms(3)]
    by (simp only: and_then_assoc and_then_if and_then.simps)
qed

lemma raydium_quote_calc:
  "raydium_quote R v rq = Ok q \<Longrightarrow> \<exists>cr dir. rv_calculate_result v = Some cr \<and> raydium_direction v rq = Ok dir"
  "raydium_quote R v rq = Panic \<Longrightarrow> \<exists>cr dir. rv_calculate_result v = Some cr \<and> raydium_direction v rq = Ok dir"
proof -
  have "raydium_direction v rq \<noteq> Panic" by (simp add: raydium_direction_def)
  then show "raydium_quote R v rq = Ok q \<Longrightarrow> \<exists>cr dir. rv_calculate_result v = Some cr \<and> raydium_direction v rq = Ok dir"
    "raydium_quote R v rq = Panic \<Longrightarrow> \<exists>cr dir. rv_calculate_result v = Some cr \<and> raydium_direction v rq = Ok dir"
    unfolding raydium_quote_def
    by (cases "rv_calculate_result v"; cases "raydium_direction v rq"; simp)+
qed

lemma quote_zero_eq:
  assumes "rv_calculate_result v = Some cr" "raydium_direction v rq = Ok dir" "rq_amount rq = 0"
  shows "raydium_quote R v rq = Ok \<lparr> qr_input_mint = rq_input_mint rq,
    qr_output_mint = rq_output_mint rq, qr_amount = 0, qr_expected_output = 0,
    qr_not_enough_liquidity = False, qr_price = amm_price cr dir 0 \<rparr>"
  using assms by (simp add: raydium_quote_def)

context amm_laws
begin

text \<open>A successful exact-in quote of a positive amount, taken apart.\<close>

lemma exact_in_quoteE:
  assumes "raydium_quote R v rq = Ok q" "rq_swap_type rq = ExactIn" "rq_amount rq \<noteq> 0"
  obtains cr dir where "rv_calculate_result v = Some cr" "raydium_direction v rq = Ok dir"
    "exact_in_spec (reserve_in cr dir) (reserve_out cr dir) (fee_num cr) (fee_den cr)
      (unat (rq_amount rq)) = Ok (unat (qr_expected_output q))"
    "unat (qr_expected_output q) < reserve_out cr dir"
    "q = \<lparr> qr_input_mint = rq_input_mint rq, qr_output_mint = rq_output_mint rq,
      qr_amount = rq_amount rq, qr_expected_output = qr_expected_output q,
      qr_not_enough_liquidity = False, qr_price = amm_price cr dir (rq_amount rq) \<rparr>"
proof -
  obtain cr dir where v: "rv_calculate_result v = Some cr" "raydium_direction v rq = Ok dir"
    using raydium_quote_calc(1) [OF assms(1)] by blast
  from assms(1,2) have "swap_exact_amount R (cr_pool_pc_vault_amount cr) (cr_pool_coin_vault_amount cr)
      (cr_swap_fee_numerator cr) (cr_swap_fee_denominator cr) dir (rq_amount rq) True
      = Ok (qr_expected_output q)"
    and "unat (qr_expected_output q) < reserve_out cr dir"
    and "q = \<lparr> qr_input_mint = rq_input_mint rq, qr_output_mint = rq_output_mint rq,
      qr_amount = rq_amount rq, qr_expected_output = qr_expected_output q,
      qr_not_enough_liquidity = False, qr_price = amm_price cr dir (rq_amount rq) \<rparr>"
    by (auto simp: quote_positive_eq [OF v assms(3)] split: if_splits)
  with v that exact_in_OkE show thesis by blast
qed

text \<open>When an exact-in quote panics.\<close>

lemma exact_in_quote_Panic_iff:
  assumes "rq_swap_type rq = ExactIn"
  shows "raydium_quote R v rq = Panic \<longleftrightarrow> (\<exists>cr dir.
    rv_calculate_result v = Some cr \<and> raydium_direction v rq = Ok dir \<and> rq_amount rq \<noteq> 0 \<and>
    \<not> vault_overflows v dir (rq_amount rq) \<and> reserve_in cr dir = 0 \<and> fee_den cr \<noteq> 0 \<and>
    curve_fee (fee_num cr) (fee_den cr) (unat (rq_amount rq)) = unat (rq_amount rq))"
proof (cases "\<exists>cr dir. rv_calculate_result v = Some cr \<and> raydium_direction v rq = Ok dir")
  case False
  with raydium_quote_calc(2) show ?thesis by blast
next
  case True
  then obtain cr dir where v: "rv_calculate_result v = Some cr" "raydium_direction v rq = Ok dir"
    by blast
  show ?thesis
  proof (cases "rq_amount rq = 0")
    case True
    with quote_zero_eq [OF v] show ?thesis by simp
  next
    case False
    have "exact_in_spec x y num den n = Panic \<longleftrightarrow> x = 0 \<and> den \<noteq> 0 \<and> curve_fee num den n = n"
      if "n \<noteq> 0" for x y num den n
      using that by (auto simp: exact_in_spec_def Let_def)
    moreover have "unat (rq_amount rq) \<noteq> 0" using False by (simp add: unat_eq_zero)
    ultimately show ?thesis
      using False v by (auto simp: quote_positive_eq [OF v False] assms exact_in_eq)
  qed
qed

lemma exact_out_quote_panics:
  assumes "rv_calculate_result v = Some cr" "raydium_direction v rq = Ok dir"
    "rq_swap_type rq = ExactOut" "rq_amount rq \<noteq> 0" "reserve_out cr dir \<le> unat (rq_amount rq)"
    "\<not> vault_overflows v dir (rq_amount rq)"
  shows "raydium_quote R v rq = Panic"
  using assms exact_out_panics [of dir "cr_pool_pc_vault_amount cr" "cr_pool_coin_vault_amount cr"
      "rq_amount rq" "cr_swap_fee_numerator cr" "cr_swap_fee_denominator cr"]
  by (simp add: quote_positive_eq word_le_nat_alt)

end

text \<open>The direction depends on the mints only.\<close>

lemma raydium_direction_cong:
  "rq_input_mint rq = rq_input_mint rq' \<Longrightarrow> rq_output_mint rq = rq_output_mint rq' \<Longrightarrow>
   raydium_direction v rq = raydium_direction v rq'"
  by (simp add: raydium_direction_def)

text \<open>
  C10. A successful exact-in quote of a positive amount is the constant-product formula: the fee is
  the fraction of the input rounded up, at least one atom and at most the input; the rest of the
  input buys the floor of its part of the output reserve, which is below the whole reserve.
\<close>

theorem raydium_exact_in_quote:
  assumes "amm_laws R" "raydium_quote R v rq = Ok q" "rq_swap_type rq = ExactIn" "rq_amount rq \<noteq> 0"
  shows "\<exists>cr dir fee. rv_calculate_result v = Some cr \<and> raydium_direction v rq = Ok dir \<and>
    fee = ceil_quot (unat (rq_amount rq) * fee_num cr) (fee_den cr) \<and>
    0 < fee \<and> fee \<le> unat (rq_amount rq) \<and>
    unat (qr_expected_output q) = reserve_out cr dir * (unat (rq_amount rq) - fee)
      div (reserve_in cr dir + (unat (rq_amount rq) - fee)) \<and>
    unat (qr_expected_output q) < reserve_out cr dir \<and>
    qr_amount q = rq_amount rq \<and> \<not> qr_not_enough_liquidity q"
proof -
  obtain cr dir where v: "rv_calculate_result v = Some cr" "raydium_direction v rq = Ok dir"
    and spec: "exact_in_spec (reserve_in cr dir) (reserve_out cr dir) (fee_num cr) (fee_den cr)
      (unat (rq_amount rq)) = Ok (unat (qr_expected_output q))"
    and rest: "unat (qr_expected_output q) < reserve_out cr dir"
    and q: "q = \<lparr> qr_input_mint = rq_input_mint rq, qr_output_mint = rq_output_mint rq,
      qr_amount = rq_amount rq, qr_expected_output = qr_expected_output q,
      qr_not_enough_liquidity = False, qr_price = amm_price cr dir (rq_amount rq) \<rparr>"
    using assms(2-4) by (rule amm_laws.exact_in_quoteE [OF assms(1)])
  note ok = exact_in_spec_Ok [OF spec]
  have "curve_fee (fee_num cr) (fee_den cr) (unat (rq_amount rq)) =
      ceil_quot (unat (rq_amount rq) * fee_num cr) (fee_den cr)"
    using ok by (intro curve_fee_pos) auto
  moreover from q have "qr_amount q = rq_amount rq" "\<not> qr_not_enough_liquidity q"
    by (metis quote_result.select_convs)+
  ultimately show ?thesis using v ok rest unfolding curve_out_def by auto
qed

text \<open>
  C11. The curve never loses value: after an exact-in swap at its quoted output the product of the
  two reserves is at least what it was.
\<close>

theorem raydium_product_never_falls:
  assumes "amm_laws R" "raydium_quote R v rq = Ok q" "rq_swap_type rq = ExactIn"
    and "rv_calculate_result v = Some cr" "raydium_direction v rq = Ok dir"
  shows "reserve_in cr dir * reserve_out cr dir \<le>
    (reserve_in cr dir + unat (rq_amount rq)) * (reserve_out cr dir - unat (qr_expected_output q))"
proof (cases "rq_amount rq = 0")
  case True
  with assms quote_zero_eq [OF assms(4,5) True, of R] show ?thesis by auto
next
  case False
  from assms(2,3) False obtain cr' dir' where "rv_calculate_result v = Some cr'"
      "raydium_direction v rq = Ok dir'"
    and spec: "exact_in_spec (reserve_in cr' dir') (reserve_out cr' dir') (fee_num cr') (fee_den cr')
      (unat (rq_amount rq)) = Ok (unat (qr_expected_output q))"
    by (rule amm_laws.exact_in_quoteE [OF assms(1)])
  then have "cr' = cr" "dir' = dir" using assms(4,5) by simp_all
  with exact_in_spec_Ok(5) [OF spec] show ?thesis by (simp add: curve_product)
qed

text \<open>
  C16. The output is monotonic, as the contract of \<open>quote\<close> asks: between the same mints on the same
  venue a larger exact-in amount is never quoted less.
\<close>

theorem raydium_output_monotone:
  assumes "amm_laws R" "raydium_quote R v rq = Ok q" "raydium_quote R v rq' = Ok q'"
    and "rq_swap_type rq = ExactIn" "rq_swap_type rq' = ExactIn"
    and "rq_input_mint rq = rq_input_mint rq'" "rq_output_mint rq = rq_output_mint rq'"
    and "rq_amount rq \<le> rq_amount rq'"
  shows "qr_expected_output q \<le> qr_expected_output q'"
proof (cases "rq_amount rq = 0")
  case True
  from raydium_quote_calc(1) [OF assms(2)] obtain cr dir where
    "rv_calculate_result v = Some cr" "raydium_direction v rq = Ok dir" by blast
  from quote_zero_eq [OF this True, of R] assms(2) have "qr_expected_output q = 0" by auto
  then show ?thesis by simp
next
  case False
  then have "rq_amount rq' \<noteq> 0" using assms(8) by auto
  with assms(3,5) obtain cr' dir' where v': "rv_calculate_result v = Some cr'"
      "raydium_direction v rq' = Ok dir'"
    and spec': "exact_in_spec (reserve_in cr' dir') (reserve_out cr' dir') (fee_num cr') (fee_den cr')
      (unat (rq_amount rq')) = Ok (unat (qr_expected_output q'))"
    by (rule amm_laws.exact_in_quoteE [OF assms(1)])
  from assms(2,4) False obtain cr dir where v: "rv_calculate_result v = Some cr"
      "raydium_direction v rq = Ok dir"
    and spec: "exact_in_spec (reserve_in cr dir) (reserve_out cr dir) (fee_num cr) (fee_den cr)
      (unat (rq_amount rq)) = Ok (unat (qr_expected_output q))"
    by (rule amm_laws.exact_in_quoteE [OF assms(1)])
  have "cr' = cr" "dir' = dir" using v v' raydium_direction_cong [OF assms(6,7), of v] by auto
  with exact_in_spec_mono [OF spec] spec' assms(8) show ?thesis by (simp add: word_le_nat_alt)
qed

text \<open>
  C20. When an exact-in quote of a venue with pool amounts, between its two mints, panics: exactly when
  the amount is positive, the guard against an overflow of the input vault does not refuse it, the
  input reserve is empty, the fee denominator is not 0, and the fee takes the whole amount, so that
  the curve divides 0 by 0 and unwraps the failure. The contract of a quote forbids this panic; a pool
  with an input reserve never has it.
\<close>

theorem raydium_exact_in_panics_iff:
  assumes "amm_laws R" "rq_swap_type rq = ExactIn"
    and "rv_calculate_result v = Some cr" "raydium_direction v rq = Ok dir"
  shows "raydium_quote R v rq = Panic \<longleftrightarrow>
    rq_amount rq \<noteq> 0 \<and> \<not> vault_overflows v dir (rq_amount rq) \<and> reserve_in cr dir = 0 \<and>
    fee_den cr \<noteq> 0 \<and>
    ceil_or_near (unat (rq_amount rq) * fee_num cr) (fee_den cr) = unat (rq_amount rq)"
  using assms(3,4) by (simp add: amm_laws.exact_in_quote_Panic_iff [OF assms(1,2)] curve_fee_def)

text \<open>
  The contract forbids a panic for an exact-out request, but one that asks for the whole output
  reserve or more panics, unless the overflow guard stops it before.
\<close>

theorem raydium_exact_out_panics:
  assumes "amm_laws R" "rq_swap_type rq = ExactOut"
    and "rv_calculate_result v = Some cr" "raydium_direction v rq = Ok dir"
    and "rq_amount rq \<noteq> 0" "reserve_out cr dir \<le> unat (rq_amount rq)"
    and "\<not> vault_overflows v dir (rq_amount rq)"
  shows "raydium_quote R v rq = Panic"
  using assms(1,3,4,2,5-7) by (rule amm_laws.exact_out_quote_panics)

text \<open>
  C19. The price of a pool with an input reserve and a fee of at most the whole input is a number
  that does not grow with the amount, and positive for a fee of at most an eighth on a pool with
  an output reserve.
\<close>

theorem raydium_price_falls:
  assumes "raydium_quote R v rq = Ok q" "raydium_quote R v rq' = Ok q'"
    and "rq_input_mint rq = rq_input_mint rq'" "rq_output_mint rq = rq_output_mint rq'"
    and "rq_amount rq \<le> rq_amount rq'"
    and "rv_calculate_result v = Some cr" "raydium_direction v rq = Ok dir"
    and "reserve_in cr dir \<noteq> 0" "fee_num cr \<le> fee_den cr"
  shows "\<exists>p p'. qr_price q = F64 p \<and> qr_price q' = F64 p' \<and> 0 \<le> p' \<and> p' \<le> p \<and>
    (8 * fee_num cr \<le> fee_den cr \<and> reserve_out cr dir \<noteq> 0 \<longrightarrow> 0 < p')"
proof -
  have price: "qr_price q0 = amm_price cr dir (rq_amount r0)"
    if "raydium_quote R v r0 = Ok q0" "raydium_direction v r0 = Ok dir" for q0 r0
    using that assms(6)
    by (cases "rq_amount r0 = 0") (auto simp: quote_zero_eq quote_positive_eq split: if_splits)
  have "raydium_direction v rq' = Ok dir" using assms(7) raydium_direction_cong [OF assms(3,4), of v] by simp
  with price assms(1,2,7) have "qr_price q = amm_price cr dir (rq_amount rq)"
    "qr_price q' = amm_price cr dir (rq_amount rq')" by blast+
  with amm_price_falls [OF _ _ assms(5), of dir cr] assms(8,9) show ?thesis
    by (auto simp: unat_eq_zero word_le_nat_alt)
qed

section \<open>Updates\<close>

text \<open>A successful refresh, taken apart.\<close>

lemma token_info_new_pubkey: "token_info_new E pk acc ep = Ok t \<Longrightarrow> ti_pubkey t = pk"
  by (auto simp: token_info_new_def Let_def split: option.splits prod.splits)

text \<open>
  The tokens a successful refresh leaves: those of the two mint accounts read, coin first, and the
  old ones where a mint account is missing.
\<close>

definition tokens_read ::
    "crates \<Rightarrow> raydium_venue \<Rightarrow> account option \<Rightarrow> account option \<Rightarrow> token_info list \<Rightarrow> bool" where
  "tokens_read E v m0 m1 ti \<longleftrightarrow>
     (case (m0, m1) of
        (Some a0, Some a1) \<Rightarrow>
          \<exists>t0 t1. token_info_new E (ak_amm_coin_mint (rv_amm_keys v)) a0 u64_max = Ok t0 \<and>
            token_info_new E (ak_amm_pc_mint (rv_amm_keys v)) a1 u64_max = Ok t1 \<and> ti = [t0, t1]
      | _ \<Rightarrow> ti = rv_token_info v)"

lemma tokens_read_pubkeys:
  "tokens_read E v m0 m1 ti \<Longrightarrow>
    map ti_pubkey ti = [ak_amm_coin_mint (rv_amm_keys v), ak_amm_pc_mint (rv_amm_keys v)] \<or>
    ti = rv_token_info v"
  by (auto simp: tokens_read_def token_info_new_pubkey split: option.splits)

lemma step_2_OkE:
  assumes "venue_update_state_step_2 E R v a b c m0 m1 = (v', Ok ())"
  obtains pc coin cr ti where
    "vault_balance b (rv_pc_balance v) = Ok pc" "vault_balance c (rv_coin_balance v) = Ok coin"
    "calculate_pool_vault_amounts_from_accounts R [a, b, c] = Ok cr"
    "v' = v\<lparr> rv_pc_balance := pc, rv_coin_balance := coin, rv_calculate_result := Some cr,
      rv_token_info := ti \<rparr>"
    "tokens_read E v m0 m1 ti"
proof -
  from assms obtain pc coin cr w where
    p: "vault_balance b (rv_pc_balance v) = Ok pc" "vault_balance c (rv_coin_balance v) = Ok coin"
      "calculate_pool_vault_amounts_from_accounts R [a, b, c] = Ok cr"
    and w: "w = v\<lparr> rv_pc_balance := pc, rv_coin_balance := coin, rv_calculate_result := Some cr \<rparr>"
    and fin: "(case (m0, m1) of
        (Some token_mint_0, Some token_mint_1) \<Rightarrow>
          or_stop (token_info_new E (ak_amm_coin_mint (rv_amm_keys w)) token_mint_0 u64_max) w (\<lambda>t0.
          or_stop (token_info_new E (ak_amm_pc_mint (rv_amm_keys w)) token_mint_1 u64_max) w (\<lambda>t1.
          (w\<lparr> rv_token_info := [t0, t1] \<rparr>, Ok ())))
      | _ \<Rightarrow> (w, Ok ())) = (v', Ok ())"
    unfolding venue_update_state_step_2_def Let_def by (elim or_stop_OkE) simp
  have keys: "rv_amm_keys w = rv_amm_keys v" "rv_token_info w = rv_token_info v" by (simp_all add: w)
  have "\<exists>ti. v' = w\<lparr> rv_token_info := ti \<rparr> \<and> tokens_read E v m0 m1 ti"
  proof (cases "m0 \<noteq> None \<and> m1 \<noteq> None")
    case True
    then obtain a0 a1 where "m0 = Some a0" "m1 = Some a1" by blast
    with fin show ?thesis by (auto simp: keys tokens_read_def)
  next
    case False
    then have "v' = w\<lparr> rv_token_info := rv_token_info v \<rparr>" "tokens_read E v m0 m1 (rv_token_info v)"
      using fin by (cases m0; cases m1; simp add: tokens_read_def flip: keys(2))+
    then show ?thesis by blast
  qed
  then obtain ti where "v' = w\<lparr> rv_token_info := ti \<rparr>" "tokens_read E v m0 m1 ti" by blast
  with p show thesis by (intro that [of pc coin cr ti]) (auto simp: w)
qed

lemma raydium_update_OkE:
  assumes "raydium_update_state E R v cache = (v', Ok ())"
  obtains pool pc_vault coin_vault m0 m1 pc coin cr ti where
    "get_accounts cache (amm_key_list (rv_amm_keys v)) =
      Ok [Some pool, Some pc_vault, Some coin_vault, m0, m1]"
    "vault_balance (Some pc_vault) (rv_pc_balance v) = Ok pc"
    "vault_balance (Some coin_vault) (rv_coin_balance v) = Ok coin"
    "calculate_pool_vault_amounts_from_accounts R [Some pool, Some pc_vault, Some coin_vault] = Ok cr"
    "v' = v\<lparr> rv_required_state_pubkeys :=
        extend_keys (rv_required_state_pubkeys v) (amm_key_list (rv_amm_keys v)),
      rv_pc_balance := pc, rv_coin_balance := coin, rv_calculate_result := Some cr,
      rv_token_info := ti, rv_found_all_pubkeys := True \<rparr>"
    "tokens_read E v m0 m1 ti"
proof -
  define v1 where "v1 = v\<lparr> rv_required_state_pubkeys :=
    extend_keys (rv_required_state_pubkeys v) (amm_key_list (rv_amm_keys v)) \<rparr>"
  have keep: "rv_amm_keys v1 = rv_amm_keys v" "rv_pc_balance v1 = rv_pc_balance v"
    "rv_coin_balance v1 = rv_coin_balance v" "rv_token_info v1 = rv_token_info v"
    by (simp_all add: v1_def)
  have "or_stop (get_accounts cache (amm_key_list (rv_amm_keys v))) v1 (\<lambda>accounts.
      or_stop (ok_or (try_five accounts) FailedToFetchMultipleAccountData) v1 (\<lambda>(a, b, c, m0, m1).
      let (v2, res) = venue_update_state_step_2 E R v1 a b c m0 m1
      in or_stop res v2 (\<lambda>_. (v2\<lparr> rv_found_all_pubkeys := True \<rparr>, Ok ())))) = (v', Ok ())"
    using assms by (simp add: raydium_update_state_def v1_def Let_def)
  then obtain accounts a b c m0 m1 where
    get: "get_accounts cache (amm_key_list (rv_amm_keys v)) = Ok accounts"
      "try_five accounts = Some (a, b, c, m0, m1)"
    and rest: "(let (v2, res) = venue_update_state_step_2 E R v1 a b c m0 m1
      in or_stop res v2 (\<lambda>_. (v2\<lparr> rv_found_all_pubkeys := True \<rparr>, Ok ()))) = (v', Ok ())"
    by (elim or_stop_OkE) force
  obtain v2 res where "venue_update_state_step_2 E R v1 a b c m0 m1 = (v2, res)" by force
  with rest have step: "venue_update_state_step_2 E R v1 a b c m0 m1 = (v2, Ok ())"
    and v': "v' = v2\<lparr> rv_found_all_pubkeys := True \<rparr>"
    by auto
  have accounts: "accounts = [a, b, c, m0, m1]"
    using get(2) by (auto simp: try_five_def split: list.splits)
  from step show thesis
  proof (rule step_2_OkE)
    fix pc coin cr ti
    assume p: "vault_balance b (rv_pc_balance v1) = Ok pc" "vault_balance c (rv_coin_balance v1) = Ok coin"
      "calculate_pool_vault_amounts_from_accounts R [a, b, c] = Ok cr"
      "v2 = v1\<lparr> rv_pc_balance := pc, rv_coin_balance := coin, rv_calculate_result := Some cr,
        rv_token_info := ti \<rparr>"
      "tokens_read E v1 m0 m1 ti"
    from p(3) obtain pool pc_vault coin_vault where "a = Some pool" "b = Some pc_vault" "c = Some coin_vault"
      by (rule calculate_pool_vault_amountsE)
    moreover have "tokens_read E v1 m0 m1 ti = tokens_read E v m0 m1 ti"
      by (auto simp: tokens_read_def keep split: option.splits)
    ultimately show thesis
      using get(1) accounts p v' that [of pool pc_vault coin_vault m0 m1 pc coin cr ti]
      by (simp add: keep) (simp add: v1_def)
  qed
qed

lemma vault_balance_Some:
  "vault_balance (Some vault) old = Ok balance \<longleftrightarrow>
    72 \<le> length (acc_data vault) \<and> balance = from_le_bytes (field (acc_data vault) 64 8)"
  by (auto simp: vault_balance_def try_array_def)

lemma vault_balance_None [simp]: "vault_balance None old = Ok old"
  by (simp add: vault_balance_def)

lemma vault_balance_Panic_iff:
  "vault_balance (Some vault) old = Panic \<longleftrightarrow> length (acc_data vault) < 72"
  by (auto simp: vault_balance_def)

text \<open>
  C13. A successful update leaves a coherent, initialized venue: its curve reads the fees of the pool
  account, its balances are the amounts of the two vaults, its reserves are those less the pnl still
  to be taken, and the pool is in a status that can be swapped without an order book. Its tokens are
  built from the mint accounts read, the coin mint first, when both were found; when one is missing
  the update succeeds all the same and the tokens stay those of before.
\<close>

theorem raydium_update_coherent:
  assumes "amm_laws R" "raydium_update_state E R v cache = (v', Ok ())"
  shows "\<exists>pool m0 m1 pc_vault coin_vault amm cr.
    get_accounts cache (amm_key_list (rv_amm_keys v)) =
      Ok [Some pool, Some pc_vault, Some coin_vault, m0, m1] \<and>
    length (acc_data pool) = 752 \<and> amm = amm_info_of_bytes (acc_data pool) \<and>
    ai_status amm \<in> {0, 2, 3, 4, 6, 7} \<and>
    raydium_initialized v' \<and> rv_amm_keys v' = rv_amm_keys v \<and> rv_calculate_result v' = Some cr \<and>
    cr_swap_fee_numerator cr = fe_swap_fee_numerator (ai_fees amm) \<and>
    cr_swap_fee_denominator cr = fe_swap_fee_denominator (ai_fees amm) \<and>
    unpack_token_account R (acc_data pc_vault) = Some (rv_pc_balance v') \<and>
    unpack_token_account R (acc_data coin_vault) = Some (rv_coin_balance v') \<and>
    unat (rv_pc_balance v') =
      unat (sd_need_take_pnl_pc (ai_state_data amm)) + unat (cr_pool_pc_vault_amount cr) \<and>
    unat (rv_coin_balance v') =
      unat (sd_need_take_pnl_coin (ai_state_data amm)) + unat (cr_pool_coin_vault_amount cr) \<and>
    (case (m0, m1) of
       (Some a0, Some a1) \<Rightarrow>
         \<exists>t0 t1. token_info_new E (ak_amm_coin_mint (rv_amm_keys v)) a0 u64_max = Ok t0 \<and>
           token_info_new E (ak_amm_pc_mint (rv_amm_keys v)) a1 u64_max = Ok t1 \<and>
           rv_token_info v' = [t0, t1]
     | _ \<Rightarrow> rv_token_info v' = rv_token_info v)"
  using assms(2)
proof (rule raydium_update_OkE)
  fix pool pc_vault coin_vault m0 m1 pc coin cr ti
  assume get: "get_accounts cache (amm_key_list (rv_amm_keys v)) =
      Ok [Some pool, Some pc_vault, Some coin_vault, m0, m1]"
    and bal: "vault_balance (Some pc_vault) (rv_pc_balance v) = Ok pc"
      "vault_balance (Some coin_vault) (rv_coin_balance v) = Ok coin"
    and calc: "calculate_pool_vault_amounts_from_accounts R [Some pool, Some pc_vault, Some coin_vault] = Ok cr"
    and v': "v' = v\<lparr> rv_required_state_pubkeys :=
        extend_keys (rv_required_state_pubkeys v) (amm_key_list (rv_amm_keys v)),
      rv_pc_balance := pc, rv_coin_balance := coin, rv_calculate_result := Some cr,
      rv_token_info := ti, rv_found_all_pubkeys := True \<rparr>"
    and ti: "tokens_read E v m0 m1 ti"
  note laws = amm_laws.transmute [OF assms(1)] amm_laws.token_account [OF assms(1)]
  from calc show ?thesis
  proof (rule calculate_pool_vault_amountsE)
    fix pool' pc_vault' coin_vault' bs pc' coin'
    assume same: "Some pool = Some pool'" "Some pc_vault = Some pc_vault'" "Some coin_vault = Some coin_vault'"
      and read: "transmute_one_of_size R amm_info_size (acc_data pool') = Some bs"
        "unpack_token_account R (acc_data pc_vault') = Some pc'"
        "unpack_token_account R (acc_data coin_vault') = Some coin'"
      and rest: "ai_status (amm_info_of_bytes bs) \<in> {0, 2, 3, 4, 6, 7}"
        "unat pc' = unat (sd_need_take_pnl_pc (ai_state_data (amm_info_of_bytes bs)))
          + unat (cr_pool_pc_vault_amount cr)"
        "unat coin' = unat (sd_need_take_pnl_coin (ai_state_data (amm_info_of_bytes bs)))
          + unat (cr_pool_coin_vault_amount cr)"
        "cr_swap_fee_numerator cr = fe_swap_fee_numerator (ai_fees (amm_info_of_bytes bs))"
        "cr_swap_fee_denominator cr = fe_swap_fee_denominator (ai_fees (amm_info_of_bytes bs))"
    have bs: "bs = acc_data pool" "length (acc_data pool) = 752"
      using read(1) same by (auto simp: laws(1) try_array_def amm_info_size_eq split: if_splits)
    have "pc' = pc" "coin' = coin"
      using laws(2) [OF read(2)] laws(2) [OF read(3)] bal same by (auto simp: vault_balance_Some)
    moreover from ti v' have "case (m0, m1) of
       (Some a0, Some a1) \<Rightarrow>
         \<exists>t0 t1. token_info_new E (ak_amm_coin_mint (rv_amm_keys v)) a0 u64_max = Ok t0 \<and>
           token_info_new E (ak_amm_pc_mint (rv_amm_keys v)) a1 u64_max = Ok t1 \<and>
           rv_token_info v' = [t0, t1]
     | _ \<Rightarrow> rv_token_info v' = rv_token_info v"
      by (auto simp: tokens_read_def split: option.splits)
    ultimately show ?thesis using get bs rest read same
      by - (rule exI [of _ pool], rule exI [of _ m0], rule exI [of _ m1],
          rule exI [of _ pc_vault], rule exI [of _ coin_vault],
          rule exI [of _ "amm_info_of_bytes bs"], rule exI [of _ cr],
          simp add: raydium_initialized_def v')
  qed
qed

text \<open>
  A failed update can tear the venue: where the pool account is missing but the vaults are not,
  the balances are those of the new vaults while the curve keeps the amounts of the last refresh, and
  the venue stays initialized if it was.
\<close>

theorem raydium_failed_update_tears:
  assumes "get_accounts cache (amm_key_list (rv_amm_keys v)) =
      Ok [None, Some pc_vault, Some coin_vault, m0, m1]"
    and "72 \<le> length (acc_data pc_vault)" "72 \<le> length (acc_data coin_vault)"
  shows "\<exists>v'. raydium_update_state E R v cache =
      (v', Err (AmmMethodError (EStaticStr ''calculate_pool_vault_amounts''))) \<and>
    rv_pc_balance v' = from_le_bytes (field (acc_data pc_vault) 64 8) \<and>
    rv_coin_balance v' = from_le_bytes (field (acc_data coin_vault) 64 8) \<and>
    rv_calculate_result v' = rv_calculate_result v \<and>
    raydium_initialized v' = raydium_initialized v"
proof -
  have calc: "calculate_pool_vault_amounts_from_accounts R [None, b, c] =
      Err (MissingState (EStaticStr ''AMM account missing''))" for b c
    by (simp add: calculate_pool_vault_amounts_from_accounts_def slice_def get_slice_def)
  have bal: "vault_balance (Some pc_vault) old = Ok (from_le_bytes (field (acc_data pc_vault) 64 8))"
    "vault_balance (Some coin_vault) old = Ok (from_le_bytes (field (acc_data coin_vault) 64 8))" for old
    using assms(2,3) by (simp_all add: vault_balance_Some)
  show ?thesis
    by (simp add: raydium_update_state_def assms(1) try_five_def venue_update_state_step_2_def
        calc bal Let_def raydium_initialized_def)
qed

text \<open>
  An update panics on a pool account whose status is none of the eight known ones, and on a vault
  account that is too short to hold a balance.
\<close>

theorem raydium_update_can_panic:
  assumes "amm_laws R"
    and "get_accounts cache (amm_key_list (rv_amm_keys v)) =
      Ok [Some pool, Some pc_vault, Some coin_vault, m0, m1]"
    and "length (acc_data pc_vault) < 72 \<or>
      unpack_token_account R (acc_data pc_vault) \<noteq> None \<and>
      unpack_token_account R (acc_data coin_vault) \<noteq> None \<and>
      length (acc_data pool) = 752 \<and> 8 \<le> ai_status (amm_info_of_bytes (acc_data pool))"
  shows "snd (raydium_update_state E R v cache) = Panic"
  using assms(3)
proof
  assume "length (acc_data pc_vault) < 72"
  then have "vault_balance (Some pc_vault) old = Panic" for old by (simp add: vault_balance_Panic_iff)
  then show ?thesis
    by (simp add: raydium_update_state_def assms(2) try_five_def venue_update_state_step_2_def Let_def)
next
  assume a: "unpack_token_account R (acc_data pc_vault) \<noteq> None \<and>
      unpack_token_account R (acc_data coin_vault) \<noteq> None \<and>
      length (acc_data pool) = 752 \<and> 8 \<le> ai_status (amm_info_of_bytes (acc_data pool))"
  then obtain pc coin where un: "unpack_token_account R (acc_data pc_vault) = Some pc"
    "unpack_token_account R (acc_data coin_vault) = Some coin" by blast
  have "72 \<le> length (acc_data pc_vault)" "72 \<le> length (acc_data coin_vault)"
    using amm_laws.token_account [OF assms(1)] un by fastforce+
  then obtain pc' coin' where bal: "\<And>old. vault_balance (Some pc_vault) old = Ok pc'"
    "\<And>old. vault_balance (Some coin_vault) old = Ok coin'"
    by (auto simp: vault_balance_Some)
  have "amm_status_from_u64 (ai_status (amm_info_of_bytes (acc_data pool))) = Panic"
    using a by (simp add: amm_status_Panic_iff)
  then have "calculate_pool_vault_amounts_from_accounts R [Some pool, Some pc_vault, Some coin_vault] = Panic"
    using a un by (simp add: calculate_pool_vault_amounts_from_accounts_def slice_def get_slice_def
        amm_laws.transmute [OF assms(1)] try_array_def amm_info_size_eq)
  with bal show ?thesis
    by (simp add: raydium_update_state_def assms(2) try_five_def venue_update_state_step_2_def Let_def)
qed

section \<open>Venues over time\<close>

inductive raydium_reachable :: "crates \<Rightarrow> amm_crates \<Rightarrow> raydium_venue \<Rightarrow> bool" for E R where
  created: "raydium_from_account E R pk acct = Ok v \<Longrightarrow> raydium_reachable E R v"
| updated: "raydium_reachable E R v \<Longrightarrow> raydium_update_state E R v cache = (v', res) \<Longrightarrow>
    raydium_reachable E R v'"

text \<open>
  What every venue satisfies: the keys it asks for are those of its pool, once each; an initialized
  venue has pool amounts; and its tokens are unknown or the mints of the pool.
\<close>

definition wf_raydium :: "raydium_venue \<Rightarrow> bool" where
  "wf_raydium v \<longleftrightarrow>
     distinct (rv_required_state_pubkeys v) \<and>
     set (rv_required_state_pubkeys v) = set (amm_key_list (rv_amm_keys v)) \<and>
     (rv_found_all_pubkeys v \<longrightarrow> rv_calculate_result v \<noteq> None) \<and>
     (rv_token_info v = [] \<or> map ti_pubkey (rv_token_info v) =
        [ak_amm_coin_mint (rv_amm_keys v), ak_amm_pc_mint (rv_amm_keys v)])"

lemma extend_keys_set: "distinct ks \<Longrightarrow> distinct (extend_keys ks new) \<and> set (extend_keys ks new) = set ks \<union> set new"
  unfolding extend_keys_def by (induction new arbitrary: ks) auto

text \<open>What a failed step leaves of the venue.\<close>

lemma step_2_keeps:
  assumes "venue_update_state_step_2 E R v a b c m0 m1 = (v', r)" "r \<noteq> Ok ()"
  shows "rv_amm_keys v' = rv_amm_keys v \<and> rv_token_info v' = rv_token_info v \<and>
    rv_required_state_pubkeys v' = rv_required_state_pubkeys v \<and>
    rv_found_all_pubkeys v' = rv_found_all_pubkeys v \<and>
    (rv_calculate_result v \<noteq> None \<longrightarrow> rv_calculate_result v' \<noteq> None)"
proof -
  let ?P = "\<lambda>(w, r :: unit vres). r \<noteq> Ok () \<longrightarrow> rv_amm_keys w = rv_amm_keys v \<and>
    rv_token_info w = rv_token_info v \<and>
    rv_required_state_pubkeys w = rv_required_state_pubkeys v \<and>
    rv_found_all_pubkeys w = rv_found_all_pubkeys v \<and>
    (rv_calculate_result v \<noteq> None \<longrightarrow> rv_calculate_result w \<noteq> None)"
  have "?P (venue_update_state_step_2 E R v a b c m0 m1)"
    unfolding venue_update_state_step_2_def Let_def
    by (cases m0; cases m1; simp only: prod.case option.case;
        intro or_stop_rule [where P = ?P]; simp)
  with assms show ?thesis by simp
qed

lemma raydium_update_keeps_wf:
  assumes "raydium_update_state E R v cache = (v', res)" "wf_raydium v"
  shows "wf_raydium v' \<and> rv_amm_keys v' = rv_amm_keys v"
proof -
  let ?keys = "amm_key_list (rv_amm_keys v)"
  define v1 where "v1 = v\<lparr> rv_required_state_pubkeys := extend_keys (rv_required_state_pubkeys v) ?keys \<rparr>"
  have ext: "distinct (extend_keys (rv_required_state_pubkeys v) ?keys)"
    "set (extend_keys (rv_required_state_pubkeys v) ?keys) = set ?keys"
    using assms(2) extend_keys_set [of "rv_required_state_pubkeys v" ?keys] by (auto simp: wf_raydium_def)
  have v1: "wf_raydium v1" "rv_amm_keys v1 = rv_amm_keys v"
    using assms(2) ext by (simp_all add: v1_def wf_raydium_def)
  show ?thesis
  proof (cases "res = Ok ()")
    case True
    with assms(1) have "raydium_update_state E R v cache = (v', Ok ())" by simp
    then show ?thesis
    proof (rule raydium_update_OkE)
      fix m0 m1 :: "account option" and pc coin cr ti
      assume "v' = v\<lparr> rv_required_state_pubkeys := extend_keys (rv_required_state_pubkeys v) ?keys,
          rv_pc_balance := pc, rv_coin_balance := coin, rv_calculate_result := Some cr,
          rv_token_info := ti, rv_found_all_pubkeys := True \<rparr>"
        and "tokens_read E v m0 m1 ti"
      with ext assms(2) show ?thesis by (auto simp: wf_raydium_def dest: tokens_read_pubkeys)
    qed
  next
    case False
    let ?P = "\<lambda>(w, r :: unit vres). r \<noteq> Ok () \<longrightarrow> wf_raydium w \<and> rv_amm_keys w = rv_amm_keys v"
    have step: "?P (let (v2, r) = venue_update_state_step_2 E R v1 a b c m0 m1
        in or_stop r v2 (\<lambda>_. (v2\<lparr> rv_found_all_pubkeys := True \<rparr>, Ok ())))" for a b c m0 m1
    proof -
      obtain v2 r where s: "venue_update_state_step_2 E R v1 a b c m0 m1 = (v2, r)" by force
      show ?thesis
      proof (cases "r = Ok ()")
        case False
        with step_2_keeps [OF s] v1 have "wf_raydium v2 \<and> rv_amm_keys v2 = rv_amm_keys v"
          by (auto simp: wf_raydium_def)
        with s False show ?thesis by (cases r) simp_all
      qed (simp add: s)
    qed
    have "?P (raydium_update_state E R v cache)"
      unfolding raydium_update_state_def Let_def [of ?keys] Let_def [of "v\<lparr> rv_required_state_pubkeys := _ \<rparr>"]
        v1_def [symmetric]
      by (intro or_stop_rule [where P = ?P]) (use v1 step in \<open>auto simp: case_prod_unfold\<close>)
    with assms(1) False show ?thesis by simp
  qed
qed

lemma raydium_reachable_wf: "raydium_reachable E R v \<Longrightarrow> wf_raydium v"
proof (induction rule: raydium_reachable.induct)
  case (created pk acct v)
  then show ?case
    using extend_keys_set [of "[]"] by (auto simp: raydium_from_account_def wf_raydium_def)
next
  case (updated v cache v' res)
  then show ?case using raydium_update_keeps_wf by blast
qed

text \<open>
  C12. Every venue that arises from an account and any updates, failed or not, asks for the five
  accounts of its pool, each once, in whatever order the set is iterated; has pool amounts once it is
  initialized; and knows no tokens or the two mints of the pool, coin first, so that a token index and
  a direction of \<open>quote\<close> agree.
\<close>

theorem raydium_reachable_well_formed:
  assumes "amm_laws R" "raydium_reachable E R v"
  shows "(rv_token_info v = [] \<or> map ti_pubkey (rv_token_info v) =
      [ak_amm_coin_mint (rv_amm_keys v), ak_amm_pc_mint (rv_amm_keys v)]) \<and>
    (raydium_initialized v \<longrightarrow> rv_calculate_result v \<noteq> None \<and>
      (\<exists>ks. raydium_required_pubkeys R v = Ok ks \<and> distinct ks \<and>
        set ks = set (amm_key_list (rv_amm_keys v))))"
  using raydium_reachable_wf [OF assms(2)] amm_laws.iter [OF assms(1)]
  by (auto simp: wf_raydium_def raydium_initialized_def raydium_required_pubkeys_def)

section \<open>Bounds\<close>

abbreviation exact_in_request :: "pubkey \<Rightarrow> pubkey \<Rightarrow> u64 \<Rightarrow> quote_request" where
  "exact_in_request a b x \<equiv>
     \<lparr> rq_input_mint = a, rq_output_mint = b, rq_amount = x, rq_swap_type = ExactIn \<rparr>"

text \<open>Between two amounts that can be sold for a positive output every amount can.\<close>

lemma quotable_between:
  assumes R: "amm_laws R"
    and lo: "valid_at (\<lambda>x. raydium_quote R v (exact_in_request a b x)) lo"
    and hi: "valid_at (\<lambda>x. raydium_quote R v (exact_in_request a b x)) hi"
    and le: "lo \<le> x" "x \<le> hi"
  shows "lo \<noteq> 0 \<and> (\<exists>q. raydium_quote R v (exact_in_request a b x) = Ok q \<and> valid_quote q \<and> qr_amount q = x)"
proof -
  let ?rq = "exact_in_request a b"
  from lo obtain ql where ql: "raydium_quote R v (?rq lo) = Ok ql" "qr_expected_output ql \<noteq> 0"
    by (auto simp: valid_at_def valid_quote_def split: outcome.splits)
  from hi obtain qh where qh: "raydium_quote R v (?rq hi) = Ok qh"
    by (auto simp: valid_at_def split: outcome.splits)
  from raydium_quote_calc(1) [OF ql(1)] obtain cr dir where
    cr: "rv_calculate_result v = Some cr" and "raydium_direction v (?rq lo) = Ok dir" by blast
  then have dir: "raydium_direction v (?rq y) = Ok dir" for y
    using raydium_direction_cong [of "?rq lo" "?rq y" v] by simp
  have lo0: "lo \<noteq> 0"
    using ql quote_zero_eq [OF cr dir [of lo], of R] by auto
  have x0: "x \<noteq> 0" and hi0: "hi \<noteq> 0" using lo0 le by auto
  have spec: "exact_in_spec (reserve_in cr dir) (reserve_out cr dir) (fee_num cr) (fee_den cr) (unat y)
      = Ok (unat (qr_expected_output q)) \<and> unat (qr_expected_output q) < reserve_out cr dir"
    if "raydium_quote R v (?rq y) = Ok q" "y \<noteq> 0" for y q
  proof (rule amm_laws.exact_in_quoteE [OF R that(1)])
    fix cr' dir'
    assume "rv_calculate_result v = Some cr'" "raydium_direction v (?rq y) = Ok dir'"
      "exact_in_spec (reserve_in cr' dir') (reserve_out cr' dir') (fee_num cr') (fee_den cr')
        (unat (rq_amount (?rq y))) = Ok (unat (qr_expected_output q))"
      "unat (qr_expected_output q) < reserve_out cr' dir'"
    with cr dir [of y] show ?thesis by simp
  qed (use that in simp_all)
  note sl = spec [OF ql(1) lo0] and sh = spec [OF qh hi0]
  obtain out where out: "exact_in_spec (reserve_in cr dir) (reserve_out cr dir) (fee_num cr)
      (fee_den cr) (unat x) = Ok out"
    using exact_in_spec_between [OF conjunct1 [OF sl], of "unat x"] le by (auto simp: word_le_nat_alt)
  have "unat (qr_expected_output ql) \<le> out" "out \<le> unat (qr_expected_output qh)"
    using exact_in_spec_mono [OF conjunct1 [OF sl] out] exact_in_spec_mono [OF out conjunct1 [OF sh]] le
    by (simp_all add: word_le_nat_alt)
  moreover have "0 < unat (qr_expected_output ql)" using ql(2) by (simp add: unat_gt_0)
  ultimately have pos: "0 < out" "out < reserve_out cr dir" using sh by linarith+
  then have u: "unat (word_of_nat out :: u64) = out"
    by (metis le_unat_uoi less_imp_le)
  have "\<not> vault_overflows v dir x"
    using qh le hi0 by (auto simp: quote_positive_eq [OF cr dir] vault_overflows_def word_le_nat_alt split: if_splits)
  then have "raydium_quote R v (?rq x) = Ok \<lparr> qr_input_mint = a, qr_output_mint = b, qr_amount = x,
      qr_expected_output = word_of_nat out, qr_not_enough_liquidity = False,
      qr_price = amm_price cr dir x \<rparr>"
    using x0 pos(2) u by (simp add: quote_positive_eq [OF cr dir] amm_laws.exact_in_eq [OF R] out)
  moreover have "(word_of_nat out :: u64) \<noteq> 0" using u pos(1) by (metis unat_0 less_irrefl)
  ultimately show ?thesis using lo0 by (simp add: valid_quote_def)
qed

lemma raydium_boundsE:
  assumes "raydium_bounds E R v i j = Some (Ok (lo, hi))"
  obtains ti tj where "get_token (rv_token_info v) (unat i) = Ok ti"
    "get_token (rv_token_info v) (unat j) = Ok tj" "lo \<le> hi"
    "valid_at (\<lambda>x. raydium_quote R v (exact_in_request (ti_pubkey ti) (ti_pubkey tj) x)) lo"
    "valid_at (\<lambda>x. raydium_quote R v (exact_in_request (ti_pubkey ti) (ti_pubkey tj) x)) hi"
proof -
  have valid: "valid_at f lo \<and> valid_at f hi \<and> lo \<le> hi"
    if "find_boundaries chk f = Some (Ok (lo, hi))" for chk and f :: "f64_value quote_fun"
    using that by (cases rule: find_boundaries_cases [of chk f])
      (auto simp: refined_lower_def refined_upper_def)
  from assms obtain ti tj where "get_token (rv_token_info v) (unat i) = Ok ti"
      "get_token (rv_token_info v) (unat j) = Ok tj"
    and "find_boundaries (overflow_checks E) (\<lambda>x. raydium_quote R v
      (exact_in_request (ti_pubkey ti) (ti_pubkey tj) x)) = Some (Ok (lo, hi))"
    unfolding raydium_bounds_def venue_bounds_def by (auto split: outcome.splits)
  with valid that show thesis by blast
qed

text \<open>
  C15. The bounds of a Raydium venue span amounts that can all be traded: they are positive and in
  order, and every amount from the lower to the upper bound is quoted in full for a positive output.
\<close>

theorem raydium_bounds_tradable:
  assumes "amm_laws R" "raydium_bounds E R v i j = Some (Ok (lo, hi))" "lo \<le> x" "x \<le> hi"
  shows "\<exists>ti tj q. get_token (rv_token_info v) (unat i) = Ok ti \<and>
    get_token (rv_token_info v) (unat j) = Ok tj \<and> 0 < lo \<and>
    raydium_quote R v (exact_in_request (ti_pubkey ti) (ti_pubkey tj) x) = Ok q \<and>
    qr_amount q = x \<and> 0 < qr_expected_output q \<and> \<not> qr_not_enough_liquidity q"
  using assms(2)
proof (rule raydium_boundsE)
  fix ti tj
  assume t: "get_token (rv_token_info v) (unat i) = Ok ti" "get_token (rv_token_info v) (unat j) = Ok tj"
    and valid: "valid_at (\<lambda>x. raydium_quote R v (exact_in_request (ti_pubkey ti) (ti_pubkey tj) x)) lo"
      "valid_at (\<lambda>x. raydium_quote R v (exact_in_request (ti_pubkey ti) (ti_pubkey tj) x)) hi"
  from quotable_between [OF assms(1) valid assms(3,4)] t show ?thesis
    by (auto simp: valid_quote_def word_neq_0_conv)
qed

section \<open>Instruction and route leg\<close>

text \<open>The methods of a Raydium venue a leg is built from.\<close>

definition raydium_trading_venue :: "crates \<Rightarrow> amm_crates \<Rightarrow> raydium_venue \<Rightarrow> trading_venue" where
  "raydium_trading_venue E R v =
     \<lparr> tv_protocol = raydium_protocol, tv_program_id = raydium_program_id E,
       tv_generate_swap_instruction = raydium_generate_swap_instruction E R v \<rparr>"

lemma raydium_ix_shape:
  assumes "raydium_generate_swap_instruction E R v rq user = Ok ix"
  obtains rest where "ix_program_id ix = RAYDIUM_AMM_PROGRAM_ID E"
    "ix_accounts ix = rest @ [meta_new_readonly user True]" "length rest = 7"
    "list_all (\<lambda>m. \<not> am_is_signer m) rest"
    "ix_data ix = 16 # to_le_bytes 8 (rq_amount rq) @ to_le_bytes 8 (0 :: u64)"
  using assms that [of "butlast (ix_accounts ix)"]
  by (auto simp: raydium_generate_swap_instruction_def swap_v2_def swap_base_in_v2_def Let_def
      raydium_program_id_def split: prod.splits)

text \<open>
  C14. A leg for a Raydium venue has nine accounts, none of them a signer, and on chain it makes
  exactly the call the quoter built: with the accounts of the leg as the transaction passes them and
  the amount of the request, program, data and accounts with their flags are those of the venue's own
  swap instruction, in which the route authority signs as the owner.
\<close>

theorem raydium_call_is_venue_instruction:
  assumes "build_swap_leg (raydium_trading_venue E R v) rq pda f t wt = Ok (spec, accounts)"
    and "raydium_generate_swap_instruction E R v rq pda = Ok ix"
    and "map (\<lambda>a. \<lparr> am_pubkey = ai_key a, am_is_signer = ai_is_signer a,
      am_is_writable = ai_is_writable a \<rparr>) infos = accounts"
    and "pda \<notin> am_pubkey ` set (butlast (ix_accounts ix))"
  shows "sp_n_accounts spec = 9 \<and> length accounts = 9 \<and> list_all (\<lambda>m. \<not> am_is_signer m) accounts \<and>
    perform_cpi_swap E rt (rq_amount rq) spec (leg_metas pda (butlast infos)) infos sd w =
      rt_invoke_signed rt ix infos sd w"
proof (rule raydium_ix_shape [OF assms(2)])
  fix rest
  assume ix: "ix_program_id ix = RAYDIUM_AMM_PROGRAM_ID E"
      "ix_accounts ix = rest @ [meta_new_readonly pda True]" "length rest = 7"
      "list_all (\<lambda>m. \<not> am_is_signer m) rest"
      "ix_data ix = 16 # to_le_bytes 8 (rq_amount rq) @ to_le_bytes 8 (0 :: u64)"
  have acc: "accounts = assemble_leg_accounts ix pda (RAYDIUM_AMM_PROGRAM_ID E)"
    and spec: "sp_venue spec = Venue_RaydiumAmm" "sp_n_accounts spec = word_of_nat (length accounts)"
    using assms(1,2)
    by (auto simp: build_swap_leg_def protocol_to_venue_def raydium_trading_venue_def
        raydium_protocol_def raydium_program_id_def Let_def)
  have other: "pda \<notin> am_pubkey ` set rest" using assms(4) ix(2) by simp
  have accounts: "accounts = rest @ [meta_new_readonly pda False,
      meta_new_readonly (RAYDIUM_AMM_PROGRAM_ID E) False]"
    using other by (auto simp: acc assemble_leg_accounts_def ix(2) image_iff intro!: map_idI)
  define metas where "metas = map (\<lambda>a. \<lparr> am_pubkey = ai_key a, am_is_signer = ai_is_signer a,
      am_is_writable = ai_is_writable a \<rparr>) (butlast infos)"
  have "metas = butlast accounts" by (simp add: metas_def map_butlast assms(3) [symmetric])
  then have metas: "metas = rest @ [meta_new_readonly pda False]" by (simp add: accounts butlast_append)
  have "leg_metas pda (butlast infos) =
      map (\<lambda>m. m\<lparr> am_is_signer := am_pubkey m = pda \<or> am_is_signer m \<rparr>) metas"
    by (simp add: leg_metas_def metas_def)
  also have "\<dots> = ix_accounts ix"
    using other ix(4) by (auto simp: metas ix(2) list_all_iff image_iff intro!: map_idI)
  finally have "leg_metas pda (butlast infos) = ix_accounts ix" .
  then have "\<lparr> ix_program_id = RAYDIUM_PROGRAM_ID E, ix_accounts = leg_metas pda (butlast infos),
      ix_data = [16] @ to_le_bytes 8 (rq_amount rq) @ to_le_bytes 8 (0 :: u64) \<rparr> = ix"
    using ix by (cases ix) (simp add: RAYDIUM_PROGRAM_ID_def RAYDIUM_AMM_PROGRAM_ID_def)
  then have "perform_cpi_swap E rt (rq_amount rq) spec (leg_metas pda (butlast infos)) infos sd w =
      rt_invoke_signed rt ix infos sd w"
    by (cases "rt_invoke_signed rt ix infos sd w")
      (simp_all add: perform_cpi_swap_def spec raydium_swap_base_in_v2_def)
  moreover have "length accounts = 9" by (simp add: accounts ix(3))
  ultimately show ?thesis using ix(4) by (simp add: spec(2)) (simp add: accounts)
qed

section \<open>New pools\<close>

text \<open>
  The pools found in a transaction are exactly those of its \<open>initialize2\<close> instructions to the
  Raydium program that have at least ten accounts: the pool is the fifth account, the mints are the
  ninth and the tenth.
\<close>

theorem raydium_pools_found:
  "c \<in> set (raydium_parse_pool_creations E ixs) \<longleftrightarrow>
   (\<exists>ix \<in> set ixs. pi_program_id ix = RAYDIUM_AMM_PROGRAM_ID E \<and>
      pi_data ix \<noteq> [] \<and> hd (pi_data ix) = 1 \<and> 10 \<le> length (pi_accounts ix) \<and>
      c = \<lparr> pc_protocol = RaydiumAMM, pc_pool = pi_accounts ix ! 4,
            pc_mints = [pi_accounts ix ! 8, pi_accounts ix ! 9] \<rparr>)"
proof -
  have found: "raydium_pool_creation ix = Some c \<longleftrightarrow> 10 \<le> length (pi_accounts ix) \<and>
      c = \<lparr> pc_protocol = RaydiumAMM, pc_pool = pi_accounts ix ! 4,
            pc_mints = [pi_accounts ix ! 8, pi_accounts ix ! 9] \<rparr>" for ix
    by (auto simp: raydium_pool_creation_def get_at_def POOL_INDEX_def COIN_MINT_INDEX_def
        PC_MINT_INDEX_def)
  have tag: "get_at (pi_data ix) 0 = Some INITIALIZE2_TAG \<longleftrightarrow> pi_data ix \<noteq> [] \<and> hd (pi_data ix) = 1" for ix
    by (cases "pi_data ix") (auto simp: get_at_def INITIALIZE2_TAG_def)
  have "c \<in> set (raydium_parse_pool_creations E ixs) \<longleftrightarrow> (\<exists>ix \<in> set ixs.
      pi_program_id ix = RAYDIUM_AMM_PROGRAM_ID E \<and> get_at (pi_data ix) 0 = Some INITIALIZE2_TAG \<and>
      raydium_pool_creation ix = Some c)"
    by (force simp: raydium_parse_pool_creations_def List.map_filter_def image_iff)
  then show ?thesis unfolding found tag by blast
qed

section \<open>New venues\<close>

text \<open>
  A venue made from the account of a pool has the keys of that pool: every key written to the
  account in the layout of \<open>AmmInfo\<close> is read back at its place, and the authority is derived from the
  low byte of the nonce. The venue is not initialized and has no pool amounts yet.
\<close>

theorem raydium_from_account_reads_pool:
  assumes "amm_laws R" "wf_amm_info ai" "acc_data acct = amm_info_bytes ai"
    and "create_program_address R [AUTHORITY_AMM, [ucast (ai_nonce ai)]] (RAYDIUM_AMM_PROGRAM_ID E)
      = Some authority"
  shows "\<exists>v. raydium_from_account E R pk acct = Ok v \<and>
    rv_amm_keys v = \<lparr> ak_amm_pool = pk, ak_amm_coin_mint = ai_coin_vault_mint ai,
      ak_amm_pc_mint = ai_pc_vault_mint ai, ak_amm_authority = authority,
      ak_amm_target = ai_target_orders ai, ak_amm_coin_vault = ai_coin_vault ai,
      ak_amm_pc_vault = ai_pc_vault ai, ak_amm_lp_mint = ai_lp_mint ai,
      ak_nonce = ucast (ai_nonce ai) \<rparr> \<and>
    \<not> raydium_initialized v \<and> rv_calculate_result v = None"
proof -
  have "load_from_bytes R (acc_data acct) = Ok ai"
    using amm_info_of_bytes_bytes [OF assms(2), of "[]"] amm_info_bytes_length [OF assms(2)]
    by (simp add: load_from_bytes_def amm_laws.from_bytes [OF assms(1)] try_array_def assms(3))
  then show ?thesis
    by (simp add: raydium_from_account_def load_amm_keys_def authority_id_def assms(4)
        raydium_initialized_def)
qed

text \<open>
  The decoder of a pool never reports a bad length: an account of any other length than 752 bytes
  makes \<open>from_account\<close> panic, where the code around it is written for an error.
\<close>

theorem raydium_from_account_can_panic:
  assumes "amm_laws R" "length (acc_data acct) \<noteq> 752"
  shows "raydium_from_account E R pk acct = Panic"
  using assms(2)
  by (simp add: raydium_from_account_def load_amm_keys_def load_from_bytes_def
      amm_laws.from_bytes [OF assms(1)] try_array_def amm_info_size_eq)

section \<open>A concrete pool\<close>

definition pool_info :: "u64 \<Rightarrow> amm_info" where
  "pool_info status =
     \<lparr> ai_status = status, ai_nonce = 254, ai_order_num = 7, ai_depth = 3, ai_coin_decimals = 9,
       ai_pc_decimals = 6, ai_state = 1, ai_reset_flag = 0, ai_min_size = 1,
       ai_vol_max_cut_ratio = 0, ai_amount_wave = 0, ai_coin_lot_size = 1, ai_pc_lot_size = 1,
       ai_min_price_multiplier = 1, ai_max_price_multiplier = 1000000000,
       ai_sys_decimal_value = 1000000000,
       ai_fees = \<lparr> fe_min_separate_numerator = 5, fe_min_separate_denominator = 10000,
         fe_trade_fee_numerator = 25, fe_trade_fee_denominator = 10000, fe_pnl_numerator = 12,
         fe_pnl_denominator = 100, fe_swap_fee_numerator = 25, fe_swap_fee_denominator = 10000 \<rparr>,
       ai_state_data = \<lparr> sd_need_take_pnl_coin = 300, sd_need_take_pnl_pc = 50, sd_total_pnl_pc = 0,
         sd_total_pnl_coin = 0, sd_pool_open_time = 0, sd_punish_pc_amount = 0,
         sd_punish_coin_amount = 0, sd_orderbook_to_init_time = 0, sd_swap_coin_in_amount = 0,
         sd_swap_pc_out_amount = 0, sd_swap_acc_pc_fee = 0, sd_swap_pc_in_amount = 0,
         sd_swap_coin_out_amount = 0, sd_swap_acc_coin_fee = 0 \<rparr>,
       ai_coin_vault = replicate 32 11, ai_pc_vault = replicate 32 12,
       ai_coin_vault_mint = replicate 32 13, ai_pc_vault_mint = replicate 32 14,
       ai_lp_mint = replicate 32 15, ai_open_orders = replicate 32 16, ai_market = replicate 32 17,
       ai_market_program = replicate 32 18, ai_target_orders = replicate 32 19,
       ai_withdraw_queue = replicate 32 20, ai_lp_vault = replicate 32 21,
       ai_amm_owner = replicate 32 22, ai_lp_amount = 1000, ai_client_order_id = 0,
       ai_padding = [0, 0] \<rparr>"

definition pool_account :: "u64 \<Rightarrow> account" where
  "pool_account status =
     \<lparr> acc_data = amm_info_bytes (pool_info status), acc_owner = replicate 32 1 \<rparr>"

definition pool_vault :: "u64 \<Rightarrow> account" where
  "pool_vault amount =
     \<lparr> acc_data = replicate 64 0 @ to_le_bytes 8 amount @ replicate 36 0 @ [1] @ replicate 56 0,
       acc_owner = replicate 32 2 \<rparr>"

definition mint_account :: account where
  "mint_account = \<lparr> acc_data = replicate 44 0 @ [9] @ replicate 37 0, acc_owner = replicate 32 2 \<rparr>"

definition pool_chain :: "account option list \<Rightarrow> accounts_cache" where
  "pool_chain accounts = \<lparr> get_account = (\<lambda>k. Ok None), get_accounts = (\<lambda>ks. Ok accounts) \<rparr>"

lemma wf_pool_info: "wf_amm_info (pool_info status)"
  by (simp add: wf_amm_info_def pool_info_def)

lemma pool_account_reads [simp]:
  "length (acc_data (pool_account status)) = 752"
  "amm_info_of_bytes (acc_data (pool_account status)) = pool_info status"
  using amm_info_of_bytes_bytes [OF wf_pool_info, of status "[]"] amm_info_bytes_length [OF wf_pool_info]
  by (simp_all add: pool_account_def amm_info_size_eq)

lemma pool_vault_reads [simp]:
  "length (acc_data (pool_vault amount)) = 165"
  "field (acc_data (pool_vault amount)) 64 8 = to_le_bytes 8 amount"
  "unpack_token_account std_amm (acc_data (pool_vault amount)) = Some amount"
  by (simp_all add: pool_vault_def std_amm_ops nth_append from_to_le_bytes)

definition pool_keys :: amm_keys where
  "pool_keys =
     \<lparr> ak_amm_pool = replicate 32 10, ak_amm_coin_mint = replicate 32 13,
       ak_amm_pc_mint = replicate 32 14,
       ak_amm_authority = take 32 (AUTHORITY_AMM @ [254] @ RAYDIUM_AMM_PROGRAM_ID std_crates),
       ak_amm_target = replicate 32 19, ak_amm_coin_vault = replicate 32 11,
       ak_amm_pc_vault = replicate 32 12, ak_amm_lp_mint = replicate 32 15, ak_nonce = 254 \<rparr>"

text \<open>A venue with the given reserves and a fee of 25 in 10000.\<close>

definition raydium_sample :: "u64 \<Rightarrow> u64 \<Rightarrow> raydium_venue" where
  "raydium_sample pc coin =
     \<lparr> rv_amm_keys = pool_keys,
       rv_calculate_result = Some \<lparr> cr_pool_pc_vault_amount = pc, cr_pool_coin_vault_amount = coin,
         cr_pool_lp_amount = 1000, cr_swap_fee_numerator = 25, cr_swap_fee_denominator = 10000 \<rparr>,
       rv_pc_balance = pc, rv_coin_balance = coin,
       rv_required_state_pubkeys = amm_key_list pool_keys, rv_found_all_pubkeys = True,
       rv_token_info = [token_info_default\<lparr> ti_pubkey := replicate 32 13 \<rparr>,
         token_info_default\<lparr> ti_pubkey := replicate 32 14 \<rparr>] \<rparr>"

definition sell_coin :: "swap_type \<Rightarrow> u64 \<Rightarrow> quote_request" where
  "sell_coin t amount = \<lparr> rq_input_mint = replicate 32 13, rq_output_mint = replicate 32 14,
     rq_amount = amount, rq_swap_type = t \<rparr>"

lemma sell_coin_direction: "raydium_direction (raydium_sample pc coin) (sell_coin t amount) = Ok Coin2PC"
  by (simp add: raydium_direction_def raydium_sample_def pool_keys_def sell_coin_def)

lemma raydium_sample_simps [simp]:
  "rv_amm_keys (raydium_sample pc coin) = pool_keys" "rv_pc_balance (raydium_sample pc coin) = pc"
  "rv_coin_balance (raydium_sample pc coin) = coin"
  by (simp_all add: raydium_sample_def)

lemma raydium_sample_calc:
  "rv_calculate_result (raydium_sample pc coin) =
     Some \<lparr> cr_pool_pc_vault_amount = pc, cr_pool_coin_vault_amount = coin, cr_pool_lp_amount = 1000,
            cr_swap_fee_numerator = 25, cr_swap_fee_denominator = 10000 \<rparr>"
  by (simp add: raydium_sample_def)

lemma sell_coin_simps [simp]:
  "rq_amount (sell_coin t a) = a" "rq_swap_type (sell_coin t a) = t"
  "rq_input_mint (sell_coin t a) = replicate 32 13" "rq_output_mint (sell_coin t a) = replicate 32 14"
  by (simp_all add: sell_coin_def)

lemmas sample_quote = quote_positive_eq [OF raydium_sample_calc sell_coin_direction]

lemma sample_exact_in:
  assumes "amount \<noteq> 0" "unat coin + unat amount < 2 ^ 64"
    "exact_in_spec (unat coin) (unat pc) 25 10000 (unat amount) = Ok (unat out)" "unat out < unat pc"
  shows "\<exists>q. raydium_quote std_amm (raydium_sample pc coin) (sell_coin ExactIn amount) = Ok q \<and>
    qr_expected_output q = out"
  using assms by (simp add: sample_quote vault_overflows_def std_amm.exact_in_eq)

text \<open>Selling a million coin atoms into a pool of 5 and 30 trillion: 166249 come out.\<close>

lemma sample_sells:
  "\<exists>q. raydium_quote std_amm (raydium_sample 5000000000000 30000000000000)
     (sell_coin ExactIn 1000000) = Ok q \<and> qr_expected_output q = 166249"
  by (rule sample_exact_in)
    (simp_all add: exact_in_spec_def curve_fee_def ceil_or_near_def ceil_quot_def curve_out_def Let_def)

lemma sample_sells_more:
  "\<exists>q. raydium_quote std_amm (raydium_sample 5000000000000 30000000000000)
     (sell_coin ExactIn 2000000) = Ok q \<and> qr_expected_output q = 332499"
  by (rule sample_exact_in)
    (simp_all add: exact_in_spec_def curve_fee_def ceil_or_near_def ceil_quot_def curve_out_def Let_def)

lemma raydium_exact_in_quote_witness:
  "\<exists>q fee. raydium_quote std_amm (raydium_sample 5000000000000 30000000000000)
     (sell_coin ExactIn 1000000) = Ok q \<and> 0 < fee \<and>
     unat (qr_expected_output q) = 5000000000000 * (1000000 - fee) div (30000000000000 + (1000000 - fee))"
proof -
  obtain q where q: "raydium_quote std_amm (raydium_sample 5000000000000 30000000000000)
      (sell_coin ExactIn 1000000) = Ok q" using sample_sells by blast
  from raydium_exact_in_quote [OF std_amm.amm_laws_axioms q] q sell_coin_direction show ?thesis
    by (auto simp: raydium_sample_calc)
qed

lemma raydium_product_never_falls_witness:
  "\<exists>q. raydium_quote std_amm (raydium_sample 5000000000000 30000000000000)
      (sell_coin ExactIn 1000000) = Ok q \<and>
    (30000000000000 :: nat) * 5000000000000 \<le>
      (30000000000000 + 1000000) * (5000000000000 - unat (qr_expected_output q))"
proof -
  obtain q where q: "raydium_quote std_amm (raydium_sample 5000000000000 30000000000000)
      (sell_coin ExactIn 1000000) = Ok q" using sample_sells by blast
  from raydium_product_never_falls [OF std_amm.amm_laws_axioms q _ raydium_sample_calc sell_coin_direction]
    q show ?thesis by auto
qed

lemma raydium_output_monotone_witness:
  "\<exists>q q'. raydium_quote std_amm (raydium_sample 5000000000000 30000000000000)
      (sell_coin ExactIn 1000000) = Ok q \<and>
    raydium_quote std_amm (raydium_sample 5000000000000 30000000000000)
      (sell_coin ExactIn 2000000) = Ok q' \<and>
    qr_expected_output q \<le> qr_expected_output q'"
proof -
  obtain q q' where q: "raydium_quote std_amm (raydium_sample 5000000000000 30000000000000)
      (sell_coin ExactIn 1000000) = Ok q"
    "raydium_quote std_amm (raydium_sample 5000000000000 30000000000000)
      (sell_coin ExactIn 2000000) = Ok q'"
    using sample_sells sample_sells_more by blast
  from raydium_output_monotone [OF std_amm.amm_laws_axioms q] q show ?thesis
    by (auto simp: word_le_nat_alt)
qed

text \<open>An empty input reserve, and a fee of the single atom: the quote panics.\<close>

lemma raydium_exact_in_panics_iff_witness:
  "raydium_quote std_amm ((raydium_sample 1000 0)\<lparr> rv_calculate_result :=
      Some \<lparr> cr_pool_pc_vault_amount = 1000, cr_pool_coin_vault_amount = 0, cr_pool_lp_amount = 1000,
        cr_swap_fee_numerator = 1, cr_swap_fee_denominator = 2 \<rparr> \<rparr>) (sell_coin ExactIn 1) = Panic"
    (is "raydium_quote _ ?v _ = _")
proof -
  have "raydium_direction ?v (sell_coin ExactIn 1) = Ok Coin2PC"
    by (simp add: raydium_direction_def pool_keys_def)
  from raydium_exact_in_panics_iff [OF std_amm.amm_laws_axioms _ _ this] show ?thesis
    by (simp add: vault_overflows_def ceil_or_near_def)
qed

lemma raydium_exact_out_panics_witness:
  "raydium_quote std_amm (raydium_sample 1000 1000) (sell_coin ExactOut 1000) = Panic"
  by (rule raydium_exact_out_panics [OF std_amm.amm_laws_axioms _ raydium_sample_calc sell_coin_direction])
    (simp_all add: vault_overflows_def)

lemma raydium_price_falls_witness:
  "\<exists>q q' p p'. raydium_quote std_amm (raydium_sample 5000000000000 30000000000000)
      (sell_coin ExactIn 1000000) = Ok q \<and>
    raydium_quote std_amm (raydium_sample 5000000000000 30000000000000)
      (sell_coin ExactIn 2000000) = Ok q' \<and>
    qr_price q = F64 p \<and> qr_price q' = F64 p' \<and> 0 < p' \<and> p' \<le> p"
proof -
  obtain q q' where q: "raydium_quote std_amm (raydium_sample 5000000000000 30000000000000)
      (sell_coin ExactIn 1000000) = Ok q"
    "raydium_quote std_amm (raydium_sample 5000000000000 30000000000000)
      (sell_coin ExactIn 2000000) = Ok q'"
    using sample_sells sample_sells_more by blast
  from raydium_price_falls [OF q _ _ _ raydium_sample_calc sell_coin_direction] q show ?thesis
    by (auto simp: word_le_nat_alt)
qed

text \<open>
  An exact-out quote can come out free: the ceiling division rounds a quotient below one half down
  to 0, so one atom out of a pool of 1000 against 10 is quoted for an input of 0 (reported in the
  field of the output).
\<close>

theorem raydium_exact_out_can_be_free:
  "\<exists>q. raydium_quote std_amm (raydium_sample 1000 10) (sell_coin ExactOut 1) = Ok q \<and>
    qr_amount q = 1 \<and> qr_expected_output q = 0"
proof -
  have "swap_exact_amount std_amm 1000 10 25 10000 Coin2PC 1 False = Ok 0"
    by (simp add: swap_exact_amount_def swap_token_amount_base_out_def U128_checked_ceil_div_def
        std_amm_ops checked_add_def checked_sub_def checked_mul_def checked_div_def checked_rem_def
        try_u64_def word_le_nat_alt)
  then show ?thesis
    by (simp add: sample_quote vault_overflows_def max_amount_with_slippage_def TEN_THOUSAND_def
        TEN_THOUSAND_U128_def checked_add_def checked_mul_def try_u64_def)
qed

text \<open>A refresh of the pool: vaults of 5050 pc and 30300 coin, of which 50 and 300 are pnl.\<close>

definition pool_accounts :: "u64 \<Rightarrow> account option list" where
  "pool_accounts status =
     [Some (pool_account status), Some (pool_vault 5050), Some (pool_vault 30300),
      Some mint_account, Some mint_account]"

lemma pool_chain_simps [simp]: "get_accounts (pool_chain accounts) ks = Ok accounts"
  by (simp add: pool_chain_def)

lemma sample_calculates:
  "calculate_pool_vault_amounts_from_accounts std_amm
     [Some (pool_account 6), Some (pool_vault 5050), Some (pool_vault 30300)] =
   Ok \<lparr> cr_pool_pc_vault_amount = 5000, cr_pool_coin_vault_amount = 30000,
        cr_pool_lp_amount = 1000, cr_swap_fee_numerator = 25, cr_swap_fee_denominator = 10000 \<rparr>"
  by (simp add: calculate_pool_vault_amounts_from_accounts_def slice_def get_slice_def
      std_amm.transmute try_array_def amm_info_size_eq amm_status_from_u64_def
      calc_total_without_take_pnl_no_orderbook_def pool_info_def checked_sub_def word_le_nat_alt)

lemma mint_account_reads: "\<exists>t. token_info_new std_crates k mint_account ep = Ok t"
  by (simp add: token_info_new_def mint_account_def std_ops)

lemma sample_updates:
  "\<exists>v'. raydium_update_state std_crates std_amm v (pool_chain (pool_accounts 6)) = (v', Ok ())"
proof -
  obtain t0 t1 where
    "token_info_new std_crates (ak_amm_coin_mint (rv_amm_keys v)) mint_account u64_max = Ok t0"
    "token_info_new std_crates (ak_amm_pc_mint (rv_amm_keys v)) mint_account u64_max = Ok t1"
    using mint_account_reads by metis
  moreover have "vault_balance (Some (pool_vault amount)) old = Ok amount" for amount old
    by (simp add: vault_balance_Some from_to_le_bytes)
  ultimately show ?thesis
    by (simp add: raydium_update_state_def pool_accounts_def try_five_def Let_def
        venue_update_state_step_2_def sample_calculates)
qed

lemma raydium_update_coherent_witness:
  "\<exists>v' cr t0 t1. raydium_update_state std_crates std_amm (raydium_sample 1 1) (pool_chain (pool_accounts 6))
      = (v', Ok ()) \<and> raydium_initialized v' \<and> rv_calculate_result v' = Some cr \<and>
    unat (rv_pc_balance v') = 50 + unat (cr_pool_pc_vault_amount cr) \<and>
    rv_token_info v' = [t0, t1] \<and>
    token_info_new std_crates (ak_amm_coin_mint pool_keys) mint_account u64_max = Ok t0"
proof -
  obtain v' where u: "raydium_update_state std_crates std_amm (raydium_sample 1 1)
      (pool_chain (pool_accounts 6)) = (v', Ok ())" using sample_updates by blast
  from raydium_update_coherent [OF std_amm.amm_laws_axioms this] obtain cr t0 t1 where
    "raydium_initialized v'" "rv_calculate_result v' = Some cr"
    "unat (rv_pc_balance v') = unat (sd_need_take_pnl_pc (ai_state_data (pool_info 6)))
      + unat (cr_pool_pc_vault_amount cr)"
    "token_info_new std_crates (ak_amm_coin_mint pool_keys) mint_account u64_max = Ok t0"
    "rv_token_info v' = [t0, t1]"
    by (auto simp: pool_accounts_def)
  with u show ?thesis by (auto simp: pool_info_def)
qed

lemma raydium_failed_update_tears_witness:
  "\<exists>v' e. raydium_update_state std_crates std_amm (raydium_sample 1000 1000)
      (pool_chain [None, Some (pool_vault 5), Some (pool_vault 7), None, None]) = (v', Err e) \<and>
    rv_pc_balance v' = 5 \<and> rv_coin_balance v' = 7 \<and>
    rv_calculate_result v' = rv_calculate_result (raydium_sample 1000 1000)"
  using raydium_failed_update_tears [of "pool_chain [None, Some (pool_vault 5),
      Some (pool_vault 7), None, None]" "raydium_sample 1000 1000" "pool_vault 5"
      "pool_vault 7" None None std_crates std_amm]
  by (auto simp: from_to_le_bytes)

lemma raydium_update_can_panic_witness:
  "snd (raydium_update_state std_crates std_amm (raydium_sample 1 1) (pool_chain (pool_accounts 8)))
    = Panic"
  by (rule raydium_update_can_panic [OF std_amm.amm_laws_axioms])
    (simp_all add: pool_accounts_def, simp_all add: pool_info_def)

lemma sample_created:
  "\<exists>v. raydium_from_account std_crates std_amm (replicate 32 10) (pool_account 6) = Ok v \<and>
    rv_amm_keys v = pool_keys"
proof -
  have "load_from_bytes std_amm (acc_data (pool_account 6)) = Ok (pool_info 6)"
    by (simp add: load_from_bytes_def std_amm.from_bytes try_array_def amm_info_size_eq)
  then show ?thesis
    by (simp add: raydium_from_account_def load_amm_keys_def authority_id_def std_amm_ops)
      (simp add: pool_info_def pool_keys_def AUTHORITY_AMM_def byte_str_def)
qed

lemma raydium_from_account_reads_pool_witness:
  "\<exists>v. raydium_from_account std_crates std_amm (replicate 32 10) (pool_account 6) = Ok v \<and>
    ak_amm_coin_mint (rv_amm_keys v) = replicate 32 13 \<and> \<not> raydium_initialized v"
proof -
  have "acc_data (pool_account 6) = amm_info_bytes (pool_info 6)" by (simp add: pool_account_def)
  from raydium_from_account_reads_pool [OF std_amm.amm_laws_axioms wf_pool_info this,
      where E = std_crates and pk = "replicate 32 10"]
  show ?thesis by (auto simp: std_amm_ops) (auto simp: pool_info_def)
qed

lemma raydium_from_account_can_panic_witness:
  "raydium_from_account std_crates std_amm (replicate 32 10) (pool_vault 5) = Panic"
  by (rule raydium_from_account_can_panic [OF std_amm.amm_laws_axioms]) simp

lemma raydium_reachable_well_formed_witness:
  "\<exists>v ks. raydium_reachable std_crates std_amm v \<and> raydium_required_pubkeys std_amm v = Ok ks \<and>
    distinct ks \<and> set ks = set (amm_key_list pool_keys)"
proof -
  obtain v where v: "raydium_from_account std_crates std_amm (replicate 32 10) (pool_account 6) = Ok v"
    "rv_amm_keys v = pool_keys" using sample_created by blast
  obtain v' where u: "raydium_update_state std_crates std_amm v (pool_chain (pool_accounts 6)) = (v', Ok ())"
    using sample_updates by blast
  have reach: "raydium_reachable std_crates std_amm v'"
    by (rule raydium_reachable.updated [OF raydium_reachable.created [OF v(1)] u])
  have "raydium_initialized v'" "rv_amm_keys v' = pool_keys"
    using u v(2) by (auto elim!: raydium_update_OkE simp: raydium_initialized_def)
  with raydium_reachable_well_formed [OF std_amm.amm_laws_axioms reach] reach show ?thesis by auto
qed

text \<open>The sample pool has bounds in both directions: selling a million coin atoms is possible.\<close>

lemma sample_bounds:
  "\<exists>lo hi. raydium_bounds std_crates std_amm (raydium_sample 5000000000000 30000000000000) 0 1
    = Some (Ok (lo, hi))"
proof -
  let ?v = "raydium_sample 5000000000000 30000000000000"
  let ?f = "\<lambda>x. raydium_quote std_amm ?v (sell_coin ExactIn x)"
  have np: "no_quote_panics ?f"
    by (auto simp: no_quote_panics_def std_amm.exact_in_quote_Panic_iff raydium_sample_calc
        sell_coin_direction)
  have "\<exists>q. ?f (word_of_nat (2 ^ 20)) = Ok q \<and> qr_expected_output q = 174325"
    by (simp, rule sample_exact_in)
      (simp_all add: exact_in_spec_def curve_fee_def ceil_or_near_def ceil_quot_def curve_out_def Let_def)
  moreover have "?f x = Ok q \<Longrightarrow> \<not> qr_not_enough_liquidity q" for x q
    by (cases "x = 0")
      (auto simp: sample_quote quote_zero_eq [OF raydium_sample_calc sell_coin_direction] split: if_splits)
  ultimately have "valid_at ?f (word_of_nat (2 ^ 20))" by (auto simp: valid_at_def valid_quote_def)
  then have "\<exists>i \<le> 63. valid_at ?f (word_of_nat (2 ^ i))" by (intro exI [of _ 20]) simp
  with np have "\<exists>lo hi. find_boundaries True ?f = Some (Ok (lo, hi))"
    by (cases rule: find_boundaries_cases [of True ?f]) auto
  then show ?thesis
    by (simp add: raydium_bounds_def venue_bounds_def get_token_def get_at_def std_ops sell_coin_def)
      (simp add: raydium_sample_def)
qed

lemma raydium_bounds_tradable_witness:
  "\<exists>lo hi q. raydium_bounds std_crates std_amm (raydium_sample 5000000000000 30000000000000) 0 1
      = Some (Ok (lo, hi)) \<and> 0 < lo \<and>
    raydium_quote std_amm (raydium_sample 5000000000000 30000000000000) (sell_coin ExactIn hi) = Ok q \<and>
    0 < qr_expected_output q"
proof -
  let ?v = "raydium_sample 5000000000000 30000000000000"
  obtain lo hi where b: "raydium_bounds std_crates std_amm ?v 0 1 = Some (Ok (lo, hi))"
    using sample_bounds by blast
  then have "lo \<le> hi" by (rule raydium_boundsE)
  from raydium_bounds_tradable [OF std_amm.amm_laws_axioms b this order.refl] b show ?thesis
    by (auto simp: get_token_def get_at_def sell_coin_def raydium_sample_def)
qed

lemma replicate_32_ne:
  "a \<noteq> b \<Longrightarrow> replicate 32 a \<noteq> b # xs" "a \<noteq> b \<Longrightarrow> replicate 32 a \<noteq> replicate 31 b @ xs"
proof -
  have r: "replicate 32 a = a # replicate 31 a" "replicate 31 b @ xs = b # replicate 30 b @ xs"
    by (simp_all flip: replicate_Suc append_Cons)
  show "a \<noteq> b \<Longrightarrow> replicate 32 a \<noteq> b # xs" "a \<noteq> b \<Longrightarrow> replicate 32 a \<noteq> replicate 31 b @ xs"
    unfolding r by simp_all
qed

lemma raydium_call_is_venue_instruction_witness:
  "\<exists>ix spec accounts infos. build_swap_leg (raydium_trading_venue std_crates std_amm (raydium_sample 1 1))
      (sell_coin ExactIn 1000) (replicate 32 7) 0 1 ROUTE_WEIGHT_ALL = Ok (spec, accounts) \<and>
    sp_n_accounts spec = 9 \<and> ix_program_id ix = RAYDIUM_AMM_PROGRAM_ID std_crates \<and>
    perform_cpi_swap std_crates still_runtime 1000 spec
      (leg_metas (replicate 32 7) (butlast infos)) infos [] world_sample
      = rt_invoke_signed still_runtime ix infos [] world_sample"
proof -
  let ?v = "raydium_sample 1 1" and ?rq = "sell_coin ExactIn 1000" and ?pda = "replicate 32 7 :: pubkey"
  obtain ix where ix: "raydium_generate_swap_instruction std_crates std_amm ?v ?rq ?pda = Ok ix"
    and keys: "?pda \<notin> am_pubkey ` set (butlast (ix_accounts ix))"
    by (simp add: raydium_generate_swap_instruction_def swap_v2_def swap_base_in_v2_def Let_def
        std_ops std_amm_ops pool_keys_def AUTHORITY_AMM_def byte_str_def replicate_32_ne)
  obtain spec accounts where leg: "build_swap_leg (raydium_trading_venue std_crates std_amm ?v) ?rq ?pda
      0 1 ROUTE_WEIGHT_ALL = Ok (spec, accounts)"
    using ix by (simp add: build_swap_leg_def protocol_to_venue_def raydium_trading_venue_def
        raydium_protocol_def Let_def)
  define infos where "infos = map (\<lambda>m. \<lparr> ai_key = am_pubkey m, ai_is_signer = am_is_signer m,
      ai_is_writable = am_is_writable m \<rparr>) accounts"
  have infos: "map (\<lambda>a. \<lparr> am_pubkey = ai_key a, am_is_signer = ai_is_signer a,
      am_is_writable = ai_is_writable a \<rparr>) infos = accounts"
    by (simp add: infos_def map_idI)
  have "ix_program_id ix = RAYDIUM_AMM_PROGRAM_ID std_crates" using ix by (rule raydium_ix_shape)
  with raydium_call_is_venue_instruction [OF leg ix infos keys, of still_runtime "[]" world_sample] leg show ?thesis by auto
qed

end
