(* ===== verification/Float64_Error.thy ===== *)
theory Float64_Error
  imports Float64
begin

text \<open>
  How far a computation in \<open>f64\<close> is from the exact one. One rounding changes a non-negative number by
  at most the factor \<open>ulp_factor\<close> either way; \<open>near k x y\<close> says that \<open>x\<close> and \<open>y\<close> are within its \<open>k\<close>-th
  power, and the rules count the roundings of products, quotients, sums and of a difference from 1.
\<close>

definition ulp_factor :: rat where "ulp_factor = 1 + 1 / 2 ^ 52"

definition near :: "nat \<Rightarrow> rat \<Rightarrow> rat \<Rightarrow> bool" where
  "near k x y \<longleftrightarrow> 0 \<le> x \<and> 0 \<le> y \<and> x \<le> y * ulp_factor ^ k \<and> y \<le> x * ulp_factor ^ k"

lemma ulp_factor_ge_1: "1 \<le> ulp_factor"
  by (simp add: ulp_factor_def)

lemma ulp_power_pos [simp]: "0 < ulp_factor ^ k"
  using ulp_factor_ge_1 by (intro zero_less_power) linarith

lemma near_nonneg: "near k x y \<Longrightarrow> 0 \<le> x \<and> 0 \<le> y"
  by (simp add: near_def)

lemma near_refl: "0 \<le> x \<Longrightarrow> near 0 x x"
  by (simp add: near_def)

lemma near_mono:
  assumes "near j x y" "j \<le> k"
  shows "near k x y"
proof -
  have "ulp_factor ^ j \<le> ulp_factor ^ k"
    using assms(2) ulp_factor_ge_1 by (rule power_increasing)
  with assms(1) show ?thesis
    unfolding near_def by (meson mult_left_mono order.trans)
qed

lemma near_trans:
  assumes "near j x y" "near k y z"
  shows "near (j + k) x z"
proof -
  have "x \<le> z * ulp_factor ^ k * ulp_factor ^ j" "z \<le> x * ulp_factor ^ j * ulp_factor ^ k"
    using assms unfolding near_def
    by (meson less_imp_le mult_right_mono order.trans ulp_power_pos)+
  with assms show ?thesis by (simp add: near_def power_add mult_ac)
qed

section \<open>Exact operations\<close>

lemma near_mult:
  assumes "near j x y" "near k x' y'"
  shows "near (j + k) (x * x') (y * y')"
proof -
  have "x * x' \<le> (y * ulp_factor ^ j) * (y' * ulp_factor ^ k)"
    "y * y' \<le> (x * ulp_factor ^ j) * (x' * ulp_factor ^ k)"
    using assms by (auto simp: near_def intro!: mult_mono)
  with assms show ?thesis by (simp add: near_def power_add mult_ac)
qed

lemma near_divide:
  assumes "near j x y" "near k x' y'" "0 < x'" "0 < y'"
  shows "near (j + k) (x / x') (y / y')"
proof -
  have bound: "a / a' \<le> b / b' * ulp_factor ^ (j + k)"
    if "0 \<le> b" "a \<le> b * ulp_factor ^ j" "b' \<le> a' * ulp_factor ^ k" "0 < a'" "0 < b'" for a b a' b'
  proof -
    have "a * b' \<le> (b * ulp_factor ^ j) * (a' * ulp_factor ^ k)"
      using that by (intro mult_mono) (simp_all add: less_imp_le)
    then show ?thesis using that by (simp add: field_simps power_add)
  qed
  show ?thesis
    using assms bound [of y x y' x'] bound [of x y x' y'] by (auto simp: near_def)
qed

lemma near_add:
  assumes "near k x y" "near k x' y'"
  shows "near k (x + x') (y + y')"
  using assms by (auto simp: near_def distrib_right intro: add_mono)

text \<open>
  A difference from 1 cancels, but a small number loses little: with at most an eighth, three
  roundings of the number are less than one of the difference.
\<close>

lemma near_one_minus:
  assumes "near 3 x y" "y \<le> 1 / 8"
  shows "near 1 (1 - x) (1 - y)"
proof -
  have c3: "ulp_factor ^ 3 \<le> 1 + 4 / 2 ^ 52" by (simp add: ulp_factor_def power3_eq_cube)
  have y: "0 \<le> y" and x: "0 \<le> x" "x \<le> y * ulp_factor ^ 3" "y \<le> x * ulp_factor ^ 3"
    using assms(1) by (auto simp: near_def)
  have "x \<le> y * (1 + 4 / 2 ^ 52)" "y \<le> x * (1 + 4 / 2 ^ 52)"
    using x y c3 by (meson mult_left_mono order.trans)+
  with y assms(2) show ?thesis by (simp add: near_def ulp_factor_def field_simps)
qed

section \<open>Rounded operations\<close>

lemma round_half_even_error: "\<bar>of_int (round_half_even q) - q\<bar> \<le> 1 / 2"
proof -
  have "of_int \<lfloor>q\<rfloor> \<le> q" "q < of_int \<lfloor>q\<rfloor> + 1" by linarith+
  then show ?thesis by (auto simp: round_half_even_def Let_def)
qed

lemma near_round:
  assumes "0 \<le> q"
  shows "near 1 (f64_round q) q"
proof (cases "q = 0")
  case True
  then show ?thesis by (simp add: near_def)
next
  case False
  with assms have q: "0 < q" by simp
  define e where "e = f64_exponent q"
  define u where "u = (2 :: rat) powi (e - 52)"
  have u: "0 < u" by (simp add: u_def)
  have e: "(2 :: rat) powi e = 2 ^ 52 * u" by (simp add: u_def power_int_diff)
  have r: "f64_round q = of_int (round_half_even (q / u)) * u"
    using q by (simp add: f64_round_def Let_def e_def u_def)
  have "\<bar>of_int (round_half_even (q / u)) - q / u\<bar> * u \<le> 1 / 2 * u"
    using u round_half_even_error by (intro mult_right_mono) auto
  moreover have "\<bar>of_int (round_half_even (q / u)) - q / u\<bar> * u = \<bar>f64_round q - q\<bar>"
    using u abs_mult [of "of_int (round_half_even (q / u)) - q / u" u] by (simp add: r left_diff_distrib)
  ultimately have "\<bar>f64_round q - q\<bar> \<le> u / 2" by simp
  then have err: "f64_round q \<le> q + u / 2" "q \<le> f64_round q + u / 2" by linarith+
  have "2 ^ 52 * u \<le> q" "2 ^ 52 * u \<le> f64_round q"
    using f64_exponent_bounds [OF q] f64_round_binade [OF q] by (simp_all add: e flip: e_def)
  with err u have "f64_round q \<le> q + q / 2 ^ 52" "q \<le> f64_round q + f64_round q / 2 ^ 52" by simp_all
  with q show ?thesis by (simp add: near_def ulp_factor_def distrib_left f64_round_nonneg)
qed

lemma near_sround: "near k x y \<Longrightarrow> near (k + 1) (f64_sround x) y"
  using near_trans [OF near_round [of x], of k y] near_nonneg [of k x y]
  by (simp add: f64_sround_def)

lemma near_f64_of_u64: "near 1 (f64_of_u64 n) (of_nat (unat n))"
  unfolding f64_of_u64_def by (rule near_round) (rule of_nat_0_le_iff)

lemma near_f64_mul: "near j x y \<Longrightarrow> near k x' y' \<Longrightarrow> near (j + k + 1) (f64_mul x x') (y * y')"
  unfolding f64_mul_def by (intro near_sround near_mult)

lemma near_f64_add: "near k x y \<Longrightarrow> near k x' y' \<Longrightarrow> near (k + 1) (f64_add x x') (y + y')"
  unfolding f64_add_def by (intro near_sround near_add)

lemma near_f64_div:
  "near j x y \<Longrightarrow> near k x' y' \<Longrightarrow> 0 < x' \<Longrightarrow> 0 < y' \<Longrightarrow> near (j + k + 1) (f64_div x x') (y / y')"
  using near_trans [OF near_round near_divide] near_nonneg [of j x y] by (simp add: f64_div_def)

lemma near_f64_one_minus: "near 3 x y \<Longrightarrow> y \<le> 1 / 8 \<Longrightarrow> near 2 (f64_sub 1 x) (1 - y)"
  using near_sround [OF near_one_minus] by (simp add: f64_sub_def numeral_2_eq_2)

end
