(* ===== verification/Raydium_Slope.thy ===== *)
theory Raydium_Slope
  imports Raydium_Properties Float64_Error
begin

text \<open>
  The third pricing requirement of \<open>TradingVenue::quote\<close>, for the Raydium example venue: the reported
  price brackets the average rate of every interval. On the real curve that is the mean value
  theorem; the quotes of the code are the curve at the input less the rounded-up fee, rounded down to
  atoms, and their prices are computed in \<open>f64\<close>, so that both roundings have to be allowed for.
\<close>

section \<open>The real curve\<close>

definition real_out :: "rat \<Rightarrow> rat \<Rightarrow> rat \<Rightarrow> rat" where
  "real_out x y t = y * t / (x + t)"

definition real_price :: "rat \<Rightarrow> rat \<Rightarrow> rat \<Rightarrow> rat \<Rightarrow> rat" where
  "real_price x y keep a = y * keep * x / ((x + keep * a) * (x + keep * a))"

lemma real_out_diff:
  assumes "0 < x" "0 \<le> s" "0 \<le> t"
  shows "real_out x y t - real_out x y s = y * x * (t - s) / ((x + t) * (x + s))"
proof -
  have "x + t \<noteq> 0" "x + s \<noteq> 0" using assms by linarith+
  then show ?thesis by (simp add: real_out_def field_simps)
qed

text \<open>The curve is concave: the chord lies between the two slopes.\<close>

lemma real_out_chord:
  assumes "0 < x" "0 \<le> y" "0 \<le> s" "s \<le> t"
  shows "real_out x y t - real_out x y s \<le> y * x / ((x + s) * (x + s)) * (t - s)"
    "y * x / ((x + t) * (x + t)) * (t - s) \<le> real_out x y t - real_out x y s"
proof -
  have d: "real_out x y t - real_out x y s = y * x * (t - s) / ((x + t) * (x + s))"
    using assms by (intro real_out_diff) auto
  have n: "0 \<le> y * x * (t - s)" using assms by simp
  have "(x + s) * (x + s) \<le> (x + t) * (x + s)" "(x + t) * (x + s) \<le> (x + t) * (x + t)"
    using assms by (simp_all add: mult_right_mono mult_left_mono)
  moreover have "0 < (x + s) * (x + s)" "0 < (x + t) * (x + s)" using assms by simp_all
  ultimately show "real_out x y t - real_out x y s \<le> y * x / ((x + s) * (x + s)) * (t - s)"
    "y * x / ((x + t) * (x + t)) * (t - s) \<le> real_out x y t - real_out x y s"
    using n by (simp_all add: d divide_left_mono)
qed

text \<open>One atom of input moves the real output by at most the ratio of the reserves.\<close>

lemma real_out_step:
  assumes "0 < x" "0 \<le> y" "0 \<le> s" "s \<le> t" "t \<le> s + 1"
  shows "real_out x y s \<le> real_out x y t \<and> real_out x y t \<le> real_out x y s + y / x"
proof -
  have "0 \<le> y * x / ((x + t) * (x + t)) * (t - s)" using assms by simp
  moreover have "y * x / ((x + s) * (x + s)) * (t - s) \<le> y / x * 1"
  proof (rule mult_mono)
    have "x * x \<le> (x + s) * (x + s)" using assms by (intro mult_mono) auto
    then have "y * x / ((x + s) * (x + s)) \<le> y * x / (x * x)"
      using assms by (intro divide_left_mono) auto
    then show "y * x / ((x + s) * (x + s)) \<le> y / x" using assms by simp
  qed (use assms in auto)
  ultimately show ?thesis
    using real_out_chord [OF assms(1-4)] by simp
qed

section \<open>Quotes and the real curve\<close>

text \<open>An output is the real curve at \<open>keep * amount\<close>, up to an atom of fee and an atom of output.\<close>

lemma curve_out_near:
  assumes "0 < x" "of_nat n \<le> t" "t \<le> of_nat n + 1"
  shows "of_nat (curve_out x y n) \<le> real_out (of_nat x) (of_nat y) t"
    "real_out (of_nat x) (of_nat y) t \<le> of_nat (curve_out x y n) + 1 + of_nat y / of_nat x"
proof -
  let ?F = "real_out (of_nat x) (of_nat y)"
  have f: "?F (of_nat n) = of_nat (y * n) / of_nat (x + n)" by (simp add: real_out_def)
  have "of_nat (curve_out x y n) \<le> ?F (of_nat n)"
    unfolding f curve_out_def by (rule of_nat_div_le_of_nat)
  moreover have "y * n \<le> (curve_out x y n + 1) * (x + n)"
    using assms(1) dividend_less_times_div [of "x + n" "y * n"]
    by (simp add: curve_out_def algebra_simps)
  then have "(of_nat (y * n) :: rat) \<le> of_nat ((curve_out x y n + 1) * (x + n))"
    by (simp only: of_nat_le_iff)
  then have "?F (of_nat n) \<le> of_nat (curve_out x y n) + 1"
    using assms(1) unfolding f by (simp add: pos_divide_le_eq distrib_right)
  moreover have "?F (of_nat n) \<le> ?F t \<and> ?F t \<le> ?F (of_nat n) + of_nat y / of_nat x"
    using assms by (intro real_out_step) auto
  ultimately show "of_nat (curve_out x y n) \<le> ?F t"
    "?F t \<le> of_nat (curve_out x y n) + 1 + of_nat y / of_nat x"
    by linarith+
qed

lemma after_fee_near:
  assumes "exact_in_spec x y num den a = Ok out"
  shows "of_nat (a - curve_fee num den a) \<le> (1 - of_nat num / of_nat den) * (of_nat a :: rat)"
    "(1 - of_nat num / of_nat den) * (of_nat a :: rat) \<le> of_nat (a - curve_fee num den a) + 1"
proof -
  note ok = exact_in_spec_Ok [OF assms]
  define fee where "fee = curve_fee num den a"
  have fee: "fee = ceil_quot (a * num) den" using ok(1,2) unfolding fee_def by (intro curve_fee_pos) simp_all
  have "a * num \<le> fee * den" using ceil_quot_ge [OF ok(1)] by (simp add: fee)
  moreover have "fee * den \<le> a * num + den"
  proof -
    have "fee * den \<le> a * num + den - 1" by (simp add: fee ceil_quot_def)
    then show ?thesis by simp
  qed
  ultimately have "(of_nat (a * num) :: rat) \<le> of_nat (fee * den)"
    "(of_nat (fee * den) :: rat) \<le> of_nat (a * num + den)"
    by (simp_all only: of_nat_le_iff)
  then have "of_nat a * (of_nat num / of_nat den) \<le> (of_nat fee :: rat)"
    "(of_nat fee :: rat) \<le> of_nat a * (of_nat num / of_nat den) + 1"
    using ok(1) by (simp_all add: field_simps)
  with ok(3) show "of_nat (a - curve_fee num den a) \<le> (1 - of_nat num / of_nat den) * (of_nat a :: rat)"
    "(1 - of_nat num / of_nat den) * (of_nat a :: rat) \<le> of_nat (a - curve_fee num den a) + 1"
    by (simp_all add: of_nat_diff left_diff_distrib right_diff_distrib mult.commute flip: fee_def)
qed

section \<open>The reported price\<close>

declare of_nat_unat [simp del]

lemma eighth:
  assumes "8 * n \<le> d"
  shows "of_nat n / of_nat d \<le> (1 / 8 :: rat)"
proof (cases "d = 0")
  case False
  have "(of_nat (8 * n) :: rat) \<le> of_nat d" using assms by (simp only: of_nat_le_iff)
  with False show ?thesis by (simp add: field_simps)
qed simp

text \<open>The price is eighteen roundings away from the slope of the real curve.\<close>

lemma amm_price_near:
  assumes "reserve_in cr dir \<noteq> 0" "8 * fee_num cr \<le> fee_den cr"
  shows "\<exists>p. amm_price cr dir a = F64 p \<and>
    near 18 p (real_price (of_nat (reserve_in cr dir)) (of_nat (reserve_out cr dir))
      (1 - of_nat (fee_num cr) / of_nat (fee_den cr)) (of_nat (unat a)))"
proof -
  let ?rx = "in_reserve dir (cr_pool_pc_vault_amount cr) (cr_pool_coin_vault_amount cr)"
  let ?ry = "out_reserve dir (cr_pool_pc_vault_amount cr) (cr_pool_coin_vault_amount cr)"
  define num den where nd: "num = cr_swap_fee_numerator cr" "den = cr_swap_fee_denominator cr"
  define rate :: rat where "rate = of_nat (fee_num cr) / of_nat (fee_den cr)"
  define X Y A :: rat where XY: "X = of_nat (reserve_in cr dir)" "Y = of_nat (reserve_out cr dir)"
    "A = of_nat (unat a)"
  define fee where "fee = (if den = 0 then 0 else f64_div (f64_of_u64 num) (f64_of_u64 den))"
  define keep x y where k: "keep = f64_sub 1 fee" "x = f64_of_u64 ?rx" "y = f64_of_u64 ?ry"
  define d where "d = f64_add x (f64_mul keep (f64_of_u64 a))"
  have nx: "near 1 x X" and ny: "near 1 y Y" and na: "near 1 (f64_of_u64 a) A"
    using near_f64_of_u64 by (simp_all add: k XY)
  have "near 3 fee rate"
  proof (cases "den = 0")
    case True
    then show ?thesis by (simp add: fee_def rate_def near_def flip: nd)
  next
    case False
    then have "0 < f64_of_u64 den" "(0 :: rat) < of_nat (unat den)"
      by (simp_all only: f64_of_u64_pos of_nat_0_less_iff unat_gt_0 not_False_eq_True)
    with near_f64_div [OF near_f64_of_u64 near_f64_of_u64] False show ?thesis
      by (simp add: fee_def rate_def numeral_3_eq_3 flip: nd)
  qed
  moreover have "rate \<le> 1 / 8" unfolding rate_def using assms(2) by (rule eighth)
  ultimately have nk: "near 2 keep (1 - rate)" unfolding k by (rule near_f64_one_minus)
  have X: "0 < X" using assms(1) by (simp add: XY)
  have "near 4 x X" using near_mono [OF nx] by simp
  moreover have "near 4 (f64_mul keep (f64_of_u64 a)) ((1 - rate) * A)"
    using near_f64_mul [OF nk na] by simp
  ultimately have nd4: "near 5 d (X + (1 - rate) * A)" using near_f64_add by (fastforce simp: d_def)
  have D: "0 < X + (1 - rate) * A"
  proof -
    have "0 \<le> (1 - rate) * A" using near_nonneg [OF nk] near_nonneg [OF na] by simp
    with X show ?thesis by linarith
  qed
  then have "0 < d" using nd4 by (auto simp: near_def zero_less_mult_iff intro: ccontr)
  then have dd: "0 < f64_mul d d" by (simp add: f64_mul_def f64_sround_pos)
  have n1: "near 11 (f64_mul d d) ((X + (1 - rate) * A) * (X + (1 - rate) * A))"
    using near_f64_mul [OF nd4 nd4] by simp
  have n2: "near 6 (f64_mul (f64_mul y keep) x) (Y * (1 - rate) * X)"
    using near_f64_mul [OF near_f64_mul [OF ny nk] nx] by (simp add: eval_nat_numeral)
  have "near 18 (f64_sround (f64_mul (f64_mul y keep) x / f64_mul d d))
      (Y * (1 - rate) * X / ((X + (1 - rate) * A) * (X + (1 - rate) * A)))"
    using near_sround [OF near_divide [OF n2 n1 dd]] D by simp
  moreover have "amm_price cr dir a = f64_quotient (f64_mul (f64_mul y keep) x) (f64_mul d d)"
    by (cases dir) (simp_all add: amm_price_def Let_def k fee_def d_def nd)
  ultimately show ?thesis
    using dd by (simp add: f64_quotient_def real_price_def XY rate_def)
qed

section \<open>The bracket\<close>

lemma ulp_power_18: "ulp_factor ^ 18 \<le> 1 + 1 / 2 ^ 47"
  by (simp add: ulp_factor_def power_divide field_simps)

text \<open>A quote of any amount, zero included, beside the real curve.\<close>

lemma exact_in_near:
  assumes "amm_laws R" "raydium_quote R v rq = Ok q" "rq_swap_type rq = ExactIn"
    and v: "rv_calculate_result v = Some cr" "raydium_direction v rq = Ok dir"
    and "reserve_in cr dir \<noteq> 0"
  defines "t \<equiv> (1 - of_nat (fee_num cr) / of_nat (fee_den cr)) * (of_nat (unat (rq_amount rq)) :: rat)"
    and "X \<equiv> of_nat (reserve_in cr dir)" and "Y \<equiv> of_nat (reserve_out cr dir)"
  shows "of_nat (unat (qr_expected_output q)) \<le> real_out X Y t"
    "real_out X Y t \<le> of_nat (unat (qr_expected_output q)) + 1 + Y / X"
    "qr_price q = amm_price cr dir (rq_amount rq)"
proof -
  have price: "qr_price q = amm_price cr dir (rq_amount rq) \<and>
      (rq_amount rq = 0 \<longrightarrow> qr_expected_output q = 0)"
    using assms(2) v
    by (cases "rq_amount rq = 0") (auto simp: quote_zero_eq quote_positive_eq split: if_splits)
  then show "qr_price q = amm_price cr dir (rq_amount rq)" by simp
  show "of_nat (unat (qr_expected_output q)) \<le> real_out X Y t"
    "real_out X Y t \<le> of_nat (unat (qr_expected_output q)) + 1 + Y / X"
  proof (atomize(full), cases "rq_amount rq = 0")
    case True
    with price show "of_nat (unat (qr_expected_output q)) \<le> real_out X Y t \<and>
        real_out X Y t \<le> of_nat (unat (qr_expected_output q)) + 1 + Y / X"
      by (simp add: t_def real_out_def X_def Y_def)
  next
    case False
    from assms(2,3) False obtain cr' dir' where "rv_calculate_result v = Some cr'"
        "raydium_direction v rq = Ok dir'"
      and spec: "exact_in_spec (reserve_in cr' dir') (reserve_out cr' dir') (fee_num cr') (fee_den cr')
        (unat (rq_amount rq)) = Ok (unat (qr_expected_output q))"
      by (rule amm_laws.exact_in_quoteE [OF assms(1)])
    then have "exact_in_spec (reserve_in cr dir) (reserve_out cr dir) (fee_num cr) (fee_den cr)
        (unat (rq_amount rq)) = Ok (unat (qr_expected_output q))"
      using v by simp
    note near = after_fee_near [OF this] exact_in_spec_Ok(5) [OF this]
    from assms(6) have x: "0 < reserve_in cr dir" by simp
    from curve_out_near [OF x near(1,2)] show "of_nat (unat (qr_expected_output q)) \<le> real_out X Y t \<and>
        real_out X Y t \<le> of_nat (unat (qr_expected_output q)) + 1 + Y / X"
      unfolding near(3) t_def X_def Y_def by blast
  qed
qed

text \<open>
  C17. The reported price brackets the average rate, as the contract of \<open>quote\<close> asks, up to rounding: on
  a pool with an input reserve and a fee of at most an eighth, what an amount gives more than a smaller
  one is at most the price at the smaller amount times the difference and at least the price at the
  larger amount times it, where the prices carry a relative error of \<open>2 ^ -47\<close> and the outputs one atom
  of their own and what one atom of fee can buy.
\<close>

theorem raydium_price_brackets_rate:
  assumes "amm_laws R" "raydium_quote R v rq = Ok q" "raydium_quote R v rq' = Ok q'"
    and "rq_swap_type rq = ExactIn" "rq_swap_type rq' = ExactIn"
    and "rq_input_mint rq = rq_input_mint rq'" "rq_output_mint rq = rq_output_mint rq'"
    and "rq_amount rq \<le> rq_amount rq'"
    and "rv_calculate_result v = Some cr" "raydium_direction v rq = Ok dir"
    and "reserve_in cr dir \<noteq> 0" "8 * fee_num cr \<le> fee_den cr"
  shows "\<exists>p p'. qr_price q = F64 p \<and> qr_price q' = F64 p' \<and>
    (let gain = of_nat (unat (qr_expected_output q')) - of_nat (unat (qr_expected_output q)) :: rat;
         step = of_nat (unat (rq_amount rq')) - of_nat (unat (rq_amount rq)) :: rat;
         slack = 1 + of_nat (reserve_out cr dir) / of_nat (reserve_in cr dir) :: rat
     in gain \<le> (1 + 1 / 2 ^ 47) * p * step + slack \<and>
        p' * step \<le> (1 + 1 / 2 ^ 47) * (gain + slack))"
proof -
  define gain step slack :: rat where
    "gain = of_nat (unat (qr_expected_output q')) - of_nat (unat (qr_expected_output q))"
    and "step = of_nat (unat (rq_amount rq')) - of_nat (unat (rq_amount rq))"
    and "slack = 1 + of_nat (reserve_out cr dir) / of_nat (reserve_in cr dir)"
  note defs = this
  define keep :: rat where "keep = 1 - of_nat (fee_num cr) / of_nat (fee_den cr)"
  define X Y :: rat where XY: "X = of_nat (reserve_in cr dir)" "Y = of_nat (reserve_out cr dir)"
  define a b :: rat where ab: "a = of_nat (unat (rq_amount rq))" "b = of_nat (unat (rq_amount rq'))"
  have dir': "raydium_direction v rq' = Ok dir"
    using assms(10) raydium_direction_cong [OF assms(6,7), of v] by simp
  note near = exact_in_near [OF assms(1,2,4,9,10,11)] and near' = exact_in_near [OF assms(1,3,5,9) dir' assms(11)]
  obtain p p' where p: "qr_price q = F64 p" "near 18 p (real_price X Y keep a)"
    and p': "qr_price q' = F64 p'" "near 18 p' (real_price X Y keep b)"
    using amm_price_near [OF assms(11,12)] unfolding near(3) near'(3) XY ab keep_def by metis
  have "0 \<le> keep" using eighth [OF assms(12)] unfolding keep_def by linarith
  with assms(8,11) have pos: "0 < X" "0 \<le> Y" "0 \<le> keep" "0 \<le> a" "a \<le> b"
    by (simp_all add: XY ab word_le_nat_alt)
  then have "keep * a \<le> keep * b" "0 \<le> keep * a" by (simp_all add: mult_left_mono)
  note chord = real_out_chord [OF pos(1,2) this(2,1)]
  have step: "step = b - a" "0 \<le> step" using pos(5) by (simp_all add: defs ab)
  have slope: "Y * X / ((X + keep * t) * (X + keep * t)) * (keep * b - keep * a) = real_price X Y keep t * step" for t
    by (simp add: real_price_def step right_diff_distrib diff_divide_distrib mult_ac)
  have outs: "real_out X Y (keep * b) - real_out X Y (keep * a) \<le> gain + slack"
    "gain \<le> real_out X Y (keep * b) - real_out X Y (keep * a) + slack"
    using near(1,2) near'(1,2) unfolding defs XY keep_def ab by linarith+
  have "real_price X Y keep a * step \<le> (1 + 1 / 2 ^ 47) * p * step"
  proof (rule mult_right_mono [OF _ step(2)])
    have "real_price X Y keep a \<le> p * ulp_factor ^ 18" "0 \<le> p" using p(2) by (simp_all add: near_def)
    with ulp_power_18 show "real_price X Y keep a \<le> (1 + 1 / 2 ^ 47) * p"
      by (metis mult.commute mult_left_mono order.trans)
  qed
  moreover have "p' * step \<le> (1 + 1 / 2 ^ 47) * (real_price X Y keep b * step)"
  proof -
    have "p' \<le> real_price X Y keep b * ulp_factor ^ 18" "0 \<le> real_price X Y keep b"
      using p'(2) by (simp_all add: near_def)
    with ulp_power_18 have "p' \<le> (1 + 1 / 2 ^ 47) * real_price X Y keep b"
      by (metis mult.commute mult_left_mono order.trans)
    from mult_right_mono [OF this step(2)] show ?thesis by (simp only: mult.assoc)
  qed
  moreover have "(1 + 1 / 2 ^ 47) * (real_price X Y keep b * step) \<le> (1 + 1 / 2 ^ 47) * (gain + slack)"
    using chord(2) outs(1) unfolding slope by (intro mult_left_mono) auto
  moreover have "gain \<le> real_price X Y keep a * step + slack"
    using chord(1) outs(2) unfolding slope by linarith
  ultimately have "gain \<le> (1 + 1 / 2 ^ 47) * p * step + slack"
    "p' * step \<le> (1 + 1 / 2 ^ 47) * (gain + slack)" by linarith+
  with p(1) p'(1) show ?thesis unfolding Let_def defs by blast
qed

text \<open>
  At the sample pool: a second million coin atoms gives 166250 more pc atoms, which lies between the
  two prices times a million, with an atom and a sixth to spare.
\<close>

lemma raydium_price_brackets_rate_witness:
  "\<exists>q q' p p'. raydium_quote std_amm (raydium_sample 5000000000000 30000000000000)
      (sell_coin ExactIn 1000000) = Ok q \<and>
    raydium_quote std_amm (raydium_sample 5000000000000 30000000000000)
      (sell_coin ExactIn 2000000) = Ok q' \<and>
    qr_price q = F64 p \<and> qr_price q' = F64 p' \<and>
    166250 \<le> (1 + 1 / 2 ^ 47) * p * 1000000 + 7 / 6 \<and>
    p' * 1000000 \<le> (1 + 1 / 2 ^ 47) * (166250 + 7 / 6)"
proof -
  obtain q q' where q: "raydium_quote std_amm (raydium_sample 5000000000000 30000000000000)
      (sell_coin ExactIn 1000000) = Ok q" "qr_expected_output q = 166249"
    "raydium_quote std_amm (raydium_sample 5000000000000 30000000000000)
      (sell_coin ExactIn 2000000) = Ok q'" "qr_expected_output q' = 332499"
    using sample_sells sample_sells_more by blast
  from raydium_price_brackets_rate [OF std_amm.amm_laws_axioms q(1,3) _ _ _ _ _
      raydium_sample_calc sell_coin_direction] q show ?thesis
    by (auto simp: word_le_nat_alt Let_def)
qed

end
