(* ===== verification/Price_Rates.thy ===== *)
theory Price_Rates
  imports Prices Float64_Error
begin

text \<open>
  What the piecewise prices of the Overpass venue say about the quotes they are computed from
  (\<open>price_parts\<close> of \<open>src/src/your_venue/mod.rs\<close>): the price at an edge covers the average rate to every
  later edge, and every price is the rate of some window, up to the three roundings of a slope.
\<close>

definition window_slope :: "(u64 \<Rightarrow> u64) \<Rightarrow> u64 \<times> u64 \<Rightarrow> f64" where
  "window_slope out = (\<lambda>(a, b). f64_div (f64_of_u64 (out b - out a)) (f64_of_u64 (b - a)))"

section \<open>The slopes\<close>

text \<open>Where every edge is quoted, the parts are the rising windows with their slopes.\<close>

lemma slope_parts_rising:
  assumes "\<forall>(a, b) \<in> set ws. a < b \<and> quote a = Ok (Some (out a)) \<and> quote b = Ok (Some (out b))"
  shows "slope_parts chk quote ws =
    Ok (map (\<lambda>w. (fst w, window_slope out w)) (filter (\<lambda>(a, b). out a < out b) ws))"
  using assms
  by (induction ws) (auto simp: window_slope_def plain_sub_def)

lemma windows2_mem: "(a, b) \<in> set (windows2 xs) \<Longrightarrow> a \<in> set xs \<and> b \<in> set xs"
  unfolding windows2_def by (metis list.set_sel(2) list.sel(2) set_zip_leftD set_zip_rightD)

lemma ulp_power_3: "ulp_factor ^ 3 \<le> 1 + 1 / 2 ^ 50"
  by (simp add: ulp_factor_def power3_eq_cube)

text \<open>A slope is the average rate of its window, up to three roundings.\<close>

lemma window_slope_near:
  assumes "a < b" "out a < out b"
  shows "near 3 (window_slope out (a, b))
    ((of_nat (unat (out b)) - of_nat (unat (out a))) / (of_nat (unat b) - of_nat (unat a)))"
proof -
  have diff: "of_nat (unat (y - x)) = (of_nat (unat y) - of_nat (unat x) :: rat)" if "x < y" for x y :: u64
  proof -
    have "unat (y - x) = unat y - unat x" "unat x \<le> unat y"
      using that by (simp_all add: unat_sub word_less_nat_alt order.strict_implies_order word_le_nat_alt)
    then show ?thesis by (simp only: of_nat_diff)
  qed
  have "b - a \<noteq> 0" using assms(1) by auto
  then have pos: "0 < f64_of_u64 (b - a)" "(0 :: rat) < of_nat (unat (b - a))"
    by (simp_all only: f64_of_u64_pos of_nat_0_less_iff unat_gt_0 not_False_eq_True)
  have "near (1 + 1 + 1) (window_slope out (a, b)) (of_nat (unat (out b - out a)) / of_nat (unat (b - a)))"
    unfolding window_slope_def prod.case by (rule near_f64_div [OF near_f64_of_u64 near_f64_of_u64 pos])
  then show ?thesis unfolding diff [OF assms(1)] diff [OF assms(2)] by (simp add: numeral_3_eq_3)
qed

text \<open>The same as inequalities on the gain.\<close>

lemma window_slope_bounds:
  assumes "a < b" "out a < out b"
  defines "gain \<equiv> of_nat (unat (out b)) - of_nat (unat (out a)) :: rat"
    and "step \<equiv> of_nat (unat b) - of_nat (unat a) :: rat"
  shows "gain \<le> (1 + 1 / 2 ^ 50) * window_slope out (a, b) * step"
    "window_slope out (a, b) * step \<le> (1 + 1 / 2 ^ 50) * gain" "0 < step" "0 < gain"
    "0 \<le> window_slope out (a, b)"
proof -
  have "(of_nat (unat a) :: rat) < of_nat (unat b)" "(of_nat (unat (out a)) :: rat) < of_nat (unat (out b))"
    using assms(1,2) by (simp_all only: of_nat_less_iff word_less_nat_alt)
  then show step: "0 < step" and gain: "0 < gain" by (simp_all add: step_def gain_def)
  have near: "near 3 (window_slope out (a, b)) (gain / step)"
    unfolding gain_def step_def using assms(1,2) by (rule window_slope_near)
  then show s: "0 \<le> window_slope out (a, b)" by (simp add: near_def)
  have "gain / step \<le> window_slope out (a, b) * ulp_factor ^ 3"
    "window_slope out (a, b) \<le> gain / step * ulp_factor ^ 3" using near by (simp_all add: near_def)
  moreover have "window_slope out (a, b) * ulp_factor ^ 3 \<le> window_slope out (a, b) * (1 + 1 / 2 ^ 50)"
    using ulp_power_3 s by (rule mult_left_mono)
  moreover have "gain / step * ulp_factor ^ 3 \<le> gain / step * (1 + 1 / 2 ^ 50)"
    using ulp_power_3 by (rule mult_left_mono) (use gain step in simp)
  ultimately have "gain / step \<le> window_slope out (a, b) * (1 + 1 / 2 ^ 50)"
    "window_slope out (a, b) \<le> gain / step * (1 + 1 / 2 ^ 50)" by linarith+
  then show "gain \<le> (1 + 1 / 2 ^ 50) * window_slope out (a, b) * step"
    "window_slope out (a, b) * step \<le> (1 + 1 / 2 ^ 50) * gain"
    using step by (simp_all add: pos_divide_le_eq pos_le_divide_eq mult_ac)
qed

section \<open>Levelling\<close>

lemma level_prices_hd:
  "parts \<noteq> [] \<Longrightarrow> \<exists>p rest. level_prices parts = (fst (hd parts), p) # rest \<and> snd (hd parts) \<le> p"
  by (cases parts rule: level_prices.cases) (auto simp: Let_def)

text \<open>Levelling never lowers a price, and every price it leaves is one of those it was given.\<close>

lemma level_prices_ge: "(c, p) \<in> set parts \<Longrightarrow> \<exists>p' \<ge> p. (c, p') \<in> set (level_prices parts)"
proof (induction parts rule: level_prices.induct)
  case (3 c0 p0 part rest)
  define nxt where "nxt = snd (hd (level_prices (part # rest)))"
  have eq: "level_prices ((c0, p0) # part # rest) =
      (c0, if p0 < nxt then nxt else p0) # level_prices (part # rest)"
    by (simp add: Let_def nxt_def)
  show ?case
  proof (cases "(c, p) = (c0, p0)")
    case True
    then show ?thesis unfolding eq by (intro exI [of _ "if p0 < nxt then nxt else p0"]) auto
  next
    case False
    with 3 show ?thesis unfolding eq by auto
  qed
qed auto

lemma level_prices_from: "(c, p) \<in> set (level_prices parts) \<Longrightarrow> p \<in> snd ` set parts"
proof (induction parts arbitrary: c p rule: level_prices.induct)
  case (3 c0 p0 part rest)
  obtain q qs where q: "level_prices (part # rest) = q # qs"
    using level_prices_fst [of "part # rest"] by (cases "level_prices (part # rest)") auto
  have "snd q \<in> snd ` set (part # rest)" using "3.IH" [of "fst q" "snd q"] q by simp
  with "3.IH" "3.prems" q show ?case by (auto simp: Let_def split: if_splits)
qed auto

text \<open>At a breakpoint the price is that of its part.\<close>

lemma price_at_break: "parts_ok parts \<Longrightarrow> (c, p) \<in> set parts \<Longrightarrow> price_at parts c = p"
proof (induction parts)
  case (Cons part rest)
  from Cons.prems(1) have rest: "parts_ok rest" and above: "\<forall>q \<in> set rest. fst part < fst q"
    by (auto simp: parts_ok_def)
  show ?case
  proof (cases "(c, p) \<in> set rest")
    case True
    with Cons.IH [OF rest] show ?thesis by (cases part) auto
  next
    case False
    with Cons.prems(2) above show ?thesis by (cases part) (auto simp: not_le)
  qed
qed simp

section \<open>Average rates\<close>

text \<open>A bound on the rate of every window from \<open>a\<close> on is one on the rate between edges.\<close>

lemma windows_telescope:
  fixes g h :: "u64 \<Rightarrow> rat"
  assumes "sorted_wrt (<) es" "\<forall>(u, v) \<in> set (windows2 es). a \<le> u \<longrightarrow> g v - g u \<le> K * (h v - h u)"
    and "a \<in> set es" "b \<in> set es" "a \<le> b"
  shows "g b - g a \<le> K * (h b - h a)"
  using assms
proof (induction es arbitrary: a rule: induct_list012)
  case (3 x y zs)
  have rest: "sorted_wrt (<) (y # zs)" and x: "\<forall>e \<in> set (y # zs). x < e" using "3.prems"(1) by auto
  show ?case
  proof (cases "a = x")
    case False
    with "3.prems" x have "a \<in> set (y # zs)" "b \<in> set (y # zs)" by auto
    with "3.IH"(2) [OF rest, of a] "3.prems"(2,5) show ?thesis by simp
  next
    case a: True
    show ?thesis
    proof (cases "b = x")
      case False
      with "3.prems"(4) have b: "b \<in> set (y # zs)" by simp
      have "y \<le> b" using b rest by auto
      have "\<forall>(u, v) \<in> set (windows2 (y # zs)). y \<le> u \<longrightarrow> g v - g u \<le> K * (h v - h u)"
      proof (clarify)
        fix u v assume uv: "(u, v) \<in> set (windows2 (y # zs))"
        from windows2_mem [OF this] x a have "a \<le> u" by (auto intro: less_imp_le)
        with "3.prems"(2) uv show "g v - g u \<le> K * (h v - h u)" by auto
      qed
      with "3.IH"(2) [OF rest _ _ b \<open>y \<le> b\<close>] have "g b - g y \<le> K * (h b - h y)" by simp
      moreover have "g y - g x \<le> K * (h y - h x)" using "3.prems"(2) a by simp
      ultimately show ?thesis using a by (simp add: algebra_simps)
    qed (simp add: a)
  qed
qed simp_all

text \<open>
  C23. The prices cover the quotes they come from: where the quoting function answers at every edge, the
  price at an edge times the distance to a later edge is at least what the later edge is quoted more,
  and a price that is not zero is the rate of some window between neighbouring edges, both up to a
  relative error of \<open>2 ^ -50\<close>.
\<close>

theorem price_covers_average_rate:
  assumes "price_parts chk (Some (lb, ub)) quote = Ok parts" "lb < ub"
    and "\<And>e. e \<in> set (price_edges lb ub) \<Longrightarrow> quote e = Ok (Some (out e))"
    and "a \<in> set (price_edges lb ub)" "b \<in> set (price_edges lb ub)" "a \<le> b"
  shows "of_nat (unat (out b)) - of_nat (unat (out a)) \<le>
      (1 + 1 / 2 ^ 50) * price_at parts a * (of_nat (unat b) - of_nat (unat a)) \<and>
    (price_at parts x = 0 \<or> (\<exists>c d. (c, d) \<in> set (windows2 (price_edges lb ub)) \<and> out c < out d \<and>
      price_at parts x * (of_nat (unat d) - of_nat (unat c)) \<le>
        (1 + 1 / 2 ^ 50) * (of_nat (unat (out d)) - of_nat (unat (out c))) \<and>
      of_nat (unat (out d)) - of_nat (unat (out c)) \<le>
        (1 + 1 / 2 ^ 50) * price_at parts x * (of_nat (unat d) - of_nat (unat c))))"
proof
  let ?es = "price_edges lb ub"
  define rising where "rising = filter (\<lambda>(a, b). out a < out b) (windows2 ?es)"
  define slopes where "slopes = map (\<lambda>w. (fst w, window_slope out w)) rising"
  have sorted: "sorted_wrt (<) ?es" by (rule strict_sorted_edges)
  have windows: "\<forall>(u, v) \<in> set (windows2 ?es). u < v" by (rule windows2_increasing(1) [OF sorted])
  have "slope_parts chk quote (windows2 ?es) = Ok slopes"
    unfolding slopes_def rising_def using windows
    by (intro slope_parts_rising) (auto dest: windows2_mem intro: assms(3))
  moreover have "\<not> ub \<le> lb" using assms(2) by simp
  ultimately have parts: "parts = level_prices slopes" using assms(1) by (simp add: price_parts_def)
  have ok: "parts_ok parts" using assms(1) by (rule price_parts_ok)
  show "of_nat (unat (out b)) - of_nat (unat (out a)) \<le>
      (1 + 1 / 2 ^ 50) * price_at parts a * (of_nat (unat b) - of_nat (unat a))"
  proof (rule windows_telescope [OF sorted _ assms(4-6)], clarify)
    fix u v assume uv: "(u, v) \<in> set (windows2 ?es)" "a \<le> u"
    have lt: "u < v" using windows uv(1) by auto
    have step: "(0 :: rat) \<le> of_nat (unat v) - of_nat (unat u)"
      using lt by (simp only: diff_ge_0_iff_ge of_nat_le_iff word_less_nat_alt order.strict_implies_order)
    show "of_nat (unat (out v)) - of_nat (unat (out u)) \<le>
      (1 + 1 / 2 ^ 50) * price_at parts a * (of_nat (unat v) - of_nat (unat u))"
    proof (cases "out u < out v")
      case True
      with uv(1) have "(u, window_slope out (u, v)) \<in> set slopes"
        by (force simp: slopes_def rising_def)
      then obtain p where p: "window_slope out (u, v) \<le> p" "(u, p) \<in> set parts"
        using level_prices_ge unfolding parts by blast
      have "p \<le> price_at parts a"
        using price_at_antimono [OF ok uv(2)] price_at_break [OF ok p(2)] by simp
      with p(1) have "window_slope out (u, v) \<le> price_at parts a" by simp
      with step have "(1 + 1 / 2 ^ 50) * window_slope out (u, v) * (of_nat (unat v) - of_nat (unat u)) \<le>
          (1 + 1 / 2 ^ 50) * price_at parts a * (of_nat (unat v) - of_nat (unat u))"
        by (intro mult_right_mono mult_left_mono) simp_all
      with window_slope_bounds(1) [OF lt True] show ?thesis by (rule order.trans)
    next
      case False
      then have "(of_nat (unat (out v)) :: rat) \<le> of_nat (unat (out u))"
        by (simp only: of_nat_le_iff word_le_nat_alt not_less)
      moreover have "0 \<le> price_at parts a"
        using price_at_pos [OF ok, of a] by (cases "parts = []") (simp_all add: less_imp_le)
      with step have "0 \<le> (1 + 1 / 2 ^ 50) * price_at parts a * (of_nat (unat v) - of_nat (unat u))"
        by simp
      ultimately show ?thesis by linarith
    qed
  qed
  show "price_at parts x = 0 \<or> (\<exists>c d. (c, d) \<in> set (windows2 ?es) \<and> out c < out d \<and>
      price_at parts x * (of_nat (unat d) - of_nat (unat c)) \<le>
        (1 + 1 / 2 ^ 50) * (of_nat (unat (out d)) - of_nat (unat (out c))) \<and>
      of_nat (unat (out d)) - of_nat (unat (out c)) \<le>
        (1 + 1 / 2 ^ 50) * price_at parts x * (of_nat (unat d) - of_nat (unat c)))"
  proof (cases "parts = []")
    case False
    then have "price_at parts x \<in> snd ` set (level_prices slopes)"
      using price_at_mem [of parts x] by (simp add: parts)
    then have "price_at parts x \<in> snd ` set slopes" using level_prices_from by fastforce
    then obtain c d where cd: "(c, d) \<in> set (windows2 ?es)" "out c < out d"
      "price_at parts x = window_slope out (c, d)" by (auto simp: slopes_def rising_def)
    moreover have "c < d" using windows cd(1) by auto
    ultimately show ?thesis using window_slope_bounds(1,2) [of c d out] by auto
  qed simp
qed

text \<open>Half an atom for an atom between 1000 and 500000: the price at 1000 covers the whole way.\<close>

lemma sample_edges: "price_edges 1000 500000 = [1000, 125000, 250000, 500000]"
  by (simp add: price_edges_def halving_edges.simps [of "1000"] PRICE_FLOOR_def word_less_nat_alt
      word_le_nat_alt unat_div)

lemma price_covers_average_rate_witness:
  "\<exists>parts. price_parts True (Some (1000, 500000)) (\<lambda>x. Ok (Some (x div 2))) = Ok parts \<and>
    (249500 :: rat) \<le> (1 + 1 / 2 ^ 50) * price_at parts 1000 * 499000"
proof -
  obtain parts where p: "price_parts True (Some (1000, 500000)) (\<lambda>x. Ok (Some (x div 2))) = Ok parts"
    by (simp add: price_parts_def sample_edges plain_sub_def word_less_nat_alt word_le_nat_alt unat_div)
  from price_covers_average_rate [OF p, of "\<lambda>x. x div 2" 1000 500000] p show ?thesis
    by (auto simp: sample_edges unat_div)
qed

end
