(* ===== verification/Account_Cache.thy ===== *)
theory Account_Cache
  imports Wrapper_Vault
begin

text \<open>
  The account cache in front of the RPC client (\<open>src/src/account_caching/rpc_cache.rs\<close>). The client
  is a parameter: the answers it gives to \<open>get_account\<close> and \<open>get_multiple_accounts\<close>. The cache keeps
  \<open>None\<close> for an account known to be missing. Each operation makes at most one request, so one client
  value per operation is enough; a step relation puts operations in sequence.
\<close>

section \<open>The cache and its operations\<close>

record rpc_client =
  rpc_get_account :: "pubkey \<Rightarrow> (string, account) outcome"
  rpc_get_multiple_accounts :: "pubkey list \<Rightarrow> (string, account option list) outcome"

type_synonym account_map = "pubkey \<rightharpoonup> account option"

definition rpc_cache_new :: account_map where
  "rpc_cache_new = Map.empty"

definition reset_cache :: "account_map \<Rightarrow> account_map" where
  "reset_cache cache = Map.empty"

definition get_multiple :: "account_map \<Rightarrow> pubkey list \<Rightarrow> account option list" where
  "get_multiple cache pubkeys =
     map (\<lambda>key. case cache key of Some value \<Rightarrow> value | None \<Rightarrow> None) pubkeys"

definition cached_get_account ::
    "rpc_client \<Rightarrow> account_map \<Rightarrow> pubkey
      \<Rightarrow> account_map \<times> (account_cache_error, account option) outcome" where
  "cached_get_account rpc cache pubkey =
     (case cache pubkey of
        Some account \<Rightarrow> (cache, Ok account)
      | None \<Rightarrow>
          or_stop (map_err FailedToFetchAccount (rpc_get_account rpc pubkey)) cache (\<lambda>response.
          (cache(pubkey \<mapsto> Some response), Ok (Some response))))"

text \<open>The first loop: the cached entries and, in order, the keys to fetch (duplicates included).\<close>

fun split_keys ::
    "account_map \<Rightarrow> pubkey list \<Rightarrow> account_map \<times> pubkey list \<Rightarrow> account_map \<times> pubkey list" where
  "split_keys cache [] (result_map, keys) = (result_map, keys)"
| "split_keys cache (pubkey # pubkeys) (result_map, keys) =
     (case cache pubkey of
        Some entry \<Rightarrow> split_keys cache pubkeys (result_map(pubkey \<mapsto> entry), keys)
      | None \<Rightarrow> split_keys cache pubkeys (result_map, keys @ [pubkey]))"

text \<open>The second loop: the response is stored in the result map and in the cache.\<close>

fun store_response ::
    "(pubkey \<times> account option) list \<Rightarrow> account_map \<times> account_map \<Rightarrow> account_map \<times> account_map" where
  "store_response [] maps = maps"
| "store_response ((pubkey, account) # rest) (result_map, cache) =
     store_response rest (result_map(pubkey \<mapsto> account), cache(pubkey \<mapsto> account))"

text \<open>The third loop: \<open>result_map.get(pubkey).unwrap()\<close> panics on a key without an entry.\<close>

definition reassemble ::
    "account_map \<Rightarrow> pubkey list \<Rightarrow> (account_cache_error, account option list) outcome" where
  "reassemble result_map pubkeys = map_outcome (\<lambda>pubkey. or_panic (result_map pubkey)) pubkeys"

definition cached_get_accounts ::
    "rpc_client \<Rightarrow> account_map \<Rightarrow> pubkey list
      \<Rightarrow> account_map \<times> (account_cache_error, account option list) outcome" where
  "cached_get_accounts rpc cache pubkeys =
     (let (result_map, keys) = split_keys cache pubkeys (Map.empty, [])
      in if keys = [] then (cache, reassemble result_map pubkeys)
         else
           or_stop (map_err FailedToFetchAccount (rpc_get_multiple_accounts rpc keys)) cache (\<lambda>response.
           let (result_map', cache') = store_response (zip keys response) (result_map, cache)
           in (cache', reassemble result_map' pubkeys)))"

section \<open>The loops\<close>

abbreviation misses :: "account_map \<Rightarrow> pubkey list \<Rightarrow> pubkey list" where
  "misses cache pubkeys \<equiv> filter (\<lambda>k. cache k = None) pubkeys"

lemma split_keys_eq:
  "split_keys cache ks (rm, keys) =
     (rm ++ (cache |` set ks), keys @ misses cache ks)"
proof (induction ks arbitrary: rm keys)
  case (Cons k ks)
  have "rm ++ cache |` insert k (set ks) = rm(k \<mapsto> e) ++ cache |` set ks" if "cache k = Some e" for e
    using that by (auto simp: map_add_def restrict_map_def fun_eq_iff split: option.splits)
  moreover have "cache |` insert k (set ks) = cache |` set ks" if "cache k = None"
    using that by (auto simp: restrict_map_def fun_eq_iff)
  ultimately show ?case by (auto simp: Cons.IH fun_upd_def split: option.splits)
qed simp

lemma store_response_eq:
  "store_response kvs (rm, c) = (rm ++ map_of (rev kvs), c ++ map_of (rev kvs))"
  by (induction kvs arbitrary: rm c) (auto simp: map_add_def fun_eq_iff split: option.splits)

lemma reassemble_cases:
  "reassemble m ks = (if set ks \<subseteq> dom m then Ok (map (\<lambda>k. the (m k)) ks) else Panic)"
  by (induction ks) (auto simp: reassemble_def dom_def split: option.splits)

text \<open>The whole operation, without its loops.\<close>

lemma cached_get_accounts_eq:
  "cached_get_accounts rpc cache ks =
     (if misses cache ks = [] then (cache, Ok (map (\<lambda>k. the (cache k)) ks))
      else
        or_stop (map_err FailedToFetchAccount (rpc_get_multiple_accounts rpc (misses cache ks))) cache
          (\<lambda>response.
        let new = map_of (rev (zip (misses cache ks) response))
        in (cache ++ new,
            if set (misses cache ks) \<subseteq> dom new
            then Ok (map (\<lambda>k. the ((cache ++ new) k)) ks) else Panic)))"
proof (cases "misses cache ks = []")
  case True
  then have "set ks \<subseteq> dom cache" by (auto simp: filter_empty_conv dom_def)
  then show ?thesis
    by (auto simp: cached_get_accounts_def split_keys_eq reassemble_cases filter_empty_conv)
next
  case False
  have "reassemble (cache |` set ks ++ new) ks =
      (if set (misses cache ks) \<subseteq> dom new then Ok (map (\<lambda>k. the ((cache ++ new) k)) ks) else Panic)"
    for new
    by (auto simp: reassemble_cases map_add_def restrict_map_def dom_def split: option.splits)
  with False show ?thesis
    by (auto simp: cached_get_accounts_def split_keys_eq store_response_eq Let_def)
qed

section \<open>A client that serves one state of the chain\<close>

text \<open>
  \<open>chain\<close> is the state the client reads. Documented behaviour of the client: \<open>get_account\<close> of an
  account that does not exist is an error, \<open>get_multiple_accounts\<close> answers in order and with \<open>None\<close>
  for such an account, and takes at most 100 keys.
\<close>

definition serves :: "rpc_client \<Rightarrow> (pubkey \<Rightarrow> account option) \<Rightarrow> bool" where
  "serves rpc chain \<longleftrightarrow>
     (\<forall>k a. chain k = Some a \<longrightarrow> rpc_get_account rpc k = Ok a) \<and>
     (\<forall>k. chain k = None \<longrightarrow> (\<exists>e. rpc_get_account rpc k = Err e)) \<and>
     (\<forall>ks. length ks \<le> 100 \<longrightarrow> rpc_get_multiple_accounts rpc ks = Ok (map chain ks)) \<and>
     (\<forall>ks. 100 < length ks \<longrightarrow> (\<exists>e. rpc_get_multiple_accounts rpc ks = Err e))"

definition std_rpc :: "(pubkey \<Rightarrow> account option) \<Rightarrow> rpc_client" where
  "std_rpc chain =
     \<lparr> rpc_get_account = (\<lambda>k. case chain k of Some a \<Rightarrow> Ok a | None \<Rightarrow> Err ''AccountNotFound''),
       rpc_get_multiple_accounts =
         (\<lambda>ks. if length ks \<le> 100 then Ok (map chain ks) else Err ''Too many inputs provided'') \<rparr>"

lemma std_rpc_serves: "serves (std_rpc chain) chain"
  by (simp add: serves_def std_rpc_def)

lemma serves_missing: "serves rpc chain \<Longrightarrow> chain k = None \<Longrightarrow> \<exists>e. rpc_get_account rpc k = Err e"
  by (simp add: serves_def)

definition coherent :: "(pubkey \<Rightarrow> account option) \<Rightarrow> account_map \<Rightarrow> bool" where
  "coherent chain cache \<longleftrightarrow> (\<forall>k v. cache k = Some v \<longrightarrow> v = chain k)"

text \<open>The caches that sequences of operations lead to.\<close>

inductive cache_reachable :: "rpc_client \<Rightarrow> account_map \<Rightarrow> bool" for rpc where
  new: "cache_reachable rpc rpc_cache_new"
| account: "cache_reachable rpc c \<Longrightarrow> cache_reachable rpc (fst (cached_get_account rpc c k))"
| accounts: "cache_reachable rpc c \<Longrightarrow> cache_reachable rpc (fst (cached_get_accounts rpc c ks))"
| reset: "cache_reachable rpc c \<Longrightarrow> cache_reachable rpc (reset_cache c)"

lemma stored_answer:
  "map_of (rev (zip keys (map chain keys))) k = (if k \<in> set keys then Some (chain k) else None)"
proof -
  have "map_of (rev (zip keys (map chain keys))) = map_of (map (\<lambda>k. (k, chain k)) (rev keys))"
    by (simp add: zip_map2 zip_same_conv_map rev_map o_def)
  then show ?thesis by (simp add: map_of_map_restrict restrict_map_def)
qed

lemma coherent_get_accounts_misses:
  assumes "serves rpc chain" "coherent chain c" "length (misses c ks) \<le> 100"
  shows "cached_get_accounts rpc c ks =
    (\<lambda>k. if k \<in> set ks then Some (chain k) else c k, Ok (map chain ks))"
proof -
  let ?keys = "misses c ks"
  let ?new = "map_of (rev (zip ?keys (map chain ?keys)))"
  have hit: "the (c k) = chain k" if "c k \<noteq> None" for k
    using assms(2) that by (auto simp: coherent_def)
  have ask: "rpc_get_multiple_accounts rpc ?keys = Ok (map chain ?keys)"
    using assms(1,3) by (simp add: serves_def)
  have merged: "(c ++ ?new) = (\<lambda>k. if k \<in> set ks then Some (chain k) else c k)"
    using assms(2)
    by (auto simp: fun_eq_iff map_add_def stored_answer coherent_def split: option.splits)
  show ?thesis
  proof (cases "?keys = []")
    case True
    then have all: "k \<in> set ks \<Longrightarrow> c k \<noteq> None" for k by (auto simp: filter_empty_conv)
    have "(\<lambda>k. if k \<in> set ks then Some (chain k) else c k) = c"
    proof (rule ext)
      fix k
      show "(if k \<in> set ks then Some (chain k) else c k) = c k"
        using all [of k] hit [of k] by (cases "c k") auto
    qed
    with True all hit show ?thesis by (simp add: cached_get_accounts_eq)
  next
    case False
    have "set ?keys \<subseteq> dom ?new" by (auto simp: dom_def stored_answer)
    with False ask merged show ?thesis by (simp add: cached_get_accounts_eq Let_def)
  qed
qed

lemma coherent_get_accounts:
  assumes "serves rpc chain" "coherent chain c" "length ks \<le> 100"
  shows "cached_get_accounts rpc c ks =
    (\<lambda>k. if k \<in> set ks then Some (chain k) else c k, Ok (map chain ks))"
  using assms(3) length_filter_le [of _ ks]
  by (intro coherent_get_accounts_misses [OF assms(1,2)]) (rule order.trans)

lemma too_many_misses:
  assumes "serves rpc chain" "100 < length (misses c ks)"
  shows "\<exists>e. cached_get_accounts rpc c ks = (c, Err (FailedToFetchAccount e))"
proof -
  from assms obtain e where "rpc_get_multiple_accounts rpc (misses c ks) = Err e"
    by (auto simp: serves_def)
  moreover from assms(2) have "misses c ks \<noteq> []" by auto
  ultimately show ?thesis by (simp add: cached_get_accounts_eq)
qed

lemma coherent_get_account:
  assumes "serves rpc chain" "coherent chain c"
  shows "coherent chain (fst (cached_get_account rpc c k))"
proof (cases "chain k")
  case None
  with assms(1) obtain e where "rpc_get_account rpc k = Err e" using serves_missing by blast
  with assms(2) show ?thesis by (simp add: cached_get_account_def split: option.splits)
next
  case (Some a)
  with assms have "rpc_get_account rpc k = Ok a" by (simp add: serves_def)
  with assms(2) Some show ?thesis
    by (auto simp: cached_get_account_def coherent_def split: option.splits)
qed

lemma reachable_coherent:
  assumes "cache_reachable rpc c" "serves rpc chain"
  shows "coherent chain c"
  using assms(1)
proof induction
  case (accounts c ks)
  show ?case
  proof (cases "length (misses c ks) \<le> 100")
    case True
    let ?new = "map_of (rev (zip (misses c ks) (map chain (misses c ks))))"
    have "rpc_get_multiple_accounts rpc (misses c ks) = Ok (map chain (misses c ks))"
      using True assms(2) by (simp add: serves_def)
    then have "fst (cached_get_accounts rpc c ks) = (if misses c ks = [] then c else c ++ ?new)"
      by (simp add: cached_get_accounts_eq Let_def)
    with accounts.IH show ?thesis
      by (auto simp: coherent_def map_add_def stored_answer split: option.splits if_splits)
  next
    case False
    then obtain e where "rpc_get_multiple_accounts rpc (misses c ks) = Err e"
      using assms(2) by (meson not_le serves_def)
    with accounts.IH show ?thesis by (simp add: cached_get_accounts_eq)
  qed
qed (auto simp: rpc_cache_new_def reset_cache_def coherent_def [of _ Map.empty] assms(2)
    intro: coherent_get_account)

section \<open>Properties\<close>

text \<open>
  C34. A cache implements the state of the chain: whatever operations were made before on the same
  state, every value it holds is the chain's, for a key with an account or without one.
  \<open>get_accounts\<close> returns exactly the accounts of the keys asked, in their order and with duplicates,
  and caches them, as long as at most 100 of them are not cached yet; with more it fails and changes
  nothing. \<open>get_account\<close> returns the chain's value of a cached key and changes nothing; it fetches
  and caches the account of a key not cached yet; and for a key not cached yet that has no account
  it fails and caches nothing, where \<open>get_accounts\<close> reports the absence.
\<close>

theorem reachable_cache_is_snapshot:
  assumes "cache_reachable rpc c" "serves rpc chain"
  shows "(\<forall>j x. c j = Some x \<longrightarrow> x = chain j) \<and>
    (if length (filter (\<lambda>j. c j = None) ks) \<le> 100
     then cached_get_accounts rpc c ks =
       (\<lambda>j. if j \<in> set ks then Some (chain j) else c j, Ok (map chain ks))
     else \<exists>e. cached_get_accounts rpc c ks = (c, Err (FailedToFetchAccount e))) \<and>
    (if c k \<noteq> None then cached_get_account rpc c k = (c, Ok (chain k))
     else case chain k of
         Some a \<Rightarrow> cached_get_account rpc c k = (c(k \<mapsto> Some a), Ok (Some a))
       | None \<Rightarrow> \<exists>e. cached_get_account rpc c k = (c, Err (FailedToFetchAccount e)))"
proof (intro conjI)
  have c: "coherent chain c" using assms by (rule reachable_coherent)
  then show held: "\<forall>j x. c j = Some x \<longrightarrow> x = chain j" by (simp add: coherent_def)
  show "if length (misses c ks) \<le> 100
     then cached_get_accounts rpc c ks =
       (\<lambda>j. if j \<in> set ks then Some (chain j) else c j, Ok (map chain ks))
     else \<exists>e. cached_get_accounts rpc c ks = (c, Err (FailedToFetchAccount e))"
    using coherent_get_accounts_misses [OF assms(2) c] too_many_misses [OF assms(2)]
    by (simp add: not_le)
  show "if c k \<noteq> None then cached_get_account rpc c k = (c, Ok (chain k))
     else case chain k of
         Some a \<Rightarrow> cached_get_account rpc c k = (c(k \<mapsto> Some a), Ok (Some a))
       | None \<Rightarrow> \<exists>e. cached_get_account rpc c k = (c, Err (FailedToFetchAccount e))"
  proof (cases "chain k")
    case None
    then obtain e where "rpc_get_account rpc k = Err e" using serves_missing [OF assms(2)] by blast
    with None held show ?thesis by (auto simp: cached_get_account_def split: option.splits)
  next
    case (Some a)
    then have "rpc_get_account rpc k = Ok a" using assms(2) by (simp add: serves_def)
    with Some held show ?thesis by (auto simp: cached_get_account_def split: option.splits)
  qed
qed

text \<open>
  What was fetched is not fetched again: after a \<open>get_accounts\<close> that succeeded, the same call
  returns the same accounts and changes nothing, whatever the client would answer by then.
\<close>

theorem fetched_accounts_stay:
  assumes "cached_get_accounts rpc c ks = (c', Ok r)"
  shows "cached_get_accounts rpc' c' ks = (c', Ok r)"
proof (cases "misses c ks = []")
  case True
  with assms show ?thesis by (auto simp: cached_get_accounts_eq)
next
  case False
  with assms obtain response where
    new: "set (misses c ks) \<subseteq> dom (map_of (rev (zip (misses c ks) response)))"
    and c': "c' = c ++ map_of (rev (zip (misses c ks) response))"
    and r: "r = map (\<lambda>k. the (c' k)) ks"
    by (auto simp: cached_get_accounts_eq Let_def split: if_splits)
  have "c' k \<noteq> None" if "k \<in> set ks" for k
    using new that unfolding c' by (cases "c k") (auto simp: map_add_def split: option.splits)
  then have "misses c' ks = []" by (auto simp: filter_empty_conv)
  then show ?thesis by (simp add: cached_get_accounts_eq r)
qed

text \<open>
  The panic of \<open>result_map.get(pubkey).unwrap()\<close>: with a client that does not panic itself,
  \<open>get_accounts\<close> panics exactly when the response is too short to answer one of the keys asked, in
  particular never when it has an entry for each.
\<close>

theorem short_response_panics:
  assumes "rpc_get_multiple_accounts rpc (misses c ks) \<noteq> Panic"
  shows "snd (cached_get_accounts rpc c ks) = Panic \<longleftrightarrow>
    (\<exists>response. rpc_get_multiple_accounts rpc (misses c ks) = Ok response \<and>
      (\<exists>k. k \<in> set (misses c ks) \<and> k \<notin> set (take (length response) (misses c ks))))"
proof -
  have dom: "dom (map_of (rev (zip keys response))) = set (take (length response) keys)"
    for keys :: "pubkey list" and response :: "account option list"
    by (simp add: dom_map_of_conv_image_fst map_fst_zip_take min_def flip: set_map)
  show ?thesis
    using assms
    by (cases "rpc_get_multiple_accounts rpc (misses c ks)")
      (auto simp: cached_get_accounts_eq Let_def dom filter_empty_conv subset_iff)
qed

text \<open>
  The two lookups disagree about an account that does not exist: \<open>get_account\<close> reports an error
  and caches nothing, unless \<open>get_accounts\<close> has cached the absence, after which it returns \<open>None\<close>.
\<close>

theorem missing_account_lookup:
  assumes "serves rpc chain" "coherent chain c" "chain k = None" "k \<notin> dom c"
  shows "(\<exists>e. cached_get_account rpc c k = (c, Err (FailedToFetchAccount e))) \<and>
    (\<exists>c'. cached_get_accounts rpc c [k] = (c', Ok [None]) \<and> cached_get_account rpc c' k = (c', Ok None))"
proof -
  obtain e where "rpc_get_account rpc k = Err e" using assms(1,3) serves_missing by blast
  then have "cached_get_account rpc c k = (c, Err (FailedToFetchAccount e))"
    using assms(4) by (simp add: cached_get_account_def domIff)
  moreover have "cached_get_account rpc (\<lambda>j. if j \<in> set [k] then Some (chain j) else c j) k =
      (\<lambda>j. if j \<in> set [k] then Some (chain j) else c j, Ok None)"
    using assms(3) by (simp add: cached_get_account_def)
  moreover have "cached_get_accounts rpc c [k] =
      (\<lambda>j. if j \<in> set [k] then Some (chain j) else c j, Ok [None])"
    using coherent_get_accounts [OF assms(1,2), of "[k]"] assms(3) by simp
  ultimately show ?thesis by blast
qed

section \<open>A concrete client\<close>

definition chain_sample :: "pubkey \<Rightarrow> account option" where
  "chain_sample k =
     (if k = replicate 32 1 then Some \<lparr> acc_data = [7], acc_owner = pubkey_default \<rparr> else None)"

lemma reachable_cache_is_snapshot_witness:
  "\<exists>c' e. cached_get_accounts (std_rpc chain_sample) rpc_cache_new
      [replicate 32 1, replicate 32 2, replicate 32 1] =
    (c', Ok [chain_sample (replicate 32 1), None, chain_sample (replicate 32 1)]) \<and>
    cached_get_account (std_rpc chain_sample) rpc_cache_new (replicate 32 2) =
    (rpc_cache_new, Err (FailedToFetchAccount e))"
  using reachable_cache_is_snapshot [OF cache_reachable.new std_rpc_serves,
      of chain_sample "[replicate 32 1, replicate 32 2, replicate 32 1]" "replicate 32 2"]
  by (auto simp: chain_sample_def rpc_cache_new_def)

lemma fetched_accounts_stay_witness:
  "\<exists>c'. cached_get_accounts \<lparr> rpc_get_account = (\<lambda>k. Err ''down''),
      rpc_get_multiple_accounts = (\<lambda>ks. Err ''down'') \<rparr> c' [replicate 32 2] = (c', Ok [None])"
proof -
  have "cached_get_accounts (std_rpc chain_sample) rpc_cache_new [replicate 32 2] =
      (\<lambda>k. if k \<in> set [replicate 32 2] then Some (chain_sample k) else rpc_cache_new k,
       Ok (map chain_sample [replicate 32 2]))"
    by (rule coherent_get_accounts [OF std_rpc_serves])
      (simp_all add: coherent_def rpc_cache_new_def)
  from fetched_accounts_stay [OF this] show ?thesis by (auto simp: chain_sample_def)
qed

lemma short_response_panics_witness:
  "snd (cached_get_accounts \<lparr> rpc_get_account = (\<lambda>k. Err ''''), rpc_get_multiple_accounts = (\<lambda>ks. Ok []) \<rparr>
     rpc_cache_new [replicate 32 2]) = Panic"
  by (subst short_response_panics) (simp_all add: rpc_cache_new_def)

lemma missing_account_lookup_witness:
  "\<exists>e c'. cached_get_account (std_rpc chain_sample) rpc_cache_new (replicate 32 2) =
      (rpc_cache_new, Err (FailedToFetchAccount e)) \<and>
    cached_get_account (std_rpc chain_sample) c' (replicate 32 2) = (c', Ok None)"
  using missing_account_lookup [OF std_rpc_serves, of chain_sample rpc_cache_new "replicate 32 2"]
  by (auto simp: chain_sample_def coherent_def rpc_cache_new_def)

end
