(* ===== verification/Cached_Updates.thy ===== *)
theory Cached_Updates
  imports Raydium_Properties Account_Cache
begin

text \<open>
  The account cache (\<open>src/src/account_caching/rpc_cache.rs\<close>) under a venue (\<open>src/src/example/mod.rs\<close>): the
  cache as the \<open>AccountsCache\<close> a refresh is handed, and what a refresh of the Raydium example venue, which
  makes a single lookup, computes through a cache with any history.
\<close>

text \<open>The \<open>dyn AccountsCache\<close> of a cache in some state: \<open>?\<close> converts the error.\<close>

definition through_cache :: "rpc_client \<Rightarrow> account_map \<Rightarrow> accounts_cache" where
  "through_cache rpc cache =
     \<lparr> get_account = (\<lambda>k. map_err AccountCacheError (snd (cached_get_account rpc cache k))),
       get_accounts = (\<lambda>ks. map_err AccountCacheError (snd (cached_get_accounts rpc cache ks))) \<rparr>"

lemma through_reachable_cache:
  assumes "cache_reachable rpc c" "serves rpc chain" "length ks \<le> 100"
  shows "get_accounts (through_cache rpc c) ks = Ok (map chain ks)"
  using coherent_get_accounts [OF assms(2) reachable_coherent [OF assms(1,2)] assms(3)]
  by (simp add: through_cache_def)

text \<open>A refresh of the Raydium venue sees of its cache the five accounts of the pool.\<close>

lemma raydium_update_cong:
  assumes "get_accounts cache (amm_key_list (rv_amm_keys v)) =
    get_accounts cache' (amm_key_list (rv_amm_keys v))"
  shows "raydium_update_state E R v cache = raydium_update_state E R v cache'"
  using assms by (simp add: raydium_update_state_def Let_def)

lemma amm_key_list_length [simp]: "length (amm_key_list k) = 5"
  by (simp add: amm_key_list_def)

text \<open>The accounts of the chain themselves, without a cache.\<close>

definition chain_accounts :: "(pubkey \<Rightarrow> account option) \<Rightarrow> accounts_cache" where
  "chain_accounts chain = \<lparr> get_account = (\<lambda>k. Ok (chain k)), get_accounts = (\<lambda>ks. Ok (map chain ks)) \<rparr>"

text \<open>
  C18. A refresh through the cache is a refresh from the chain: whatever was looked up before on the same
  state of the chain, the venue and the outcome of a refresh, successful or not, are those of a refresh
  that reads the accounts of the chain directly, and those of a refresh through an empty cache; and one
  that succeeds leaves the balances and pool amounts of the chain's own accounts.
\<close>

theorem raydium_update_through_cache:
  assumes "cache_reachable rpc c" "serves rpc chain"
  shows "raydium_update_state E R v (through_cache rpc c) =
      raydium_update_state E R v (chain_accounts chain) \<and>
    raydium_update_state E R v (through_cache rpc c) =
      raydium_update_state E R v (through_cache rpc rpc_cache_new) \<and>
    (\<forall>v'. raydium_update_state E R v (through_cache rpc c) = (v', Ok ()) \<longrightarrow>
      (\<exists>pc_vault coin_vault cr. chain (ak_amm_pc_vault (rv_amm_keys v)) = Some pc_vault \<and>
        chain (ak_amm_coin_vault (rv_amm_keys v)) = Some coin_vault \<and>
        rv_pc_balance v' = from_le_bytes (field (acc_data pc_vault) 64 8) \<and>
        rv_coin_balance v' = from_le_bytes (field (acc_data coin_vault) 64 8) \<and>
        calculate_pool_vault_amounts_from_accounts R
          [chain (ak_amm_pool (rv_amm_keys v)), Some pc_vault, Some coin_vault] = Ok cr \<and>
        rv_calculate_result v' = Some cr))"
proof (intro conjI allI impI)
  have seen: "get_accounts (through_cache rpc c') (amm_key_list (rv_amm_keys v)) =
      Ok (map chain (amm_key_list (rv_amm_keys v)))" if "cache_reachable rpc c'" for c'
    using through_reachable_cache [OF that assms(2)] by simp
  show "raydium_update_state E R v (through_cache rpc c) =
      raydium_update_state E R v (chain_accounts chain)"
    using seen [OF assms(1)] by (intro raydium_update_cong) (simp add: chain_accounts_def)
  show "raydium_update_state E R v (through_cache rpc c) =
      raydium_update_state E R v (through_cache rpc rpc_cache_new)"
    using seen [OF assms(1)] seen [OF cache_reachable.new] by (intro raydium_update_cong) simp
  fix v'
  assume "raydium_update_state E R v (through_cache rpc c) = (v', Ok ())"
  then obtain pool pc_vault coin_vault m0 m1 pc coin cr ti where
    get: "get_accounts (through_cache rpc c) (amm_key_list (rv_amm_keys v)) =
      Ok [Some pool, Some pc_vault, Some coin_vault, m0, m1]"
    and bal: "vault_balance (Some pc_vault) (rv_pc_balance v) = Ok pc"
      "vault_balance (Some coin_vault) (rv_coin_balance v) = Ok coin"
      "calculate_pool_vault_amounts_from_accounts R [Some pool, Some pc_vault, Some coin_vault] = Ok cr"
    and v': "v' = v\<lparr> rv_required_state_pubkeys :=
        extend_keys (rv_required_state_pubkeys v) (amm_key_list (rv_amm_keys v)),
      rv_pc_balance := pc, rv_coin_balance := coin, rv_calculate_result := Some cr,
      rv_token_info := ti, rv_found_all_pubkeys := True \<rparr>"
    by (rule raydium_update_OkE)
  moreover from get have "chain (ak_amm_pool (rv_amm_keys v)) = Some pool"
    "chain (ak_amm_pc_vault (rv_amm_keys v)) = Some pc_vault"
    "chain (ak_amm_coin_vault (rv_amm_keys v)) = Some coin_vault"
    by (simp_all add: seen [OF assms(1)]) (simp_all add: amm_key_list_def)
  moreover have "pc = from_le_bytes (field (acc_data pc_vault) 64 8)"
    "coin = from_le_bytes (field (acc_data coin_vault) 64 8)"
    using bal(1,2) vault_balance_Panic_iff [of pc_vault] vault_balance_Panic_iff [of coin_vault]
    by (auto simp: vault_balance_Some not_less)
  ultimately show "\<exists>pc_vault coin_vault cr. chain (ak_amm_pc_vault (rv_amm_keys v)) = Some pc_vault \<and>
      chain (ak_amm_coin_vault (rv_amm_keys v)) = Some coin_vault \<and>
      rv_pc_balance v' = from_le_bytes (field (acc_data pc_vault) 64 8) \<and>
      rv_coin_balance v' = from_le_bytes (field (acc_data coin_vault) 64 8) \<and>
      calculate_pool_vault_amounts_from_accounts R
        [chain (ak_amm_pool (rv_amm_keys v)), Some pc_vault, Some coin_vault] = Ok cr \<and>
      rv_calculate_result v' = Some cr"
    by auto
qed

text \<open>The sample pool on a chain, through a cache in which one vault has been looked up before.\<close>

definition pool_on_chain :: "pubkey \<Rightarrow> account option" where
  "pool_on_chain k =
     (if k = replicate 32 10 then Some (pool_account 6)
      else if k = replicate 32 12 then Some (pool_vault 5050)
      else if k = replicate 32 11 then Some (pool_vault 30300)
      else Some mint_account)"

lemma raydium_update_through_cache_witness:
  "\<exists>c v'. c \<noteq> Map.empty \<and>
    raydium_update_state std_crates std_amm (raydium_sample 1 1) (through_cache (std_rpc pool_on_chain) c) =
      (v', Ok ()) \<and>
    raydium_update_state std_crates std_amm (raydium_sample 1 1)
      (through_cache (std_rpc pool_on_chain) rpc_cache_new) = (v', Ok ()) \<and> rv_pc_balance v' = 5050"
proof -
  let ?rpc = "std_rpc pool_on_chain"
  define c where "c = fst (cached_get_account ?rpc rpc_cache_new (replicate 32 12))"
  have c: "cache_reachable ?rpc c"
    unfolding c_def by (rule cache_reachable.account [OF cache_reachable.new])
  have "c \<noteq> Map.empty"
    by (simp add: c_def cached_get_account_def rpc_cache_new_def std_rpc_def pool_on_chain_def)
  have "get_accounts (through_cache ?rpc c) (amm_key_list pool_keys) =
      get_accounts (pool_chain (pool_accounts 6)) (amm_key_list pool_keys)"
    using through_reachable_cache [OF c std_rpc_serves, of "amm_key_list pool_keys"]
    by (simp add: pool_accounts_def) (simp add: amm_key_list_def pool_keys_def pool_on_chain_def)
  then have "raydium_update_state std_crates std_amm (raydium_sample 1 1) (through_cache ?rpc c) =
      raydium_update_state std_crates std_amm (raydium_sample 1 1) (pool_chain (pool_accounts 6))"
    by (intro raydium_update_cong) simp
  then obtain v' where u: "raydium_update_state std_crates std_amm (raydium_sample 1 1)
      (through_cache ?rpc c) = (v', Ok ())" using sample_updates by metis
  from raydium_update_through_cache [OF c std_rpc_serves, where E = std_crates and R = std_amm
      and v = "raydium_sample 1 1"] u \<open>c \<noteq> Map.empty\<close> show ?thesis
    by (intro exI [of _ c] exI [of _ v']) (auto simp: pool_keys_def pool_on_chain_def from_to_le_bytes)
qed

end
