(* ===== verification/Spec2Isabelle.thy ===== *)
theory Spec2Isabelle
  imports Raydium_Slope Price_Rates Cached_Updates
begin

text \<open>
  Verification of the Overpass venue for the Titan router.

  \<^bold>\<open>The program.\<close> An Overpass wrapper vault holds an underlying token in one of five lending
  protocols and issues a wrapper token for it. The Rust crate under \<open>src/src\<close> quotes deposits and
  withdrawals of such a vault off chain, from account data it fetches, and builds the instructions;
  the program template under \<open>src/program-template\<close> runs routes over several venues on chain. A
  refresh decodes the vault, the configuration and the protocol's accounts, brings the protocol's
  interest up to date and keeps the result; a quote then is a pure function of that state.

  \<^bold>\<open>Conventions.\<close> Machine integers are words of their width, \<open>usize\<close> is \<open>nat\<close>, keys and account
  data are byte lists. A fallible function returns an \<open>outcome\<close>: \<open>Ok\<close>, \<open>Err\<close> or \<open>Panic\<close>; every early
  return of the code is a branch, with the error it carries. A method that mutates its receiver
  returns the receiver next to the outcome, as it is at the point of return. What other crates do is
  a record \<open>crates\<close> that the definitions take as their first argument; the laws the proofs use are
  the documented ones, stated as locales over it and shown of a concrete instance \<open>std_crates\<close>.

  \<^bold>\<open>Theories, and the code they model\<close> (paths under \<open>src/src\<close> unless said otherwise).
  \<^item> \<open>Prelude\<close>: outcomes, checked, saturating and plain integer operators, slices, little-endian
    bytes, the collections of simplification and no-panic rules.
  \<^item> \<open>Crates\<close>: the 256-bit integers of \<open>uint\<close>, the fixed-point types \<open>U68F60\<close> and \<open>I80F48\<close> of \<open>fixed\<close>,
    address derivation and the SPL constants, as parameters, with their laws.
  \<^item> \<open>Float64\<close>: conversion to \<open>f64\<close> and division, with rounding to nearest even, on rationals.
  \<^item> \<open>Venue_Core\<close> (\<open>trading_venue/error.rs\<close>, \<open>protocol.rs\<close>, \<open>token_info.rs\<close>, \<open>venue_creation.rs\<close>, \<open>mod.rs\<close>):
    errors, tokens, requests, results, default methods.
  \<^item> \<open>Bounds\<close> (\<open>trading_venue/bounds.rs\<close>): the search for the smallest and largest quotable amount.
  \<^item> \<open>Common\<close>, \<open>Wrapper_Vault\<close>, \<open>Share_Math\<close> (\<open>your_venue/common\<close>, \<open>your_venue/state.rs\<close> and what the
    five \<open>math.rs\<close> share): readers, checked helpers, the accounts of the Overpass program, minting
    and redeeming pro rata; the contracts \<open>quoting_source\<close> and \<open>swap_builder\<close> of a backend.
  \<^item> \<open>Save\<close>, \<open>Klend_Fixed\<close> and \<open>Klend\<close>, \<open>Kvault\<close>, \<open>Marginfi\<close>, \<open>Lulo\<close> (\<open>your_venue/<protocol>/\<close>): per
    backend the decoder, interest accrual, quotes, refresh, account lists and instructions, both
    contracts interpreted on them, and the properties.
  \<^item> \<open>Prices\<close>, \<open>Price_Rates\<close>, \<open>Overpass\<close>,
    \<open>Venue_Properties\<close> (\<open>your_venue/mod.rs\<close>): piecewise prices and the average
    rates they cover, the dispatch over the backends (again an instance of both contracts), the venue, and
    what holds of it over its lifetime, as an inductive set of reachable venues.
  \<^item> \<open>Account_Cache\<close> (\<open>account_caching/rpc_cache.rs\<close>): the cache in front of the RPC client, and that
    it implements a snapshot of the chain; \<open>Cached_Updates\<close>: a venue refreshed through it.
  \<^item> \<open>Swap_Route\<close> (\<open>swap_route/mod.rs\<close>): route legs and the data of the route instruction, with a
    decoder.
  \<^item> \<open>Route_Program\<close>, \<open>Route_Properties\<close> (\<open>program-template/programs/titan-v3-venue-template/src\<close>): the
    handler \<open>swap_route_v3\<close> on a store of accounts, for arbitrary called programs.
  \<^item> \<open>Amm_Crates\<close>, \<open>Raydium_Error\<close>, \<open>Raydium_Math\<close>, \<open>Raydium_Curve\<close>, \<open>Raydium_State\<close>, \<open>Raydium\<close>,
    \<open>Raydium_Properties\<close> (\<open>example/\<close>): the Raydium venue the template ships as its worked example. Its
    other crates are a second record \<open>amm_crates\<close> (\<open>U128\<close>, \<open>bytemuck\<close>, \<open>safe_transmute\<close>, unpacking of token
    accounts), with the locale \<open>amm_laws\<close> and the instance \<open>std_amm\<close>. \<open>Raydium_Curve\<close> states the curve
    on the natural numbers and shows that the 128-bit code computes it; \<open>Raydium_State\<close> has the
    pool account byte by byte; \<open>Raydium\<close> the venue object of \<open>example/mod.rs\<close>. \<open>Float64_Error\<close> counts the
    roundings of a computation in \<open>f64\<close> and \<open>Raydium_Slope\<close> compares price and quotes with the real curve.

  \<^bold>\<open>What the lemmas show.\<close> Per backend: a withdrawal pays at most the pro-rata claim and a
  deposit mints at most at the price of the existing tokens; for Save, Klend and Marginfi a withdrawal of
  what a deposit minted, on the vault with the shares that deposit bought, pays at most the deposit less
  its fees, and Lulo mints exactly the value the deposit adds, rounded down; interest never accrues twice after a refresh; failed refreshes and totality where the code has
  them. Of the venue: quotes are all or nothing, prices are positive, fall with the amount and cover the
  average rate between the edges they are computed from, the reported bounds can be traded, an update ends
  and leaves the venue in agreement with itself, a failed one keeps vault, configuration and prices. Of the
  cache: every value a reachable cache holds is the chain's, and each lookup is described for cached,
  uncached and missing accounts; a refresh through it has the outcome of one from the chain. Of routes: the data round trip; on chain the call for an Overpass
  leg is the quoter's instruction, legs spend surplus only, and a route that succeeds has not lowered any
  balance of the authority it could touch, whatever the called programs did. Of the Raydium venue: an
  exact-in quote is the constant-product formula, never lowers the product of the reserves, grows with the
  amount while the price falls, and can be had for every amount between the bounds; the prices bracket the
  average rate of every interval up to rounding, as the trait asks; reachable venues are well formed, an
  update that succeeds agrees with the accounts, and on chain its leg makes the call the quoter built.

  \<^bold>\<open>Loops and termination.\<close> The coarse search doubles a \<open>u64\<close> and terminates by a measure. The
  refinements of the search are \<open>partial_function (option)\<close>, so that not returning is \<open>None\<close>; the
  search is shown to return for every quoting function. The halving of the price edges and the power
  loop of Save terminate by measures. All other loops are recursions over lists. No fuel is used.

  \<^bold>\<open>Where the proofs show something the code does not promise.\<close> A deposit of one atom more can give
  less; Klend's subtraction of accrued fees can panic; Lulo's profit wraps at \<open>2 ^ 128\<close>; the pause flag
  is not read; the account count of a leg wraps at 256; the bounds are not the exact ends. The Raydium
  venue panics on an exact-out request for the whole reserve and on an exact-in request into an empty
  reserve whose fee takes the whole amount, reports the input of an exact-out request as its output, can
  be left with balances and reserves of different refreshes, and keeps its old tokens, or none, through an
  update that finds a mint account missing and succeeds.

  \<^bold>\<open>Not modelled.\<close> Log output; the network behind the RPC client; concurrent use of the cache (its
  map is sequential here); the address lookup tables' RPC fetch; the checks of accounts that Anchor's
  macros generate; tests and their simulators. \<open>f64\<close> has no subnormal numbers and no overflow here,
  which the amounts of a quote cannot reach.
\<close>

end
